theory Spec2Isabelle
  imports Complex_Main
begin

section \<open>JavaScript numbers\<close>

text \<open>
  The library computes on JavaScript numbers. A number is modelled as a finite real
  (\<open>Fin x\<close>; \<open>Fin 0\<close> is the positive zero) or one of the four special values of
  IEEE 754 that the code can meet: the negative zero, the two infinities and NaN.
  The operations of this section are exact on finite values. The special values follow
  ECMAScript: the sign of a zero, division by a zero, the infinities and NaN propagate
  as the language says. The rounding of binary64, with its overflow to an infinity and
  its underflow, is the subject of the section on binary64 below: there every operation
  is the exact one followed by rounding, and the class \<open>Time\<close> is embedded with the
  rounded operations. The claims whose truth depends on rounding (C2 and C3) are
  settled on that embedding.
\<close>

datatype number = Fin real | NegZero | Infinity | NegInfinity | NaN

fun signbit :: "number \<Rightarrow> bool" where
  "signbit (Fin x) = (x < 0)"
| "signbit NegZero = True"
| "signbit Infinity = False"
| "signbit NegInfinity = True"
| "signbit NaN = False"

fun is_zero :: "number \<Rightarrow> bool" where
  "is_zero (Fin x) = (x = 0)"
| "is_zero NegZero = True"
| "is_zero _ = False"

fun is_inf :: "number \<Rightarrow> bool" where
  "is_inf Infinity = True"
| "is_inf NegInfinity = True"
| "is_inf _ = False"

definition zero_signed :: "bool \<Rightarrow> number" where
  "zero_signed s = (if s then NegZero else Fin 0)"

definition inf_signed :: "bool \<Rightarrow> number" where
  "inf_signed s = (if s then NegInfinity else Infinity)"

text \<open>Unary minus flips the sign, also of a zero.\<close>

fun js_neg :: "number \<Rightarrow> number" where
  "js_neg (Fin x) = (if x = 0 then NegZero else Fin (- x))"
| "js_neg NegZero = Fin 0"
| "js_neg Infinity = NegInfinity"
| "js_neg NegInfinity = Infinity"
| "js_neg NaN = NaN"

text \<open>
  \<open>a + b\<close>. Opposite infinities give NaN; the sum of two zeros is negative only when
  both are; a finite sum that cancels is the positive zero.
\<close>

fun js_add :: "number \<Rightarrow> number \<Rightarrow> number" where
  "js_add NaN _ = NaN"
| "js_add _ NaN = NaN"
| "js_add Infinity NegInfinity = NaN"
| "js_add NegInfinity Infinity = NaN"
| "js_add Infinity _ = Infinity"
| "js_add _ Infinity = Infinity"
| "js_add NegInfinity _ = NegInfinity"
| "js_add _ NegInfinity = NegInfinity"
| "js_add NegZero b = b"
| "js_add a NegZero = a"
| "js_add (Fin x) (Fin y) = Fin (x + y)"

text \<open>\<open>a - b\<close> is \<open>a + (-b)\<close>, as in IEEE 754.\<close>

definition js_sub :: "number \<Rightarrow> number \<Rightarrow> number" where
  "js_sub a b = js_add a (js_neg b)"

text \<open>
  \<open>a * b\<close>. The sign of the result is the exclusive or of the signs; a zero times an
  infinity is NaN.
\<close>

fun js_mul :: "number \<Rightarrow> number \<Rightarrow> number" where
  "js_mul NaN _ = NaN"
| "js_mul _ NaN = NaN"
| "js_mul (Fin x) (Fin y) =
     (if x = 0 \<or> y = 0 then zero_signed ((x < 0) \<noteq> (y < 0)) else Fin (x * y))"
| "js_mul a b =
     (if is_zero a \<or> is_zero b
      then (if is_inf a \<or> is_inf b then NaN else zero_signed (signbit a \<noteq> signbit b))
      else inf_signed (signbit a \<noteq> signbit b))"

text \<open>
  \<open>a / b\<close>. No division raises: a zero divided by a zero and an infinity divided by
  an infinity are NaN, any other number divided by a zero is an infinity, and a finite
  number divided by an infinity is a zero, each with the exclusive or of the signs.
\<close>

fun js_div :: "number \<Rightarrow> number \<Rightarrow> number" where
  "js_div NaN _ = NaN"
| "js_div _ NaN = NaN"
| "js_div a b =
     (if is_inf a then (if is_inf b then NaN else inf_signed (signbit a \<noteq> signbit b))
      else if is_inf b then zero_signed (signbit a \<noteq> signbit b)
      else if is_zero b then (if is_zero a then NaN else inf_signed (signbit a \<noteq> signbit b))
      else if is_zero a then zero_signed (signbit a \<noteq> signbit b)
      else (case (a, b) of (Fin x, Fin y) \<Rightarrow> Fin (x / y) | _ \<Rightarrow> NaN))"

text \<open>\<open>a < b\<close>. Every comparison with NaN is false, and the two zeros are equal.\<close>

fun js_lt :: "number \<Rightarrow> number \<Rightarrow> bool" where
  "js_lt NaN _ = False"
| "js_lt _ NaN = False"
| "js_lt Infinity _ = False"
| "js_lt _ NegInfinity = False"
| "js_lt _ Infinity = True"
| "js_lt NegInfinity _ = True"
| "js_lt (Fin x) (Fin y) = (x < y)"
| "js_lt (Fin x) NegZero = (x < 0)"
| "js_lt NegZero (Fin y) = (0 < y)"
| "js_lt NegZero NegZero = False"

text \<open>
  \<open>Math.ceil\<close> and \<open>Math.floor\<close>. The special values are returned as they are, and
  \<open>Math.ceil\<close> of a number strictly between \<open>-1\<close> and \<open>0\<close> is the negative zero.
\<close>

fun Math_ceil :: "number \<Rightarrow> number" where
  "Math_ceil (Fin x) = (if - 1 < x \<and> x < 0 then NegZero else Fin (of_int \<lceil>x\<rceil>))"
| "Math_ceil a = a"

fun Math_floor :: "number \<Rightarrow> number" where
  "Math_floor (Fin x) = Fin (of_int \<lfloor>x\<rfloor>)"
| "Math_floor a = a"

text \<open>\<open>a || b\<close> on numbers: the falsy numbers are the two zeros and NaN.\<close>

definition js_or :: "number \<Rightarrow> number \<Rightarrow> number" where
  "js_or a b = (if is_zero a \<or> a = NaN then b else a)"

section \<open>Time.ts\<close>

definition MILLISECONDS_IN_A_SECOND :: number where
  "MILLISECONDS_IN_A_SECOND = Fin 1000"

definition MILLISECONDS_IN_A_MINUTE :: number where
  "MILLISECONDS_IN_A_MINUTE = js_mul MILLISECONDS_IN_A_SECOND (Fin 60)"

definition MILLISECONDS_IN_AN_HOUR :: number where
  "MILLISECONDS_IN_AN_HOUR = js_mul MILLISECONDS_IN_A_MINUTE (Fin 60)"

definition MILLISECONDS_IN_A_DAY :: number where
  "MILLISECONDS_IN_A_DAY = js_mul MILLISECONDS_IN_AN_HOUR (Fin 24)"

text \<open>
  A plain object whose properties hold numbers (\<open>Partial<TimeObject>\<close>, the components
  objects): a map from property names to numbers. A property that is absent is
  \<open>None\<close>; an object may carry properties its static type does not name.
\<close>

type_synonym js_object = "string \<rightharpoonup> number"

text \<open>A destructured property with a default: \<open>{ days = 0 }\<close>.\<close>

definition prop_default :: "js_object \<Rightarrow> string \<Rightarrow> number \<Rightarrow> number" where
  "prop_default obj key d = (case obj key of None \<Rightarrow> d | Some v \<Rightarrow> v)"

definition floorTowardsZero :: "number \<Rightarrow> number" where
  "floorTowardsZero v =
     (if js_lt v (Fin 0) then js_or (Math_ceil v) (Fin 0) else Math_floor v)"

definition convertToMilliseconds :: "js_object \<Rightarrow> number" where
  "convertToMilliseconds obj =
     (let days = prop_default obj ''days'' (Fin 0);
          hours = prop_default obj ''hours'' (Fin 0);
          minutes = prop_default obj ''minutes'' (Fin 0);
          seconds = prop_default obj ''seconds'' (Fin 0);
          ms = prop_default obj ''milliseconds'' (Fin 0)
      in js_add
           (js_add
             (js_add
               (js_add (js_mul days MILLISECONDS_IN_A_DAY)
                       (js_mul hours MILLISECONDS_IN_AN_HOUR))
               (js_mul minutes MILLISECONDS_IN_A_MINUTE))
             (js_mul seconds MILLISECONDS_IN_A_SECOND))
           ms)"

text \<open>The class \<open>Time\<close>: its sole state is the field \<open>milliseconds\<close>.\<close>

record Time =
  milliseconds :: number

definition Time_constructor :: "js_object \<Rightarrow> Time" where
  "Time_constructor time = \<lparr>milliseconds = convertToMilliseconds time\<rparr>"

text \<open>
  The methods, as functions of the receiver's state. Each \<open>new Time(...)\<close> of a body
  is the state of the instance it creates.
\<close>

definition Time_add :: "Time \<Rightarrow> js_object \<Rightarrow> Time" where
  "Time_add this time =
     Time_constructor
       [''milliseconds'' \<mapsto> js_add (milliseconds this) (convertToMilliseconds time)]"

definition Time_subtract :: "Time \<Rightarrow> js_object \<Rightarrow> Time" where
  "Time_subtract this time =
     Time_constructor
       [''milliseconds'' \<mapsto> js_sub (milliseconds this) (convertToMilliseconds time)]"

definition Time_multiply :: "Time \<Rightarrow> number \<Rightarrow> Time" where
  "Time_multiply this multiplier =
     Time_constructor [''milliseconds'' \<mapsto> js_mul (milliseconds this) multiplier]"

definition Time_divide :: "Time \<Rightarrow> number \<Rightarrow> Time" where
  "Time_divide this divisor =
     Time_constructor [''milliseconds'' \<mapsto> js_div (milliseconds this) divisor]"

definition Time_toMilliseconds :: "Time \<Rightarrow> number" where
  "Time_toMilliseconds this = milliseconds this"

definition Time_toSeconds :: "Time \<Rightarrow> number" where
  "Time_toSeconds this = js_div (milliseconds this) MILLISECONDS_IN_A_SECOND"

definition Time_toMinutes :: "Time \<Rightarrow> number" where
  "Time_toMinutes this = js_div (milliseconds this) MILLISECONDS_IN_A_MINUTE"

definition Time_toHours :: "Time \<Rightarrow> number" where
  "Time_toHours this = js_div (milliseconds this) MILLISECONDS_IN_AN_HOUR"

definition Time_toDays :: "Time \<Rightarrow> number" where
  "Time_toDays this = js_div (milliseconds this) MILLISECONDS_IN_A_DAY"

definition Time_toComponents :: "Time \<Rightarrow> js_object" where
  "Time_toComponents this =
     (let days = floorTowardsZero (Time_toDays this);
          tally = Time_subtract this [''days'' \<mapsto> days];
          hours = floorTowardsZero (Time_toHours tally);
          tally = Time_subtract tally [''hours'' \<mapsto> hours];
          minutes = floorTowardsZero (Time_toMinutes tally);
          tally = Time_subtract tally [''minutes'' \<mapsto> minutes];
          seconds = floorTowardsZero (Time_toSeconds tally);
          tally = Time_subtract tally [''seconds'' \<mapsto> seconds];
          ms = milliseconds tally
      in [''days'' \<mapsto> days, ''hours'' \<mapsto> hours, ''minutes'' \<mapsto> minutes,
          ''seconds'' \<mapsto> seconds, ''milliseconds'' \<mapsto> ms])"


subsection \<open>Instances in a store\<close>

text \<open>
  Instances of \<open>Time\<close> are objects with an identity. The store holds the state of
  every instance created so far; a reference is an index into it. \<open>new Time(...)\<close>
  adds an instance at a fresh reference; the only assignment to \<open>milliseconds\<close> in
  the class is the constructor's, to the instance it creates.
\<close>

type_synonym store = "Time list"

definition new_Time :: "store \<Rightarrow> Time \<Rightarrow> nat \<times> store" where
  "new_Time h t = (length h, h @ [t])"

text \<open>
  A call \<open>t.add(time)\<close> on the instance at reference \<open>this\<close>: the body reads the
  receiver and returns the reference of the instance it creates, with the new store.
\<close>

definition call_add :: "store \<Rightarrow> nat \<Rightarrow> js_object \<Rightarrow> nat \<times> store" where
  "call_add h this time = new_Time h (Time_add (h ! this) time)"

definition call_subtract :: "store \<Rightarrow> nat \<Rightarrow> js_object \<Rightarrow> nat \<times> store" where
  "call_subtract h this time = new_Time h (Time_subtract (h ! this) time)"

definition call_multiply :: "store \<Rightarrow> nat \<Rightarrow> number \<Rightarrow> nat \<times> store" where
  "call_multiply h this multiplier = new_Time h (Time_multiply (h ! this) multiplier)"

definition call_divide :: "store \<Rightarrow> nat \<Rightarrow> number \<Rightarrow> nat \<times> store" where
  "call_divide h this divisor = new_Time h (Time_divide (h ! this) divisor)"

section \<open>Coercion of inputs (toTimeObject)\<close>

text \<open>
  The values a caller can pass at run time: the three shapes of \<open>TimeInput\<close> (a string,
  a number, an object) and the primitives the static type excludes.
\<close>

datatype js_value =
  VString string
| VNumber number
| VObject js_object
| VNull
| VUndefined
| VBoolean bool

datatype error = ParseError | TypeError

text \<open>
  Modelled from the spec: \<open>DEFAULT_TIME\<close> of \<open>./lib/constants\<close> is not in the source
  tree; it is the all-zero default with the eight unit fields.
\<close>

definition DEFAULT_TIME :: js_object where
  "DEFAULT_TIME =
     [''years'' \<mapsto> Fin 0, ''months'' \<mapsto> Fin 0, ''weeks'' \<mapsto> Fin 0, ''days'' \<mapsto> Fin 0,
      ''hours'' \<mapsto> Fin 0, ''minutes'' \<mapsto> Fin 0, ''seconds'' \<mapsto> Fin 0,
      ''milliseconds'' \<mapsto> Fin 0]"

text \<open>
  What an object spread \<open>...time\<close> copies: the own enumerable properties of the value.
  \<open>null\<close>, \<open>undefined\<close> and a boolean have none, and the spread of them is no
  error. (A string or a number never reaches the spread of \<open>toTimeObject\<close>.)
\<close>

fun own_props :: "js_value \<Rightarrow> js_object" where
  "own_props (VObject obj) = obj"
| "own_props _ = Map.empty"

text \<open>
  \<open>parseISODuration\<close> of \<open>./lib/parseISODuration\<close> is not in the source tree: it is
  a parameter, a partial function from strings to components objects that is undefined
  where the parser raises its parse error.
\<close>

type_synonym iso_parser = "string \<rightharpoonup> js_object"

definition toTimeObject :: "iso_parser \<Rightarrow> js_value \<Rightarrow> error + js_object" where
  "toTimeObject parseISODuration time =
     (case time of
        VString s \<Rightarrow>
          (case parseISODuration s of None \<Rightarrow> Inl ParseError | Some t \<Rightarrow> Inr t)
      | VNumber n \<Rightarrow> Inr (DEFAULT_TIME(''milliseconds'' \<mapsto> n))
      | _ \<Rightarrow> Inr (DEFAULT_TIME ++ own_props time))"

section \<open>Unit conversion and calculations\<close>

text \<open>
  Modelled from the spec: the unit constants of a week, a month and a year are not in
  the source tree. A week is seven days, a year is 365.25 days and a month is a twelfth
  of a year.
\<close>

definition MILLISECONDS_IN_A_WEEK :: number where
  "MILLISECONDS_IN_A_WEEK = js_mul MILLISECONDS_IN_A_DAY (Fin 7)"

definition MILLISECONDS_IN_A_YEAR :: number where
  "MILLISECONDS_IN_A_YEAR = js_mul MILLISECONDS_IN_A_DAY (Fin 365.25)"

definition MILLISECONDS_IN_A_MONTH :: number where
  "MILLISECONDS_IN_A_MONTH = js_div MILLISECONDS_IN_A_YEAR (Fin 12)"

text \<open>
  Modelled from the spec: \<open>toMilliseconds\<close> of \<open>./unitConversion\<close> is not in the
  source tree. It resolves the input through the coercion layer and sums every field
  multiplied by its unit's factor; a missing field contributes 0.
\<close>

definition toMilliseconds :: "iso_parser \<Rightarrow> js_value \<Rightarrow> error + number" where
  "toMilliseconds p time =
     (case toTimeObject p time of
        Inl e \<Rightarrow> Inl e
      | Inr t \<Rightarrow>
          Inr (js_add
                (js_add
                  (js_add
                    (js_add
                      (js_add
                        (js_add
                          (js_add
                            (js_mul (prop_default t ''years'' (Fin 0)) MILLISECONDS_IN_A_YEAR)
                            (js_mul (prop_default t ''months'' (Fin 0)) MILLISECONDS_IN_A_MONTH))
                          (js_mul (prop_default t ''weeks'' (Fin 0)) MILLISECONDS_IN_A_WEEK))
                        (js_mul (prop_default t ''days'' (Fin 0)) MILLISECONDS_IN_A_DAY))
                      (js_mul (prop_default t ''hours'' (Fin 0)) MILLISECONDS_IN_AN_HOUR))
                    (js_mul (prop_default t ''minutes'' (Fin 0)) MILLISECONDS_IN_A_MINUTE))
                  (js_mul (prop_default t ''seconds'' (Fin 0)) MILLISECONDS_IN_A_SECOND))
                (prop_default t ''milliseconds'' (Fin 0))))"

text \<open>
  Modelled from the spec: the other converters of \<open>./unitConversion\<close> are not in the
  source tree. Each resolves the input to milliseconds and divides by its unit's factor.
\<close>

definition toUnit :: "number \<Rightarrow> iso_parser \<Rightarrow> js_value \<Rightarrow> error + number" where
  "toUnit factor p time =
     (case toMilliseconds p time of Inl e \<Rightarrow> Inl e | Inr ms \<Rightarrow> Inr (js_div ms factor))"

definition toSeconds :: "iso_parser \<Rightarrow> js_value \<Rightarrow> error + number" where
  "toSeconds = toUnit MILLISECONDS_IN_A_SECOND"

definition toMinutes :: "iso_parser \<Rightarrow> js_value \<Rightarrow> error + number" where
  "toMinutes = toUnit MILLISECONDS_IN_A_MINUTE"

definition toHours :: "iso_parser \<Rightarrow> js_value \<Rightarrow> error + number" where
  "toHours = toUnit MILLISECONDS_IN_AN_HOUR"

definition toDays :: "iso_parser \<Rightarrow> js_value \<Rightarrow> error + number" where
  "toDays = toUnit MILLISECONDS_IN_A_DAY"

definition toWeeks :: "iso_parser \<Rightarrow> js_value \<Rightarrow> error + number" where
  "toWeeks = toUnit MILLISECONDS_IN_A_WEEK"

definition toMonths :: "iso_parser \<Rightarrow> js_value \<Rightarrow> error + number" where
  "toMonths = toUnit MILLISECONDS_IN_A_MONTH"

definition toYears :: "iso_parser \<Rightarrow> js_value \<Rightarrow> error + number" where
  "toYears = toUnit MILLISECONDS_IN_A_YEAR"

text \<open>
  Modelled from the spec: \<open>subtractTime\<close> of \<open>./calculations\<close> is not in the source
  tree. It resolves both inputs to milliseconds and returns the difference, a number
  of milliseconds.
\<close>

definition subtractTime :: "iso_parser \<Rightarrow> js_value \<Rightarrow> js_value \<Rightarrow> error + number" where
  "subtractTime p a b =
     (case toMilliseconds p a of
        Inl e \<Rightarrow> Inl e
      | Inr x \<Rightarrow> (case toMilliseconds p b of Inl e \<Rightarrow> Inl e | Inr y \<Rightarrow> Inr (js_sub x y)))"

section \<open>normalizeTime.ts\<close>

definition units :: "(string \<times> (iso_parser \<Rightarrow> js_value \<Rightarrow> error + number)) list" where
  "units =
     [(''years'', toYears), (''months'', toMonths), (''weeks'', toWeeks), (''days'', toDays),
      (''hours'', toHours), (''minutes'', toMinutes), (''seconds'', toSeconds),
      (''milliseconds'', toMilliseconds)]"

text \<open>
  Modelled from the spec: \<open>floorTowardsZero\<close> of \<open>./lib/floorTowardsZero\<close>, which
  \<open>normalizeTime.ts\<close> imports, is not in the source tree. The specification has one
  rounding primitive of that name and \<open>Time.ts\<close> defines it: the loop below uses the
  function \<open>floorTowardsZero\<close> of \<open>Time.ts\<close>.
\<close>

text \<open>
  The \<open>for\<close> loop of \<open>normalizeTime\<close> over the remaining units, on the state
  \<open>(tally, output)\<close>. An exception of a converter ends the loop.
\<close>

fun normalize_loop ::
  "iso_parser \<Rightarrow> (string \<times> (iso_parser \<Rightarrow> js_value \<Rightarrow> error + number)) list \<Rightarrow>
   js_value \<Rightarrow> js_object \<Rightarrow> error + js_object" where
  "normalize_loop p [] tally output = Inr output"
| "normalize_loop p ((key, convertTo) # us) tally output =
     (case convertTo p tally of
        Inl e \<Rightarrow> Inl e
      | Inr c \<Rightarrow>
          (let v = floorTowardsZero c;
               output' = output(key \<mapsto> v)
           in case subtractTime p tally (VObject [key \<mapsto> v]) of
                Inl e \<Rightarrow> Inl e
              | Inr tally' \<Rightarrow> normalize_loop p us (VNumber tally') output'))"

definition normalizeTime :: "iso_parser \<Rightarrow> js_value \<Rightarrow> error + js_object" where
  "normalizeTime p time = normalize_loop p units time DEFAULT_TIME"

section \<open>sum\<close>

text \<open>
  Modelled from the spec: \<open>UNIT_KEYS\<close> and \<open>ZERO\<close> of \<open>./lib/units\<close> are not in the
  source tree: the names of the eight unit fields, and the all-zero components object.
\<close>

definition UNIT_KEYS :: "string list" where
  "UNIT_KEYS =
     [''years'', ''months'', ''weeks'', ''days'', ''hours'', ''minutes'', ''seconds'',
      ''milliseconds'']"

definition ZERO :: js_object where
  "ZERO =
     [''years'' \<mapsto> Fin 0, ''months'' \<mapsto> Fin 0, ''weeks'' \<mapsto> Fin 0, ''days'' \<mapsto> Fin 0,
      ''hours'' \<mapsto> Fin 0, ''minutes'' \<mapsto> Fin 0, ''seconds'' \<mapsto> Fin 0,
      ''milliseconds'' \<mapsto> Fin 0]"

text \<open>
  Modelled from the spec: \<open>parse\<close> of \<open>./parse\<close> is not in the source tree. It is the
  coercion entry point: a string goes to the ISO parser, a number is a number of
  milliseconds, an object is merged field by field over the all-zero default, and any
  other shape fails with a type error.
\<close>

definition parse :: "iso_parser \<Rightarrow> js_value \<Rightarrow> error + js_object" where
  "parse parseISODuration duration =
     (case duration of
        VString s \<Rightarrow>
          (case parseISODuration s of None \<Rightarrow> Inl ParseError | Some t \<Rightarrow> Inr t)
      | VNumber n \<Rightarrow> Inr (ZERO(''milliseconds'' \<mapsto> n))
      | VObject obj \<Rightarrow> Inr (ZERO ++ obj)
      | _ \<Rightarrow> Inl TypeError)"

text \<open>\<open>durations.map(parse)\<close>: the first input that fails to parse raises.\<close>

fun map_parse :: "iso_parser \<Rightarrow> js_value list \<Rightarrow> error + js_object list" where
  "map_parse p [] = Inr []"
| "map_parse p (d # ds) =
     (case parse p d of
        Inl e \<Rightarrow> Inl e
      | Inr x \<Rightarrow> (case map_parse p ds of Inl e \<Rightarrow> Inl e | Inr xs \<Rightarrow> Inr (x # xs)))"

text \<open>
  Reading a property in an arithmetic expression: an absent property is \<open>undefined\<close>,
  which \<open>+=\<close> turns into NaN.
\<close>

definition prop_get :: "js_object \<Rightarrow> string \<Rightarrow> number" where
  "prop_get obj key = (case obj key of None \<Rightarrow> NaN | Some v \<Rightarrow> v)"

text \<open>The inner \<open>forEach\<close>: \<open>output[key] += duration[key]\<close> for every unit key.\<close>

definition add_fields :: "js_object \<Rightarrow> js_object \<Rightarrow> js_object" where
  "add_fields output duration =
     foldl (\<lambda>out key. out(key \<mapsto> js_add (prop_get out key) (prop_get duration key)))
       output UNIT_KEYS"

definition sum_durations :: "iso_parser \<Rightarrow> js_value list \<Rightarrow> error + js_object" where
  "sum_durations p durations =
     (case map_parse p durations of
        Inl e \<Rightarrow> Inl e
      | Inr parsed \<Rightarrow> Inr (foldl add_fields ZERO parsed))"

section \<open>The decomposition in the specification's words\<close>

text \<open>
  The integer part of a real towards zero: the fractional part is discarded.
\<close>

definition integer_part :: "real \<Rightarrow> real" where
  "integer_part x = sgn x * of_int \<lfloor>\<bar>x\<bar>\<rfloor>"

text \<open>The units from years down to milliseconds, each with its number of milliseconds.\<close>

definition unit_factors :: "(string \<times> real) list" where
  "unit_factors =
     [(''years'', 31557600000), (''months'', 2629800000), (''weeks'', 604800000),
      (''days'', 86400000), (''hours'', 3600000), (''minutes'', 60000), (''seconds'', 1000),
      (''milliseconds'', 1)]"

text \<open>
  The greedy decomposition of a remainder \<open>r\<close> of milliseconds over a list of units: the
  component of the first unit is the integer part towards zero of the remainder
  expressed in that unit; that many whole units are subtracted, and the rest is
  carried to the next unit.
\<close>

fun greedy_spec :: "(string \<times> real) list \<Rightarrow> real \<Rightarrow> (string \<times> real) list" where
  "greedy_spec [] r = []"
| "greedy_spec ((key, factor) # us) r =
     (let c = integer_part (r / factor) in (key, c) # greedy_spec us (r - c * factor))"

text \<open>What is left of the remainder after the last unit.\<close>

fun remainder_spec :: "(string \<times> real) list \<Rightarrow> real \<Rightarrow> real" where
  "remainder_spec [] r = r"
| "remainder_spec ((key, factor) # us) r =
     (let c = integer_part (r / factor) in remainder_spec us (r - c * factor))"

text \<open>The components object with the given fields.\<close>

definition components_object :: "(string \<times> real) list \<Rightarrow> js_object" where
  "components_object cs = map_of (map (\<lambda>(k, c). (k, Fin c)) cs)"

text \<open>The assignments \<open>output[key] = c\<close> of a list of components, in order.\<close>

definition assign_all :: "(string \<times> real) list \<Rightarrow> js_object \<Rightarrow> js_object" where
  "assign_all cs out = fold (\<lambda>(k, c) obj. obj(k \<mapsto> Fin c)) cs out"

text \<open>
  An entry of the table \<open>units\<close> agrees with a unit and its factor: the keys are the
  same, the converter divides a finite number of milliseconds by the factor, and an
  object with that one field is worth the field times the factor.
\<close>

definition unit_rel ::
  "(string \<times> (iso_parser \<Rightarrow> js_value \<Rightarrow> error + number)) \<Rightarrow> (string \<times> real) \<Rightarrow> bool" where
  "unit_rel u kf \<longleftrightarrow>
     fst u = fst kf \<and> 0 < snd kf \<and>
     (\<forall>p t r. toMilliseconds p t = Inr (Fin r) \<longrightarrow> snd u p t = Inr (Fin (r / snd kf))) \<and>
     (\<forall>p c. toMilliseconds p (VObject [fst u \<mapsto> Fin c]) = Inr (Fin (c * snd kf)))"

section \<open>binary64\<close>

text \<open>
  Rounding to the nearest integer, a tie to the even one.
\<close>

definition round_even :: "real \<Rightarrow> int" where
  "round_even r =
     (let n = \<lfloor>r\<rfloor>; d = r - of_int n
      in if d < 1 / 2 then n else if 1 / 2 < d then n + 1 else if even n then n else n + 1)"

text \<open>
  The exponent of the binade of a real: \<open>2 ^ e \<le> |x| < 2 ^ (e + 1)\<close>, and \<open>-1022\<close> in the
  subnormal range.
\<close>

definition exponent64 :: "real \<Rightarrow> int" where
  "exponent64 x = max \<lfloor>log 2 \<bar>x\<bar>\<rfloor> (- 1022)"

text \<open>
  A real rounded to binary64, to nearest and ties to even: the nearest multiple of the
  unit in the last place \<open>2 ^ (e - 52)\<close>. A result of magnitude \<open>2 ^ 1024\<close> or more
  overflows to an infinity, and a result that underflows to nothing is a zero with the
  sign of the real.
\<close>

definition round64 :: "real \<Rightarrow> number" where
  "round64 x =
     (if x = 0 then Fin 0
      else (let q = 2 powr (of_int (exponent64 x) - 52);
                r = q * of_int (round_even (x / q))
            in if 2 ^ 1024 \<le> \<bar>r\<bar> then inf_signed (x < 0)
               else if r = 0 then zero_signed (x < 0)
               else Fin r))"

text \<open>
  An operation of binary64 is the exact operation followed by rounding; the special
  values are not rounded.
\<close>

fun to_binary64 :: "number \<Rightarrow> number" where
  "to_binary64 (Fin r) = round64 r"
| "to_binary64 a = a"

definition add64 :: "number \<Rightarrow> number \<Rightarrow> number" where
  "add64 a b = to_binary64 (js_add a b)"

definition sub64 :: "number \<Rightarrow> number \<Rightarrow> number" where
  "sub64 a b = to_binary64 (js_sub a b)"

definition mul64 :: "number \<Rightarrow> number \<Rightarrow> number" where
  "mul64 a b = to_binary64 (js_mul a b)"

definition div64 :: "number \<Rightarrow> number \<Rightarrow> number" where
  "div64 a b = to_binary64 (js_div a b)"

text \<open>
  \<open>convertToMilliseconds\<close> and the class \<open>Time\<close> of \<open>Time.ts\<close> with the operations of
  binary64: the same bodies, every \<open>+\<close>, \<open>-\<close>, \<open>*\<close> and \<open>/\<close> rounded. (The unit
  constants are products of small integers, which binary64 computes exactly.)
\<close>

definition convertToMilliseconds64 :: "js_object \<Rightarrow> number" where
  "convertToMilliseconds64 obj =
     (let days = prop_default obj ''days'' (Fin 0);
          hours = prop_default obj ''hours'' (Fin 0);
          minutes = prop_default obj ''minutes'' (Fin 0);
          seconds = prop_default obj ''seconds'' (Fin 0);
          ms = prop_default obj ''milliseconds'' (Fin 0)
      in add64
           (add64
             (add64
               (add64 (mul64 days MILLISECONDS_IN_A_DAY)
                      (mul64 hours MILLISECONDS_IN_AN_HOUR))
               (mul64 minutes MILLISECONDS_IN_A_MINUTE))
             (mul64 seconds MILLISECONDS_IN_A_SECOND))
           ms)"

definition Time_constructor64 :: "js_object \<Rightarrow> Time" where
  "Time_constructor64 time = \<lparr>milliseconds = convertToMilliseconds64 time\<rparr>"

definition Time_subtract64 :: "Time \<Rightarrow> js_object \<Rightarrow> Time" where
  "Time_subtract64 this time =
     Time_constructor64
       [''milliseconds'' \<mapsto> sub64 (milliseconds this) (convertToMilliseconds64 time)]"

definition Time_toSeconds64 :: "Time \<Rightarrow> number" where
  "Time_toSeconds64 this = div64 (milliseconds this) MILLISECONDS_IN_A_SECOND"

definition Time_toMinutes64 :: "Time \<Rightarrow> number" where
  "Time_toMinutes64 this = div64 (milliseconds this) MILLISECONDS_IN_A_MINUTE"

definition Time_toHours64 :: "Time \<Rightarrow> number" where
  "Time_toHours64 this = div64 (milliseconds this) MILLISECONDS_IN_AN_HOUR"

definition Time_toDays64 :: "Time \<Rightarrow> number" where
  "Time_toDays64 this = div64 (milliseconds this) MILLISECONDS_IN_A_DAY"

definition Time_toComponents64 :: "Time \<Rightarrow> js_object" where
  "Time_toComponents64 this =
     (let days = floorTowardsZero (Time_toDays64 this);
          tally = Time_subtract64 this [''days'' \<mapsto> days];
          hours = floorTowardsZero (Time_toHours64 tally);
          tally = Time_subtract64 tally [''hours'' \<mapsto> hours];
          minutes = floorTowardsZero (Time_toMinutes64 tally);
          tally = Time_subtract64 tally [''minutes'' \<mapsto> minutes];
          seconds = floorTowardsZero (Time_toSeconds64 tally);
          tally = Time_subtract64 tally [''seconds'' \<mapsto> seconds];
          ms = milliseconds tally
      in [''days'' \<mapsto> days, ''hours'' \<mapsto> hours, ''minutes'' \<mapsto> minutes,
          ''seconds'' \<mapsto> seconds, ''milliseconds'' \<mapsto> ms])"

text \<open>
  A real on the grid \<open>J\<close>: an integer below \<open>2 ^ 53\<close> in magnitude divided by \<open>2 ^ J\<close>.
  The binary64 numbers below \<open>2 ^ 53\<close> in magnitude are the reals on a grid \<open>J \<le> 1074\<close>.
\<close>

definition on_grid :: "nat \<Rightarrow> real \<Rightarrow> bool" where
  "on_grid J r \<longleftrightarrow> (\<exists>a::int. r = of_int a / 2 ^ J \<and> \<bar>a\<bar> < 2 ^ 53)"

text \<open>
  Modelled from the spec: the converters and \<open>subtractTime\<close> that \<open>normalizeTime\<close>
  imports are not in the source tree. Here they are with the operations of binary64:
  the bodies of \<open>toMilliseconds\<close>, \<open>toUnit\<close> and \<open>subtractTime\<close> above, every
  \<open>+\<close>, \<open>-\<close>, \<open>*\<close> and \<open>/\<close> rounded. (The constants of a week, a year and a month are
  604800000, 31557600000 and 2629800000, which binary64 computes exactly.)
\<close>

definition toMilliseconds64 :: "iso_parser \<Rightarrow> js_value \<Rightarrow> error + number" where
  "toMilliseconds64 p time =
     (case toTimeObject p time of
        Inl e \<Rightarrow> Inl e
      | Inr t \<Rightarrow>
          Inr (add64
                (add64
                  (add64
                    (add64
                      (add64
                        (add64
                          (add64
                            (mul64 (prop_default t ''years'' (Fin 0)) MILLISECONDS_IN_A_YEAR)
                            (mul64 (prop_default t ''months'' (Fin 0)) MILLISECONDS_IN_A_MONTH))
                          (mul64 (prop_default t ''weeks'' (Fin 0)) MILLISECONDS_IN_A_WEEK))
                        (mul64 (prop_default t ''days'' (Fin 0)) MILLISECONDS_IN_A_DAY))
                      (mul64 (prop_default t ''hours'' (Fin 0)) MILLISECONDS_IN_AN_HOUR))
                    (mul64 (prop_default t ''minutes'' (Fin 0)) MILLISECONDS_IN_A_MINUTE))
                  (mul64 (prop_default t ''seconds'' (Fin 0)) MILLISECONDS_IN_A_SECOND))
                (prop_default t ''milliseconds'' (Fin 0))))"

definition toUnit64 :: "number \<Rightarrow> iso_parser \<Rightarrow> js_value \<Rightarrow> error + number" where
  "toUnit64 factor p time =
     (case toMilliseconds64 p time of Inl e \<Rightarrow> Inl e | Inr ms \<Rightarrow> Inr (div64 ms factor))"

definition toSeconds64 :: "iso_parser \<Rightarrow> js_value \<Rightarrow> error + number" where
  "toSeconds64 = toUnit64 MILLISECONDS_IN_A_SECOND"

definition toMinutes64 :: "iso_parser \<Rightarrow> js_value \<Rightarrow> error + number" where
  "toMinutes64 = toUnit64 MILLISECONDS_IN_A_MINUTE"

definition toHours64 :: "iso_parser \<Rightarrow> js_value \<Rightarrow> error + number" where
  "toHours64 = toUnit64 MILLISECONDS_IN_AN_HOUR"

definition toDays64 :: "iso_parser \<Rightarrow> js_value \<Rightarrow> error + number" where
  "toDays64 = toUnit64 MILLISECONDS_IN_A_DAY"

definition toWeeks64 :: "iso_parser \<Rightarrow> js_value \<Rightarrow> error + number" where
  "toWeeks64 = toUnit64 MILLISECONDS_IN_A_WEEK"

definition toMonths64 :: "iso_parser \<Rightarrow> js_value \<Rightarrow> error + number" where
  "toMonths64 = toUnit64 MILLISECONDS_IN_A_MONTH"

definition toYears64 :: "iso_parser \<Rightarrow> js_value \<Rightarrow> error + number" where
  "toYears64 = toUnit64 MILLISECONDS_IN_A_YEAR"

definition subtractTime64 :: "iso_parser \<Rightarrow> js_value \<Rightarrow> js_value \<Rightarrow> error + number" where
  "subtractTime64 p a b =
     (case toMilliseconds64 p a of
        Inl e \<Rightarrow> Inl e
      | Inr x \<Rightarrow> (case toMilliseconds64 p b of Inl e \<Rightarrow> Inl e | Inr y \<Rightarrow> Inr (sub64 x y)))"

text \<open>
  The table \<open>units\<close> and the loop of \<open>normalizeTime.ts\<close> with these converters.
\<close>

definition units64 :: "(string \<times> (iso_parser \<Rightarrow> js_value \<Rightarrow> error + number)) list" where
  "units64 =
     [(''years'', toYears64), (''months'', toMonths64), (''weeks'', toWeeks64),
      (''days'', toDays64), (''hours'', toHours64), (''minutes'', toMinutes64),
      (''seconds'', toSeconds64), (''milliseconds'', toMilliseconds64)]"

fun normalize_loop64 ::
  "iso_parser \<Rightarrow> (string \<times> (iso_parser \<Rightarrow> js_value \<Rightarrow> error + number)) list \<Rightarrow>
   js_value \<Rightarrow> js_object \<Rightarrow> error + js_object" where
  "normalize_loop64 p [] tally output = Inr output"
| "normalize_loop64 p ((key, convertTo) # us) tally output =
     (case convertTo p tally of
        Inl e \<Rightarrow> Inl e
      | Inr c \<Rightarrow>
          (let v = floorTowardsZero c;
               output' = output(key \<mapsto> v)
           in case subtractTime64 p tally (VObject [key \<mapsto> v]) of
                Inl e \<Rightarrow> Inl e
              | Inr tally' \<Rightarrow> normalize_loop64 p us (VNumber tally') output'))"

definition normalizeTime64 :: "iso_parser \<Rightarrow> js_value \<Rightarrow> error + js_object" where
  "normalizeTime64 p time = normalize_loop64 p units64 time DEFAULT_TIME"

text \<open>
  An entry of the table \<open>units64\<close> agrees with a unit and its factor: the keys are the
  same, the factor is a whole number of milliseconds, the converter divides a binary64
  number of milliseconds by the factor, and an object with that one field is worth the
  field times the factor when the product is a safe integer, and 0 when the field is the
  negative zero.
\<close>

definition unit_rel64 ::
  "(string \<times> (iso_parser \<Rightarrow> js_value \<Rightarrow> error + number)) \<Rightarrow> (string \<times> real) \<Rightarrow> bool" where
  "unit_rel64 u kf \<longleftrightarrow>
     fst u = fst kf \<and> (\<exists>F::int. snd kf = of_int F \<and> 1 \<le> F \<and> F \<le> 2 ^ 35) \<and>
     (\<forall>p t r. toMilliseconds64 p t = Inr (Fin r) \<longrightarrow> round64 r = Fin r \<longrightarrow>
        snd u p t = Inr (div64 (Fin r) (Fin (snd kf)))) \<and>
     (\<forall>p c. c \<in> \<int> \<longrightarrow> \<bar>c * snd kf\<bar> < 2 ^ 53 \<longrightarrow>
        toMilliseconds64 p (VObject [fst u \<mapsto> Fin c]) = Inr (Fin (c * snd kf))) \<and>
     (\<forall>p. toMilliseconds64 p (VObject [fst u \<mapsto> NegZero]) = Inr (Fin 0))"

section \<open>Facts about the model\<close>

subsection \<open>Finite numbers\<close>

text \<open>On finite numbers and positive factors the operations of JavaScript are those
  of the reals, and \<open>floorTowardsZero\<close> is the integer part towards zero.\<close>

lemma integer_part_alt: "integer_part x = (if x < 0 then of_int \<lceil>x\<rceil> else of_int \<lfloor>x\<rfloor>)"
  unfolding integer_part_def
  by (auto simp: sgn_if ceiling_def abs_if)

lemma ms_consts:
  "MILLISECONDS_IN_A_MINUTE = Fin 60000"
  "MILLISECONDS_IN_AN_HOUR = Fin 3600000"
  "MILLISECONDS_IN_A_DAY = Fin 86400000"
  "MILLISECONDS_IN_A_WEEK = Fin 604800000"
  "MILLISECONDS_IN_A_YEAR = Fin 31557600000"
  "MILLISECONDS_IN_A_MONTH = Fin 2629800000"
  by (simp_all add: MILLISECONDS_IN_A_SECOND_def MILLISECONDS_IN_A_MINUTE_def
      MILLISECONDS_IN_AN_HOUR_def MILLISECONDS_IN_A_DAY_def MILLISECONDS_IN_A_WEEK_def
      MILLISECONDS_IN_A_YEAR_def MILLISECONDS_IN_A_MONTH_def)

text \<open>The factors of the decomposition are the unit constants of the code.\<close>

lemma unit_factors_constants:
  "map (\<lambda>(k, f). (k, Fin f)) unit_factors =
     [(''years'', MILLISECONDS_IN_A_YEAR), (''months'', MILLISECONDS_IN_A_MONTH),
      (''weeks'', MILLISECONDS_IN_A_WEEK), (''days'', MILLISECONDS_IN_A_DAY),
      (''hours'', MILLISECONDS_IN_AN_HOUR), (''minutes'', MILLISECONDS_IN_A_MINUTE),
      (''seconds'', MILLISECONDS_IN_A_SECOND), (''milliseconds'', Fin 1)]"
  by (simp add: unit_factors_def ms_consts MILLISECONDS_IN_A_SECOND_def)

lemma js_sub_Fin: "js_sub (Fin x) (Fin y) = Fin (x - y)"
  by (simp add: js_sub_def)

lemma floorTowardsZero_Fin: "floorTowardsZero (Fin x) = Fin (integer_part x)"
proof (cases "x < 0")
  case True
  show ?thesis
  proof (cases "- 1 < x")
    case True
    with \<open>x < 0\<close> have "\<lceil>x\<rceil> = 0" by linarith
    with True \<open>x < 0\<close> show ?thesis
      by (simp add: floorTowardsZero_def integer_part_alt js_or_def)
  next
    case False
    with \<open>x < 0\<close> have "\<lceil>x\<rceil> \<noteq> 0" by linarith
    with False \<open>x < 0\<close> show ?thesis
      by (simp add: floorTowardsZero_def integer_part_alt js_or_def)
  qed
next
  case False
  then show ?thesis
    by (simp add: floorTowardsZero_def integer_part_alt)
qed

lemma js_add_zero_left: "js_add (Fin 0) a = (if a = NegZero then Fin 0 else a)"
  by (cases a) auto


subsection \<open>The loop of normalizeTime and the decomposition\<close>

lemma toMilliseconds_VNumber: "toMilliseconds p (VNumber (Fin r)) = Inr (Fin r)"
  by (simp add: toMilliseconds_def toTimeObject_def DEFAULT_TIME_def prop_default_def ms_consts
      MILLISECONDS_IN_A_SECOND_def zero_signed_def)

lemma toMilliseconds_single:
  "toMilliseconds p (VObject [''years'' \<mapsto> Fin c]) = Inr (Fin (c * 31557600000))"
  "toMilliseconds p (VObject [''months'' \<mapsto> Fin c]) = Inr (Fin (c * 2629800000))"
  "toMilliseconds p (VObject [''weeks'' \<mapsto> Fin c]) = Inr (Fin (c * 604800000))"
  "toMilliseconds p (VObject [''days'' \<mapsto> Fin c]) = Inr (Fin (c * 86400000))"
  "toMilliseconds p (VObject [''hours'' \<mapsto> Fin c]) = Inr (Fin (c * 3600000))"
  "toMilliseconds p (VObject [''minutes'' \<mapsto> Fin c]) = Inr (Fin (c * 60000))"
  "toMilliseconds p (VObject [''seconds'' \<mapsto> Fin c]) = Inr (Fin (c * 1000))"
  "toMilliseconds p (VObject [''milliseconds'' \<mapsto> Fin c]) = Inr (Fin c)"
  by (simp_all add: toMilliseconds_def toTimeObject_def DEFAULT_TIME_def prop_default_def ms_consts
      MILLISECONDS_IN_A_SECOND_def zero_signed_def map_add_def)

lemma normalize_loop_refines:
  assumes "list_all2 unit_rel us fs" and "toMilliseconds p tally = Inr (Fin r)"
  shows "normalize_loop p us tally out = Inr (assign_all (greedy_spec fs r) out)"
  using assms
proof (induction us fs arbitrary: tally r out rule: list_all2_induct)
  case Nil
  then show ?case by (simp add: assign_all_def)
next
  case (Cons u us kf fs)
  obtain key conv where u: "u = (key, conv)" by (cases u)
  obtain key' f where kf: "kf = (key', f)" by (cases kf)
  from Cons.hyps(1) u kf have key: "key' = key" and f: "0 < f"
    and conv: "conv p tally = Inr (Fin (r / f))"
    and single: "\<And>c. toMilliseconds p (VObject [key \<mapsto> Fin c]) = Inr (Fin (c * f))"
    using Cons.prems by (auto simp: unit_rel_def)
  define c where "c = integer_part (r / f)"
  have sub: "subtractTime p tally (VObject [key \<mapsto> Fin c]) = Inr (Fin (r - c * f))"
    by (simp add: subtractTime_def Cons.prems single js_sub_Fin)
  have next_ms: "toMilliseconds p (VNumber (Fin (r - c * f))) = Inr (Fin (r - c * f))"
    by (rule toMilliseconds_VNumber)
  have "normalize_loop p (u # us) tally out =
        normalize_loop p us (VNumber (Fin (r - c * f))) (out(key \<mapsto> Fin c))"
    by (simp add: u conv floorTowardsZero_Fin c_def[symmetric] sub)
  also have "\<dots> = Inr (assign_all (greedy_spec fs (r - c * f)) (out(key \<mapsto> Fin c)))"
    by (rule Cons.IH[OF next_ms])
  also have "\<dots> = Inr (assign_all (greedy_spec (kf # fs) r) out)"
    by (simp add: kf key assign_all_def c_def Let_def)
  finally show ?case .
qed

lemma toUnit_Fin:
  "toMilliseconds p t = Inr (Fin r) \<Longrightarrow> 0 < f \<Longrightarrow> toUnit (Fin f) p t = Inr (Fin (r / f))"
  by (simp add: toUnit_def zero_signed_def)

lemma units_rel: "list_all2 unit_rel units unit_factors"
  by (simp add: units_def unit_factors_def unit_rel_def toMilliseconds_single
      toYears_def toMonths_def toWeeks_def toDays_def toHours_def toMinutes_def toSeconds_def
      ms_consts MILLISECONDS_IN_A_SECOND_def toUnit_Fin)

lemma normalizeTime_finite:
  "toMilliseconds p time = Inr (Fin m) \<Longrightarrow>
   normalizeTime p time = Inr (assign_all (greedy_spec unit_factors m) DEFAULT_TIME)"
  unfolding normalizeTime_def by (rule normalize_loop_refines[OF units_rel])



lemma assign_all_shape:
  "assign_all
     [(''years'', c1), (''months'', c2), (''weeks'', c3), (''days'', c4), (''hours'', c5),
      (''minutes'', c6), (''seconds'', c7), (''milliseconds'', c8)] DEFAULT_TIME =
   [''years'' \<mapsto> Fin c1, ''months'' \<mapsto> Fin c2, ''weeks'' \<mapsto> Fin c3, ''days'' \<mapsto> Fin c4,
    ''hours'' \<mapsto> Fin c5, ''minutes'' \<mapsto> Fin c6, ''seconds'' \<mapsto> Fin c7,
    ''milliseconds'' \<mapsto> Fin c8]"
  by (rule ext) (simp add: assign_all_def DEFAULT_TIME_def)



subsection \<open>Signs and reconstruction of the decomposition\<close>

lemma integer_part_nonpos: "x \<le> 0 \<Longrightarrow> integer_part x \<le> 0"
  by (simp add: integer_part_alt)

lemma integer_part_ge: "x \<le> 0 \<Longrightarrow> x \<le> integer_part x"
  by (simp add: integer_part_alt)

lemma integer_part_of_int: "integer_part (of_int n) = of_int n"
  by (simp add: integer_part_alt)

lemma integer_part_Ints: "integer_part x \<in> \<int>"
  by (simp add: integer_part_alt)

lemma remainder_nonpos:
  assumes "r \<le> 0" and "0 < f"
  shows "r - integer_part (r / f) * f \<le> 0"
proof -
  from assms have "r / f \<le> 0" by (simp add: divide_le_0_iff)
  then have "r / f \<le> integer_part (r / f)" by (rule integer_part_ge)
  with \<open>0 < f\<close> have "r \<le> integer_part (r / f) * f" by (simp add: pos_divide_le_eq)
  then show ?thesis by simp
qed

lemma greedy_spec_nonpos:
  "r \<le> 0 \<Longrightarrow> list_all (\<lambda>kf. 0 < snd kf) fs \<Longrightarrow> list_all (\<lambda>kc. snd kc \<le> 0) (greedy_spec fs r)"
proof (induction fs r rule: greedy_spec.induct)
  case (1 r)
  then show ?case by simp
next
  case (2 key factor us r)
  from "2.prems" have f: "0 < factor" and rest: "list_all (\<lambda>kf. 0 < snd kf) us" by simp_all
  from "2.prems"(1) f have "r / factor \<le> 0" by (simp add: divide_le_0_iff)
  then have c: "integer_part (r / factor) \<le> 0" by (rule integer_part_nonpos)
  have "r - integer_part (r / factor) * factor \<le> 0"
    using "2.prems"(1) f by (rule remainder_nonpos)
  then have "list_all (\<lambda>kc. snd kc \<le> 0) (greedy_spec us (r - integer_part (r / factor) * factor))"
    using rest "2.IH" by simp
  with c show ?case by (simp add: Let_def)
qed

lemma unit_factors_pos: "list_all (\<lambda>kf. 0 < snd kf) unit_factors"
  by (simp add: unit_factors_def)

lemma components_object_nonpos:
  assumes "list_all (\<lambda>kc. snd kc \<le> 0) cs" and "components_object cs key = Some v"
  shows "\<exists>x. v = Fin x \<and> x \<le> 0"
proof -
  from assms(2) have "(key, v) \<in> set (map (\<lambda>(k, c). (k, Fin c)) cs)"
    unfolding components_object_def by (rule map_of_SomeD)
  then obtain c where "(key, c) \<in> set cs" and "v = Fin c" by auto
  with assms(1) show ?thesis by (auto simp: list_all_iff)
qed

lemma greedy_spec_sum:
  "sum_list (map (\<lambda>(kc, kf). snd kc * snd kf) (zip (greedy_spec fs r) fs)) = r - remainder_spec fs r"
  by (induction fs r rule: greedy_spec.induct) (simp_all add: Let_def)

lemma remainder_spec_append:
  "remainder_spec (us @ vs) r = remainder_spec vs (remainder_spec us r)"
  by (induction us r rule: remainder_spec.induct) (simp_all add: Let_def)

lemma remainder_spec_Ints:
  "r \<in> \<int> \<Longrightarrow> list_all (\<lambda>kf. snd kf \<in> \<int>) fs \<Longrightarrow> remainder_spec fs r \<in> \<int>"
  by (induction fs r rule: remainder_spec.induct) (simp_all add: Let_def integer_part_Ints)

lemma remainder_unit_factors: "remainder_spec unit_factors (of_int m) = 0"
proof -
  define us :: "(string \<times> real) list" where "us =
     [(''years'', 31557600000), (''months'', 2629800000), (''weeks'', 604800000),
      (''days'', 86400000), (''hours'', 3600000), (''minutes'', 60000), (''seconds'', 1000)]"
  have split: "unit_factors = us @ [(''milliseconds'', 1)]"
    by (simp add: unit_factors_def us_def)
  have "remainder_spec us (of_int m) \<in> \<int>"
    by (rule remainder_spec_Ints) (simp_all add: us_def)
  then obtain n where n: "remainder_spec us (of_int m) = of_int n"
    by (auto elim: Ints_cases)
  show ?thesis
    by (simp add: split remainder_spec_append n integer_part_of_int)
qed

lemma toMilliseconds_components:
  "toMilliseconds p (VObject
     [''years'' \<mapsto> Fin c1, ''months'' \<mapsto> Fin c2, ''weeks'' \<mapsto> Fin c3, ''days'' \<mapsto> Fin c4,
      ''hours'' \<mapsto> Fin c5, ''minutes'' \<mapsto> Fin c6, ''seconds'' \<mapsto> Fin c7,
      ''milliseconds'' \<mapsto> Fin c8]) =
   Inr (Fin (c1 * 31557600000 + c2 * 2629800000 + c3 * 604800000 + c4 * 86400000 +
             c5 * 3600000 + c6 * 60000 + c7 * 1000 + c8))"
  by (simp add: toMilliseconds_def toTimeObject_def DEFAULT_TIME_def prop_default_def ms_consts
      MILLISECONDS_IN_A_SECOND_def zero_signed_def map_add_def)

subsection \<open>The class Time on finite numbers\<close>

lemma Time_subtract_single:
  "Time_subtract \<lparr>milliseconds = Fin r\<rparr> [''days'' \<mapsto> Fin c] = \<lparr>milliseconds = Fin (r - c * 86400000)\<rparr>"
  "Time_subtract \<lparr>milliseconds = Fin r\<rparr> [''hours'' \<mapsto> Fin c] = \<lparr>milliseconds = Fin (r - c * 3600000)\<rparr>"
  "Time_subtract \<lparr>milliseconds = Fin r\<rparr> [''minutes'' \<mapsto> Fin c] = \<lparr>milliseconds = Fin (r - c * 60000)\<rparr>"
  "Time_subtract \<lparr>milliseconds = Fin r\<rparr> [''seconds'' \<mapsto> Fin c] = \<lparr>milliseconds = Fin (r - c * 1000)\<rparr>"
  by (simp_all add: Time_subtract_def Time_constructor_def convertToMilliseconds_def
      prop_default_def ms_consts MILLISECONDS_IN_A_SECOND_def zero_signed_def js_sub_def)

lemma Time_toUnits_Fin:
  "Time_toDays \<lparr>milliseconds = Fin r\<rparr> = Fin (r / 86400000)"
  "Time_toHours \<lparr>milliseconds = Fin r\<rparr> = Fin (r / 3600000)"
  "Time_toMinutes \<lparr>milliseconds = Fin r\<rparr> = Fin (r / 60000)"
  "Time_toSeconds \<lparr>milliseconds = Fin r\<rparr> = Fin (r / 1000)"
  by (simp_all add: Time_toDays_def Time_toHours_def Time_toMinutes_def Time_toSeconds_def
      ms_consts MILLISECONDS_IN_A_SECOND_def zero_signed_def)

lemma Time_toComponents_Fin:
  "Time_toComponents \<lparr>milliseconds = Fin m\<rparr> =
     (let d = integer_part (m / 86400000); r1 = m - d * 86400000;
          h = integer_part (r1 / 3600000); r2 = r1 - h * 3600000;
          mi = integer_part (r2 / 60000); r3 = r2 - mi * 60000;
          s = integer_part (r3 / 1000); r4 = r3 - s * 1000
      in [''days'' \<mapsto> Fin d, ''hours'' \<mapsto> Fin h, ''minutes'' \<mapsto> Fin mi, ''seconds'' \<mapsto> Fin s,
          ''milliseconds'' \<mapsto> Fin r4])"
  by (simp add: Time_toComponents_def Time_toUnits_Fin floorTowardsZero_Fin
      Time_subtract_single Let_def)

lemma Time_toComponents_example:
  "Time_toComponents (Time_constructor [''days'' \<mapsto> Fin (- 1), ''milliseconds'' \<mapsto> Fin 1]) =
   [''days'' \<mapsto> Fin 0, ''hours'' \<mapsto> Fin (- 23), ''minutes'' \<mapsto> Fin (- 59),
    ''seconds'' \<mapsto> Fin (- 59), ''milliseconds'' \<mapsto> Fin (- 999)]"
proof -
  have "Time_constructor [''days'' \<mapsto> Fin (- 1), ''milliseconds'' \<mapsto> Fin 1] =
        \<lparr>milliseconds = Fin (- 86399999)\<rparr>"
    by (simp add: Time_constructor_def convertToMilliseconds_def prop_default_def ms_consts
      MILLISECONDS_IN_A_SECOND_def zero_signed_def)
  then show ?thesis
    by (simp add: Time_toComponents_Fin integer_part_alt)
qed

lemma normalizeTime_example:
  "normalizeTime p (VObject [''days'' \<mapsto> Fin (- 1), ''milliseconds'' \<mapsto> Fin 1]) =
   Inr [''years'' \<mapsto> Fin 0, ''months'' \<mapsto> Fin 0, ''weeks'' \<mapsto> Fin 0, ''days'' \<mapsto> Fin 0,
        ''hours'' \<mapsto> Fin (- 23), ''minutes'' \<mapsto> Fin (- 59), ''seconds'' \<mapsto> Fin (- 59),
        ''milliseconds'' \<mapsto> Fin (- 999)]"
proof -
  have ms: "toMilliseconds p (VObject [''days'' \<mapsto> Fin (- 1), ''milliseconds'' \<mapsto> Fin 1]) =
        Inr (Fin (- 86399999))"
    by (simp add: toMilliseconds_def toTimeObject_def DEFAULT_TIME_def prop_default_def ms_consts
      MILLISECONDS_IN_A_SECOND_def zero_signed_def map_add_def)
  have g: "greedy_spec unit_factors (- 86399999) =
     [(''years'', 0), (''months'', 0), (''weeks'', 0), (''days'', 0), (''hours'', - 23),
      (''minutes'', - 59), (''seconds'', - 59), (''milliseconds'', - 999)]"
    by (simp add: unit_factors_def integer_part_alt)
  show ?thesis
    by (simp only: normalizeTime_finite[OF ms] g assign_all_shape)
qed

subsection \<open>The loops of sum\<close>

lemma add_fields_obj:
  "add_fields (\<lambda>key. if key \<in> set UNIT_KEYS then Some (a key) else None) d =
   (\<lambda>key. if key \<in> set UNIT_KEYS then Some (js_add (a key) (prop_get d key)) else None)"
  by (rule ext) (simp add: add_fields_def UNIT_KEYS_def prop_get_def)

lemma foldl_add_fields:
  "foldl add_fields (\<lambda>key. if key \<in> set UNIT_KEYS then Some (a key) else None) parsed =
   (\<lambda>key. if key \<in> set UNIT_KEYS
          then Some (foldl js_add (a key) (map (\<lambda>d. prop_get d key) parsed)) else None)"
  by (induction parsed arbitrary: a) (simp_all add: add_fields_obj fun_eq_iff)

lemma ZERO_obj: "ZERO = (\<lambda>key. if key \<in> set UNIT_KEYS then Some (Fin 0) else None)"
  by (rule ext) (simp add: ZERO_def UNIT_KEYS_def)

lemma map_parse_all:
  "list_all2 (\<lambda>d x. parse p d = Inr x) ds parsed \<Longrightarrow> map_parse p ds = Inr parsed"
  by (induction ds parsed rule: list_all2_induct) simp_all

lemma sum_durations_parsed:
  assumes "map_parse p durations = Inr parsed"
  shows "sum_durations p durations =
     Inr (\<lambda>key. if key \<in> set UNIT_KEYS
                then Some (foldl js_add (Fin 0) (map (\<lambda>d. prop_get d key) parsed)) else None)"
  using assms by (simp add: sum_durations_def ZERO_obj foldl_add_fields)

lemma sum_example:
  "sum_durations Map.empty [VObject [''minutes'' \<mapsto> Fin 90]] =
     Inr [''years'' \<mapsto> Fin 0, ''months'' \<mapsto> Fin 0, ''weeks'' \<mapsto> Fin 0, ''days'' \<mapsto> Fin 0,
          ''hours'' \<mapsto> Fin 0, ''minutes'' \<mapsto> Fin 90, ''seconds'' \<mapsto> Fin 0,
          ''milliseconds'' \<mapsto> Fin 0]"
proof -
  have "map_parse Map.empty [VObject [''minutes'' \<mapsto> Fin 90]] =
          Inr [ZERO ++ [''minutes'' \<mapsto> Fin 90]]"
    by (simp add: parse_def)
  then have "sum_durations Map.empty [VObject [''minutes'' \<mapsto> Fin 90]] =
     Inr (\<lambda>key. if key \<in> set UNIT_KEYS
                then Some (foldl js_add (Fin 0) (map (\<lambda>d. prop_get d key) [ZERO ++ [''minutes'' \<mapsto> Fin 90]])) else None)"
    by (rule sum_durations_parsed)
  also have "\<dots> = Inr [''years'' \<mapsto> Fin 0, ''months'' \<mapsto> Fin 0, ''weeks'' \<mapsto> Fin 0, ''days'' \<mapsto> Fin 0,
          ''hours'' \<mapsto> Fin 0, ''minutes'' \<mapsto> Fin 90, ''seconds'' \<mapsto> Fin 0,
          ''milliseconds'' \<mapsto> Fin 0]"
    by (simp add: fun_eq_iff UNIT_KEYS_def ZERO_def prop_get_def map_add_def)
  finally show ?thesis .
qed

lemma normalize_5400000:
  "normalizeTime p (VNumber (Fin 5400000)) =
   Inr [''years'' \<mapsto> Fin 0, ''months'' \<mapsto> Fin 0, ''weeks'' \<mapsto> Fin 0, ''days'' \<mapsto> Fin 0,
        ''hours'' \<mapsto> Fin 1, ''minutes'' \<mapsto> Fin 30, ''seconds'' \<mapsto> Fin 0,
        ''milliseconds'' \<mapsto> Fin 0]"
proof -
  have g: "greedy_spec unit_factors 5400000 =
     [(''years'', 0), (''months'', 0), (''weeks'', 0), (''days'', 0), (''hours'', 1),
      (''minutes'', 30), (''seconds'', 0), (''milliseconds'', 0)]"
    by (simp add: unit_factors_def integer_part_alt)
  show ?thesis
    by (simp only: normalizeTime_finite[OF toMilliseconds_VNumber] g assign_all_shape)
qed

subsection \<open>The fields that convertToMilliseconds reads\<close>

lemma convertToMilliseconds_ignores:
  "convertToMilliseconds (obj(''years'' := y, ''months'' := mo, ''weeks'' := w)) =
   convertToMilliseconds obj"
  by (simp add: convertToMilliseconds_def prop_default_def)

lemma convertToMilliseconds_only_ignored:
  assumes "dom obj \<subseteq> {''years'', ''months'', ''weeks''}"
  shows "convertToMilliseconds obj = Fin 0"
proof -
  have "obj key = None" if "key \<notin> {''years'', ''months'', ''weeks''}" for key
    using assms that by (auto simp: dom_def)
  then have "obj ''days'' = None" "obj ''hours'' = None" "obj ''minutes'' = None"
    "obj ''seconds'' = None" "obj ''milliseconds'' = None"
    by simp_all
  then show ?thesis
    by (simp add: convertToMilliseconds_def prop_default_def ms_consts
        MILLISECONDS_IN_A_SECOND_def zero_signed_def)
qed

lemma Time_constructor_ms_any:
  "Time_constructor [''milliseconds'' \<mapsto> x] = \<lparr>milliseconds = (if x = NegZero then Fin 0 else x)\<rparr>"
  by (cases x) (simp_all add: Time_constructor_def convertToMilliseconds_def prop_default_def ms_consts
      MILLISECONDS_IN_A_SECOND_def zero_signed_def)

lemma floorTowardsZero_examples:
  "floorTowardsZero (Fin (- 0.5)) = Fin 0"
  "floorTowardsZero (Fin 1.5) = Fin 1"
  "floorTowardsZero (Fin (- 1.5)) = Fin (- 1)"
  by (simp_all add: floorTowardsZero_Fin integer_part_def)

subsection \<open>Rounding to binary64\<close>

lemma round_even_of_int: "round_even (of_int n) = n"
  by (simp add: round_even_def)

lemma round_even_ge: "of_int N \<le> r \<Longrightarrow> N \<le> round_even r"
  unfolding round_even_def Let_def by (auto simp: le_floor_iff) linarith+

lemma round_even_le: "r \<le> of_int N \<Longrightarrow> round_even r \<le> N"
  unfolding round_even_def Let_def
  apply (auto)
  apply linarith+
  done

lemma round_even_less: "r < of_int N - 1 / 2 \<Longrightarrow> round_even r < N"
  unfolding round_even_def Let_def
  apply (auto)
  apply linarith+
  done

lemma round_even_greater: "of_int N + 1 / 2 < r \<Longrightarrow> N < round_even r"
  unfolding round_even_def Let_def
  apply (auto)
  apply linarith+
  done

lemma floor_log2_unique:
  assumes "2 powr (of_int e) \<le> x" "x < 2 powr (of_int e + 1)"
  shows "\<lfloor>log 2 x\<rfloor> = e"
proof -
  have "(0::real) < 2 powr (of_int e)" by simp
  with assms(1) have pos: "0 < x" by linarith
  have lo: "of_int e \<le> log 2 x"
    using assms pos by (simp add: le_log_iff)
  have hi: "log 2 x < of_int e + 1"
    using assms pos by (simp add: log_less_iff)
  from lo hi show ?thesis by (rule floor_unique)
qed

lemma round64_normal:
  assumes lo: "2 powr (of_int e) \<le> \<bar>x\<bar>" and hi: "\<bar>x\<bar> < 2 powr (of_int e + 1)"
    and e1: "- 1022 \<le> e" and e2: "e \<le> 1022"
  shows "round64 x =
    Fin (2 powr (of_int e - 52) * of_int (round_even (x / 2 powr (of_int e - 52))))"
proof -
  define q :: real where "q = 2 powr (of_int e - 52)"
  define N where "N = round_even (x / q)"
  have qpos: "0 < q" by (simp add: q_def)
  have ex: "exponent64 x = e"
    using floor_log2_unique[OF lo hi] e1 by (simp add: exponent64_def)
  have "(0::real) < 2 powr (of_int e)" by simp
  with lo have x0: "x \<noteq> 0" by auto
  have q52: "q * 2 ^ 52 = 2 powr (of_int e)"
    by (simp add: q_def powr_diff)
  have q53: "q * 2 ^ 53 = 2 powr (of_int e + 1)"
    by (simp add: q_def powr_diff powr_add)
  have slo: "2 ^ 52 \<le> \<bar>x\<bar> / q"
    using lo qpos q52 by (simp add: pos_le_divide_eq mult.commute)
  have shi: "\<bar>x\<bar> / q < 2 ^ 53"
    using hi qpos q53 by (simp add: pos_divide_less_eq mult.commute)
  have Nb: "2 ^ 52 \<le> \<bar>N\<bar> \<and> \<bar>N\<bar> \<le> 2 ^ 53"
  proof (cases "0 < x")
    case True
    then have a: "\<bar>x\<bar> / q = x / q" by simp
    have "of_int (2 ^ 52) \<le> x / q" using slo a by simp
    then have l: "2 ^ 52 \<le> N" unfolding N_def by (rule round_even_ge)
    have "x / q \<le> of_int (2 ^ 53)" using shi a by simp
    then have "N \<le> 2 ^ 53" unfolding N_def by (rule round_even_le)
    with l show ?thesis by simp
  next
    case False
    with x0 have "x < 0" by simp
    then have a: "\<bar>x\<bar> / q = - (x / q)" by simp
    have "x / q \<le> of_int (- (2 ^ 52))" using slo a by simp
    then have l: "N \<le> - (2 ^ 52)" unfolding N_def by (rule round_even_le)
    have "of_int (- (2 ^ 53)) \<le> x / q" using shi a by simp
    then have "- (2 ^ 53) \<le> N" unfolding N_def by (rule round_even_ge)
    with l show ?thesis by simp
  qed
  have r0: "q * of_int N \<noteq> 0" using Nb qpos by auto
  have "\<bar>q * of_int N\<bar> = q * of_int \<bar>N\<bar>" using qpos by (simp add: abs_mult)
  also have "\<dots> \<le> q * 2 ^ 53"
  proof -
    have "(of_int \<bar>N\<bar> :: real) \<le> of_int (2 ^ 53)" using Nb by (simp only: of_int_le_iff)
    then show ?thesis using qpos by simp
  qed
  also have "\<dots> = 2 powr (of_int e + 1)" by (rule q53)
  also have "\<dots> \<le> 2 powr (real 1023)" using e2 by (intro powr_mono) auto
  also have "\<dots> = 2 ^ 1023" by (rule powr_realpow) simp
  also have "\<dots> < (2::real) ^ 1024" by (rule power_strict_increasing) simp_all
  finally have small: "\<not> 2 ^ 1024 \<le> \<bar>q * of_int N\<bar>" by (simp only: not_le)
  show ?thesis
    using x0 r0 small by (simp add: round64_def ex Let_def q_def[symmetric] N_def[symmetric])
qed

lemma round64_exact:
  assumes "x = of_int a / 2 ^ J" and "\<bar>a\<bar> < 2 ^ 53" and "J \<le> 1074"
  shows "round64 x = Fin x"
proof (cases "x = 0")
  case True
  then show ?thesis by (simp add: round64_def)
next
  case False
  define e where "e = exponent64 x"
  define q :: real where "q = 2 powr (of_int e - 52)"
  have qpos: "0 < q" by (simp add: q_def)
  have a0: "a \<noteq> 0" using False assms(1) by auto
  have xabs: "\<bar>x\<bar> < 2 powr (53 - real J)"
  proof -
    have "\<bar>x\<bar> = of_int \<bar>a\<bar> / 2 ^ J" by (simp add: assms(1))
    also have "\<dots> < 2 ^ 53 / 2 ^ J"
    proof -
      have "(of_int \<bar>a\<bar> :: real) < of_int (2 ^ 53)" using assms(2) by (simp only: of_int_less_iff)
      then show ?thesis by (simp add: divide_strict_right_mono)
    qed
    also have "\<dots> = 2 powr (53 - real J)" by (simp add: powr_diff powr_realpow)
    finally show ?thesis .
  qed
  have "log 2 \<bar>x\<bar> < 53 - real J"
    using xabs False by (simp add: log_less_iff)
  then have "\<lfloor>log 2 \<bar>x\<bar>\<rfloor> \<le> 52 - int J" by linarith
  then have ele: "e \<le> 52 - int J" using assms(3) by (simp add: e_def exponent64_def)
  define t where "t = nat (52 - int J - e)"
  have qt: "1 / q = 2 ^ J * 2 ^ t"
  proof -
    have ex: "52 - real_of_int e = real (J + t)" using ele by (simp add: t_def)
    have "1 / q = 2 powr (52 - of_int e)" by (simp add: q_def powr_diff)
    also have "\<dots> = 2 powr real (J + t)" by (simp only: ex)
    also have "\<dots> = 2 ^ (J + t)" by (rule powr_realpow) simp
    finally show ?thesis by (simp only: power_add)
  qed
  have "x / q = x * (1 / q)" by simp
  also have "\<dots> = of_int (a * 2 ^ t)" by (simp add: qt assms(1))
  finally have sc: "x / q = of_int (a * 2 ^ t)" .
  have re: "round_even (x / q) = a * 2 ^ t" by (simp only: sc round_even_of_int)
  have "q * of_int (round_even (x / q)) = q * (x / q)" by (simp only: sc round_even_of_int)
  also have "\<dots> = x" using qpos by simp
  finally have r: "q * of_int (round_even (x / q)) = x" .
  have "2 powr (53 - real J) \<le> 2 powr (real 1024)" by (intro powr_mono) auto
  also have "\<dots> = (2::real) ^ 1024" by (rule powr_realpow) simp
  finally have "\<bar>x\<bar> < 2 ^ 1024" using xabs by simp
  then have small: "\<not> 2 ^ 1024 \<le> \<bar>x\<bar>" by (simp only: not_le)
  show ?thesis
    using False small r by (simp add: round64_def Let_def e_def[symmetric] q_def[symmetric])
qed

lemma round64_down:
  assumes lo: "2 ^ 52 \<le> \<bar>x\<bar> * 2 ^ J" and hi: "\<bar>x\<bar> * 2 ^ J < 2 ^ 53" and J: "J \<le> 1074"
  shows "round64 x = Fin (of_int (round_even (x * 2 ^ J)) / 2 ^ J)"
proof -
  define e where "e = 52 - int J"
  have q: "(2::real) powr (of_int e - 52) = 1 / 2 ^ J"
  proof -
    have "of_int e - 52 = - real J" by (simp add: e_def)
    then have "(2::real) powr (of_int e - 52) = 2 powr (- real J)" by simp
    also have "\<dots> = 1 / 2 powr (real J)" by (simp add: powr_minus_divide)
    also have "2 powr (real J) = (2::real) ^ J" by (rule powr_realpow) simp
    finally show ?thesis .
  qed
  have pe: "(2::real) powr (of_int e) = 2 ^ 52 / 2 ^ J"
  proof -
    have "(2::real) powr (of_int e) = 2 powr (of_int e - 52) * 2 powr 52" by (simp add: powr_diff)
    then show ?thesis by (simp add: q)
  qed
  have pe1: "(2::real) powr (of_int e + 1) = 2 ^ 53 / 2 ^ J"
    by (simp add: powr_add pe)
  have l: "2 powr (of_int e) \<le> \<bar>x\<bar>"
    using lo by (simp add: pe pos_divide_le_eq)
  have h: "\<bar>x\<bar> < 2 powr (of_int e + 1)"
    using hi by (simp add: pe1 pos_less_divide_eq)
  have "round64 x =
    Fin (2 powr (of_int e - 52) * of_int (round_even (x / 2 powr (of_int e - 52))))"
    using l h by (rule round64_normal) (use J in \<open>simp_all add: e_def\<close>)
  then show ?thesis by (simp add: q)
qed

lemma round64_up:
  assumes lo: "2 ^ 52 \<le> \<bar>x\<bar> / 2 ^ K" and hi: "\<bar>x\<bar> / 2 ^ K < 2 ^ 53" and K: "K \<le> 970"
  shows "round64 x = Fin (2 ^ K * of_int (round_even (x / 2 ^ K)))"
proof -
  define e where "e = 52 + int K"
  have q: "(2::real) powr (of_int e - 52) = 2 ^ K"
  proof -
    have "of_int e - 52 = real K" by (simp add: e_def)
    then have "(2::real) powr (of_int e - 52) = 2 powr (real K)" by simp
    also have "2 powr (real K) = (2::real) ^ K" by (rule powr_realpow) simp
    finally show ?thesis .
  qed
  have pe: "(2::real) powr (of_int e) = 2 ^ 52 * 2 ^ K"
  proof -
    have "(2::real) powr (of_int e) = 2 powr (of_int e - 52) * 2 powr 52" by (simp add: powr_diff)
    then show ?thesis by (simp add: q)
  qed
  have pe1: "(2::real) powr (of_int e + 1) = 2 ^ 53 * 2 ^ K"
    by (simp add: powr_add pe)
  have l: "2 powr (of_int e) \<le> \<bar>x\<bar>"
    using lo by (simp add: pe pos_le_divide_eq)
  have h: "\<bar>x\<bar> < 2 powr (of_int e + 1)"
    using hi by (simp add: pe1 pos_divide_less_eq)
  have "round64 x =
    Fin (2 powr (of_int e - 52) * of_int (round_even (x / 2 powr (of_int e - 52))))"
    using l h by (rule round64_normal) (use K in \<open>simp_all add: e_def\<close>)
  then show ?thesis by (simp add: q)
qed

lemma scale_exists:
  assumes x0: "(x::real) \<noteq> 0" and lo: "2 powr (- 1022) \<le> \<bar>x\<bar>" and hi: "\<bar>x\<bar> < 2 ^ 53"
  shows "\<exists>J\<le>1074. 2 ^ 52 \<le> \<bar>x\<bar> * 2 ^ J \<and> \<bar>x\<bar> * 2 ^ J < 2 ^ 53"
proof -
  define e where "e = \<lfloor>log 2 \<bar>x\<bar>\<rfloor>"
  have xpos: "0 < \<bar>x\<bar>" using x0 by simp
  have "of_int e \<le> log 2 \<bar>x\<bar>" by (simp add: e_def)
  then have l: "2 powr (of_int e) \<le> \<bar>x\<bar>" using xpos by (simp add: le_log_iff)
  have "log 2 \<bar>x\<bar> < of_int e + 1" by (simp add: e_def)
  then have h: "\<bar>x\<bar> < 2 powr (of_int e + 1)" using xpos by (simp add: log_less_iff)
  have "- 1022 \<le> log 2 \<bar>x\<bar>" using lo xpos by (simp add: le_log_iff)
  then have e1: "- 1022 \<le> e" unfolding e_def by linarith
  have "\<bar>x\<bar> < 2 powr 53" using hi by simp
  then have "log 2 \<bar>x\<bar> < 53" using xpos by (simp add: log_less_iff)
  then have e2: "e \<le> 52" unfolding e_def by linarith
  define J where "J = nat (52 - e)"
  have Je: "of_int e = 52 - real J" using e2 by (simp add: J_def)
  have pJ: "2 powr (real J) = (2::real) ^ J" by (rule powr_realpow) simp
  have pe: "(2::real) powr (of_int e) = 2 ^ 52 / 2 ^ J"
    by (simp add: Je powr_diff pJ)
  have pe1: "(2::real) powr (of_int e + 1) = 2 ^ 53 / 2 ^ J"
    by (simp add: powr_add pe)
  have "J \<le> 1074" using e1 by (simp add: J_def)
  moreover have "2 ^ 52 \<le> \<bar>x\<bar> * 2 ^ J" using l by (simp add: pe pos_divide_le_eq)
  moreover have "\<bar>x\<bar> * 2 ^ J < 2 ^ 53" using h by (simp add: pe1 pos_less_divide_eq)
  ultimately show ?thesis by blast
qed

lemma round64_quotient_pos:
  fixes a b :: int
  assumes a: "0 < a" "a < 2 ^ 53" and b: "1 \<le> b"
    and normal: "2 powr (- 1022) \<le> (of_int a / of_int b :: real)"
  shows "\<exists>y. round64 (of_int a / of_int b) = Fin y \<and> 0 \<le> y \<and>
             \<lfloor>y\<rfloor> = \<lfloor>(of_int a / of_int b :: real)\<rfloor>"
proof -
  define x :: real where "x = of_int a / of_int b"
  define k where "k = \<lfloor>x\<rfloor>"
  have bpos: "(0::real) < of_int b" using b by simp
  have xpos: "0 < x" using a b by (simp add: x_def)
  have xa: "x \<le> of_int a" 
  proof -
    have "of_int a / of_int b \<le> (of_int a / 1 :: real)"
      using a b by (intro divide_left_mono) simp_all
    then show ?thesis by (simp add: x_def)
  qed
  have "(of_int a :: real) < of_int (2 ^ 53)" using a(2) by (simp only: of_int_less_iff)
  then have xhi: "\<bar>x\<bar> < 2 ^ 53" using xa xpos by simp
  have "2 powr (- 1022) \<le> x" using normal by (simp only: x_def)
  then have xlo: "2 powr (- 1022) \<le> \<bar>x\<bar>" using xpos by linarith
  obtain J where J: "J \<le> 1074" and slo: "2 ^ 52 \<le> \<bar>x\<bar> * 2 ^ J" and shi: "\<bar>x\<bar> * 2 ^ J < 2 ^ 53"
    using scale_exists[OF _ xlo xhi] xpos by auto
  define P :: real where "P = 2 ^ J"
  have Ppos: "0 < P" by (simp add: P_def)
  define N where "N = round_even (x * P)"
  define y :: real where "y = of_int N / P"
  have r: "round64 x = Fin y"
    using round64_down[OF slo shi J] by (simp add: y_def N_def P_def)
  have k0: "0 \<le> k" using xpos by (simp add: k_def)
  have kx: "of_int k \<le> x" by (simp add: k_def)
  have xk: "x < of_int k + 1" by (simp add: k_def)
  have "of_int (k * 2 ^ J) \<le> x * P" using kx Ppos by (simp add: P_def)
  then have "k * 2 ^ J \<le> N" unfolding N_def by (rule round_even_ge)
  then have "(of_int (k * 2 ^ J) :: real) \<le> of_int N" by (simp only: of_int_le_iff)
  then have yk: "of_int k \<le> y" using Ppos by (simp add: y_def P_def pos_le_divide_eq)
  have gap: "1 / of_int b \<le> of_int k + 1 - x"
  proof -
    have "of_int a < (of_int k + 1) * (of_int b :: real)"
      using xk bpos by (simp add: x_def pos_divide_less_eq)
    then have "(of_int a :: real) < of_int ((k + 1) * b)" by simp
    then have "a < (k + 1) * b" by (simp only: of_int_less_iff)
    then have "a + 1 \<le> (k + 1) * b" by simp
    then have "(of_int (a + 1) :: real) \<le> of_int ((k + 1) * b)" by (simp only: of_int_le_iff)
    then have "of_int a + 1 \<le> (of_int k + 1) * (of_int b :: real)" by simp
    then show ?thesis using bpos by (simp add: x_def field_simps)
  qed
  have bP: "of_int b < 2 * P"
  proof -
    have "2 ^ 52 \<le> x * P" using slo xpos by (simp add: P_def)
    also have "x * P \<le> of_int a * P / of_int b" by (simp add: x_def)
    also have "\<dots> < 2 ^ 53 * P / of_int b"
      using \<open>(of_int a :: real) < of_int (2 ^ 53)\<close> Ppos bpos
      by (simp add: divide_strict_right_mono)
    finally have "2 ^ 52 * of_int b < 2 ^ 53 * P" using bpos by (simp add: pos_less_divide_eq)
    then show ?thesis by simp
  qed
  have "1 / 2 < P / of_int b" using bP bpos by (simp add: pos_less_divide_eq)
  also have "P / of_int b = (1 / of_int b) * P" by simp
  also have "\<dots> \<le> (of_int k + 1 - x) * P" using gap Ppos by (intro mult_right_mono) simp_all
  finally have "x * P < of_int ((k + 1) * 2 ^ J) - 1 / 2"
    by (simp add: P_def algebra_simps)
  then have "N < (k + 1) * 2 ^ J" unfolding N_def by (rule round_even_less)
  then have "(of_int N :: real) < of_int ((k + 1) * 2 ^ J)" by (simp only: of_int_less_iff)
  then have yk1: "y < of_int k + 1" using Ppos by (simp add: y_def P_def pos_divide_less_eq)
  have fl: "\<lfloor>y\<rfloor> = k" using yk yk1 by (rule floor_unique)
  have y0: "0 \<le> y" using yk k0 by simp
  from r y0 fl show ?thesis unfolding x_def[symmetric] k_def[symmetric] by blast
qed

lemma round64_quotient_neg:
  fixes a b :: int
  assumes a: "a < 0" "- (2 ^ 53) < a" and b: "1 \<le> b"
    and normal: "2 powr (- 1022) \<le> - (of_int a / of_int b :: real)"
  shows "\<exists>y. round64 (of_int a / of_int b) = Fin y \<and> y \<le> 0 \<and>
             \<lceil>y\<rceil> = \<lceil>(of_int a / of_int b :: real)\<rceil>"
proof -
  define x :: real where "x = of_int a / of_int b"
  define k where "k = \<lceil>x\<rceil>"
  have bpos: "(0::real) < of_int b" using b by simp
  have xneg: "x < 0" using a b by (simp add: x_def divide_neg_pos)
  have xa: "of_int a \<le> x" 
  proof -
    have "- (of_int a) / of_int b \<le> (- of_int a / 1 :: real)"
      using a b by (intro divide_left_mono) simp_all
    then show ?thesis by (simp add: x_def)
  qed
  have "(of_int (- (2 ^ 53)) :: real) < of_int a" using a(2) by (simp only: of_int_less_iff)
  then have xhi: "\<bar>x\<bar> < 2 ^ 53" using xa xneg by simp
  have "2 powr (- 1022) \<le> - x" using normal by (simp only: x_def)
  then have xlo: "2 powr (- 1022) \<le> \<bar>x\<bar>" using xneg by linarith
  obtain J where J: "J \<le> 1074" and slo: "2 ^ 52 \<le> \<bar>x\<bar> * 2 ^ J" and shi: "\<bar>x\<bar> * 2 ^ J < 2 ^ 53"
    using scale_exists[OF _ xlo xhi] xneg by auto
  define P :: real where "P = 2 ^ J"
  have Ppos: "0 < P" by (simp add: P_def)
  define N where "N = round_even (x * P)"
  define y :: real where "y = of_int N / P"
  have r: "round64 x = Fin y"
    using round64_down[OF slo shi J] by (simp add: y_def N_def P_def)
  have k0: "k \<le> 0" using xneg by (simp add: k_def ceiling_le_iff)
  have xk: "x \<le> of_int k" by (simp add: k_def)
  have kx: "of_int k - 1 < x" unfolding k_def by linarith
  have "x * P \<le> of_int (k * 2 ^ J)" using xk Ppos by (simp add: P_def)
  then have "N \<le> k * 2 ^ J" unfolding N_def by (rule round_even_le)
  then have "(of_int N :: real) \<le> of_int (k * 2 ^ J)" by (simp only: of_int_le_iff)
  then have yk: "y \<le> of_int k" using Ppos by (simp add: y_def P_def pos_divide_le_eq)
  have gap: "1 / of_int b \<le> x - (of_int k - 1)"
  proof -
    have "(of_int k - 1) * (of_int b :: real) < of_int a"
      using kx bpos by (simp add: x_def pos_less_divide_eq)
    then have "(of_int ((k - 1) * b) :: real) < of_int a" by simp
    then have "(k - 1) * b < a" by (simp only: of_int_less_iff)
    then have "(k - 1) * b \<le> a - 1" by simp
    then have "(of_int ((k - 1) * b) :: real) \<le> of_int (a - 1)" by (simp only: of_int_le_iff)
    then have "(of_int k - 1) * (of_int b :: real) \<le> of_int a - 1" by simp
    then show ?thesis using bpos by (simp add: x_def field_simps)
  qed
  have bP: "of_int b < 2 * P"
  proof -
    have "2 ^ 52 \<le> (- x) * P" using slo xneg by (simp add: P_def)
    also have "(- x) * P \<le> (- of_int a) * P / of_int b" by (simp add: x_def)
    also have "\<dots> < 2 ^ 53 * P / of_int b"
    proof -
      have "- of_int a < (2 ^ 53 :: real)"
        using \<open>(of_int (- (2 ^ 53)) :: real) < of_int a\<close> by simp
      then have "(- of_int a) * P < 2 ^ 53 * P" using Ppos by (rule mult_strict_right_mono)
      then show ?thesis using bpos by (rule divide_strict_right_mono)
    qed
    finally have "2 ^ 52 * of_int b < 2 ^ 53 * P" using bpos by (simp add: pos_less_divide_eq)
    then show ?thesis by simp
  qed
  have "1 / 2 < P / of_int b" using bP bpos by (simp add: pos_less_divide_eq)
  also have "P / of_int b = (1 / of_int b) * P" by simp
  also have "\<dots> \<le> (x - (of_int k - 1)) * P" using gap Ppos by (intro mult_right_mono) simp_all
  finally have "of_int ((k - 1) * 2 ^ J) + 1 / 2 < x * P"
    by (simp add: P_def algebra_simps)
  then have "(k - 1) * 2 ^ J < N" unfolding N_def by (rule round_even_greater)
  then have "(of_int ((k - 1) * 2 ^ J) :: real) < of_int N" by (simp only: of_int_less_iff)
  then have yk1: "of_int k - 1 < y" using Ppos by (simp add: y_def P_def pos_less_divide_eq)
  have cl: "\<lceil>y\<rceil> = k" using yk1 yk by (rule ceiling_unique)
  have y0: "y \<le> 0" using yk k0 by simp
  from r y0 cl show ?thesis unfolding x_def[symmetric] k_def[symmetric] by blast
qed

lemma on_grid_exact: "on_grid J r \<Longrightarrow> J \<le> 1074 \<Longrightarrow> round64 r = Fin r"
  unfolding on_grid_def by (auto intro: round64_exact)

lemma on_grid_zero: "on_grid J 0"
  unfolding on_grid_def by (rule exI[of _ 0]) simp

lemma on_grid_abs: assumes "on_grid J r" shows "\<bar>r\<bar> < 2 ^ 53"
proof -
  from assms obtain a :: int where r: "r = of_int a / 2 ^ J" and a: "\<bar>a\<bar> < 2 ^ 53"
    unfolding on_grid_def by blast
  have "(of_int \<bar>a\<bar> :: real) < of_int (2 ^ 53)" using a by (simp only: of_int_less_iff)
  then have "\<bar>of_int a :: real\<bar> < 2 ^ 53" by simp
  moreover have "\<bar>r\<bar> \<le> \<bar>of_int a :: real\<bar>"
  proof -
    have "(1::real) \<le> 2 ^ J" by simp
    then have "\<bar>of_int a :: real\<bar> / 2 ^ J \<le> \<bar>of_int a\<bar> / 1"
      by (intro divide_left_mono) simp_all
    then show ?thesis by (simp add: r)
  qed
  ultimately show ?thesis by linarith
qed

lemma on_grid_int: "\<bar>a\<bar> < 2 ^ 53 \<Longrightarrow> on_grid 0 (of_int a)"
  unfolding on_grid_def by (rule exI[of _ a]) simp

text \<open>An integer is subtracted from a number on the grid without leaving it, when the
  difference is no larger than the number.\<close>

lemma on_grid_diff:
  assumes "on_grid J r" and "z \<in> \<int>" and "\<bar>r - z\<bar> \<le> \<bar>r\<bar>"
  shows "on_grid J (r - z)"
proof -
  from assms(1) obtain a :: int where r: "r = of_int a / 2 ^ J" and a: "\<bar>a\<bar> < 2 ^ 53"
    unfolding on_grid_def by blast
  from assms(2) obtain n :: int where z: "z = of_int n" by (auto elim: Ints_cases)
  define a' where "a' = a - n * 2 ^ J"
  have eq: "r - z = of_int a' / 2 ^ J" by (simp add: r z a'_def field_simps)
  have "\<bar>of_int a' :: real\<bar> = \<bar>r - z\<bar> * 2 ^ J" by (simp add: eq)
  also have "\<dots> \<le> \<bar>r\<bar> * 2 ^ J" using assms(3) by (intro mult_right_mono) simp_all
  also have "\<dots> = \<bar>of_int a :: real\<bar>" by (simp add: r)
  finally have "(of_int \<bar>a'\<bar> :: real) \<le> of_int \<bar>a\<bar>" by simp
  then have "\<bar>a'\<bar> \<le> \<bar>a\<bar>" by (simp only: of_int_le_iff)
  with a have "\<bar>a'\<bar> < 2 ^ 53" by simp
  with eq show ?thesis unfolding on_grid_def by blast
qed

lemma int_exact: assumes "z \<in> \<int>" and "\<bar>z\<bar> < 2 ^ 53" shows "round64 z = Fin z"
proof -
  from assms(1) obtain n :: int where z: "z = of_int n" by (auto elim: Ints_cases)
  have "(of_int \<bar>n\<bar> :: real) < of_int (2 ^ 53)" using assms(2) by (simp add: z)
  then have "\<bar>n\<bar> < 2 ^ 53" by (simp only: of_int_less_iff)
  then have "on_grid 0 z" unfolding z by (rule on_grid_int)
  then show ?thesis by (rule on_grid_exact) simp
qed

subsection \<open>The class Time in binary64\<close>

lemma round64_zero: "round64 0 = Fin 0"
  by (simp add: round64_def)

lemma mul64_int:
  assumes "c \<in> \<int>" and "f \<in> \<int>" and "0 < f" and "\<bar>c * f\<bar> < 2 ^ 53"
  shows "mul64 (Fin c) (Fin f) = Fin (c * f)"
proof (cases "c = 0")
  case True
  then show ?thesis using assms(3) by (simp add: mul64_def zero_signed_def round64_zero)
next
  case False
  have "c * f \<in> \<int>" using assms(1,2) by simp
  then have "round64 (c * f) = Fin (c * f)" using assms(4) by (rule int_exact)
  then show ?thesis using False assms(3) by (simp add: mul64_def)
qed

lemma mul64_NegZero: "0 < f \<Longrightarrow> mul64 NegZero (Fin f) = NegZero"
  by (simp add: mul64_def zero_signed_def)

lemma mul64_zero: "0 < f \<Longrightarrow> mul64 (Fin 0) (Fin f) = Fin 0"
  by (simp add: mul64_def zero_signed_def round64_zero)

lemma add64_zeros:
  "add64 (Fin 0) (Fin 0) = Fin 0"
  "add64 NegZero (Fin 0) = Fin 0"
  "add64 (Fin 0) NegZero = Fin 0"
  by (simp_all add: add64_def round64_zero)

lemma add64_zero_right: "round64 z = Fin z \<Longrightarrow> add64 (Fin z) (Fin 0) = Fin z"
  by (simp add: add64_def)

lemma add64_zero_left: "round64 z = Fin z \<Longrightarrow> add64 (Fin 0) (Fin z) = Fin z"
  by (simp add: add64_def)

lemma sub64_grid:
  assumes "on_grid J r" and "J \<le> 1074" and "z \<in> \<int>" and "\<bar>r - z\<bar> \<le> \<bar>r\<bar>"
  shows "sub64 (Fin r) (Fin z) = Fin (r - z)"
proof -
  have "on_grid J (r - z)" using assms(1,3,4) by (rule on_grid_diff)
  then have "round64 (r - z) = Fin (r - z)" using assms(2) by (rule on_grid_exact)
  then show ?thesis by (simp add: sub64_def js_sub_Fin)
qed

lemma Time_constructor64_ms:
  "round64 r = Fin r \<Longrightarrow> Time_constructor64 [''milliseconds'' \<mapsto> Fin r] = \<lparr>milliseconds = Fin r\<rparr>"
  by (simp add: Time_constructor64_def convertToMilliseconds64_def prop_default_def ms_consts
      MILLISECONDS_IN_A_SECOND_def mul64_zero add64_zeros add64_zero_left)

lemma convertToMilliseconds64_single:
  assumes "c \<in> \<int>"
  shows "\<bar>c * 86400000\<bar> < 2 ^ 53 \<Longrightarrow>
           convertToMilliseconds64 [''days'' \<mapsto> Fin c] = Fin (c * 86400000)"
    and "\<bar>c * 3600000\<bar> < 2 ^ 53 \<Longrightarrow>
           convertToMilliseconds64 [''hours'' \<mapsto> Fin c] = Fin (c * 3600000)"
    and "\<bar>c * 60000\<bar> < 2 ^ 53 \<Longrightarrow>
           convertToMilliseconds64 [''minutes'' \<mapsto> Fin c] = Fin (c * 60000)"
    and "\<bar>c * 1000\<bar> < 2 ^ 53 \<Longrightarrow>
           convertToMilliseconds64 [''seconds'' \<mapsto> Fin c] = Fin (c * 1000)"
proof -
  have ex: "round64 (c * f) = Fin (c * f)" if "f \<in> \<int>" "\<bar>c * f\<bar> < 2 ^ 53" for f
    using assms that by (intro int_exact) simp_all
  show "\<bar>c * 86400000\<bar> < 2 ^ 53 \<Longrightarrow>
           convertToMilliseconds64 [''days'' \<mapsto> Fin c] = Fin (c * 86400000)"
    using assms ex[of 86400000]
    by (simp add: convertToMilliseconds64_def prop_default_def ms_consts
      MILLISECONDS_IN_A_SECOND_def mul64_zero mul64_int add64_zeros add64_zero_left add64_zero_right)
  show "\<bar>c * 3600000\<bar> < 2 ^ 53 \<Longrightarrow>
           convertToMilliseconds64 [''hours'' \<mapsto> Fin c] = Fin (c * 3600000)"
    using assms ex[of 3600000]
    by (simp add: convertToMilliseconds64_def prop_default_def ms_consts
      MILLISECONDS_IN_A_SECOND_def mul64_zero mul64_int add64_zeros add64_zero_left add64_zero_right)
  show "\<bar>c * 60000\<bar> < 2 ^ 53 \<Longrightarrow>
           convertToMilliseconds64 [''minutes'' \<mapsto> Fin c] = Fin (c * 60000)"
    using assms ex[of 60000]
    by (simp add: convertToMilliseconds64_def prop_default_def ms_consts
      MILLISECONDS_IN_A_SECOND_def mul64_zero mul64_int add64_zeros add64_zero_left add64_zero_right)
  show "\<bar>c * 1000\<bar> < 2 ^ 53 \<Longrightarrow>
           convertToMilliseconds64 [''seconds'' \<mapsto> Fin c] = Fin (c * 1000)"
    using assms ex[of 1000]
    by (simp add: convertToMilliseconds64_def prop_default_def ms_consts
      MILLISECONDS_IN_A_SECOND_def mul64_zero mul64_int add64_zeros add64_zero_left add64_zero_right)
qed

lemma convertToMilliseconds64_NegZero:
  "convertToMilliseconds64 [''days'' \<mapsto> NegZero] = Fin 0"
  "convertToMilliseconds64 [''hours'' \<mapsto> NegZero] = Fin 0"
  "convertToMilliseconds64 [''minutes'' \<mapsto> NegZero] = Fin 0"
  "convertToMilliseconds64 [''seconds'' \<mapsto> NegZero] = Fin 0"
  by (simp_all add: convertToMilliseconds64_def prop_default_def ms_consts
      MILLISECONDS_IN_A_SECOND_def mul64_zero mul64_NegZero add64_zeros)

lemma integer_part_nonneg: "0 \<le> x \<Longrightarrow> 0 \<le> integer_part x"
  by (simp add: integer_part_alt)

lemma integer_part_le: "0 \<le> x \<Longrightarrow> integer_part x \<le> x"
  by (simp add: integer_part_alt)

lemma integer_part_step:
  assumes "0 < f"
  shows "\<bar>integer_part (r / f) * f\<bar> \<le> \<bar>r\<bar>"
    and "\<bar>r - integer_part (r / f) * f\<bar> \<le> \<bar>r\<bar>"
    and "r \<le> 0 \<Longrightarrow> integer_part (r / f) \<le> 0 \<and> r - integer_part (r / f) * f \<le> 0"
    and "0 \<le> r \<Longrightarrow> 0 \<le> integer_part (r / f) \<and> 0 \<le> r - integer_part (r / f) * f"
proof -
  define c where "c = integer_part (r / f)"
  have neg: "c \<le> 0 \<and> r \<le> c * f" if "r \<le> 0"
  proof -
    from that assms have x: "r / f \<le> 0" by (simp add: divide_le_0_iff)
    then have "c \<le> 0" unfolding c_def by (rule integer_part_nonpos)
    moreover have "r / f \<le> c" unfolding c_def using x by (rule integer_part_ge)
    then have "r \<le> c * f" using assms by (simp add: pos_divide_le_eq)
    ultimately show ?thesis by simp
  qed
  have pos: "0 \<le> c \<and> c * f \<le> r" if "0 \<le> r"
  proof -
    from that assms have x: "0 \<le> r / f" by simp
    then have "0 \<le> c" unfolding c_def by (rule integer_part_nonneg)
    moreover have "c \<le> r / f" unfolding c_def using x by (rule integer_part_le)
    then have "c * f \<le> r" using assms by (simp add: pos_le_divide_eq)
    ultimately show ?thesis by simp
  qed
  have cf_neg: "c * f \<le> 0" if "c \<le> 0" using that assms by (simp add: mult_le_0_iff)
  have cf_pos: "0 \<le> c * f" if "0 \<le> c" using that assms by simp
  show "\<bar>c * f\<bar> \<le> \<bar>r\<bar>"
    using neg pos cf_neg cf_pos by (cases "r \<le> 0") auto
  show "\<bar>r - c * f\<bar> \<le> \<bar>r\<bar>"
    using neg pos cf_neg cf_pos by (cases "r \<le> 0") auto
  show "r \<le> 0 \<Longrightarrow> c \<le> 0 \<and> r - c * f \<le> 0" using neg by auto
  show "0 \<le> r \<Longrightarrow> 0 \<le> c \<and> 0 \<le> r - c * f" using pos by auto
qed

lemma div64_trunc:
  assumes grid: "on_grid J r" and F: "1 \<le> F"
    and normal: "r = 0 \<or> 2 powr (- 1022) \<le> \<bar>r / of_int F\<bar>"
  shows "floorTowardsZero (div64 (Fin r) (Fin (of_int F))) = Fin (integer_part (r / of_int F))"
proof (cases "r = 0")
  case True
  then show ?thesis using F
    by (simp add: div64_def zero_signed_def round64_zero floorTowardsZero_Fin)
next
  case False
  from grid obtain a :: int where r: "r = of_int a / 2 ^ J" and a: "\<bar>a\<bar> < 2 ^ 53"
    unfolding on_grid_def by blast
  define b :: int where "b = F * 2 ^ J"
  have b1: "1 \<le> b"
  proof -
    have "1 * 1 \<le> F * (2 ^ J :: int)" using F by (intro mult_mono) simp_all
    then show ?thesis by (simp add: b_def)
  qed
  have x: "r / of_int F = of_int a / of_int b" by (simp add: r b_def)
  have a0: "a \<noteq> 0" using False r by auto
  have Fpos: "(0::real) < of_int F" using F by simp
  have d: "div64 (Fin r) (Fin (of_int F)) = round64 (of_int a / of_int b)"
    using False Fpos by (simp add: div64_def x)
  from normal False have n: "2 powr (- 1022) \<le> \<bar>of_int a / of_int b :: real\<bar>"
    by (simp only: x) simp
  show ?thesis
  proof (cases "0 < a")
    case True
    with b1 have xpos: "(0::real) < of_int a / of_int b" by simp
    have "a < 2 ^ 53" using a by simp
    moreover have "2 powr (- 1022) \<le> (of_int a / of_int b :: real)" using n xpos by simp
    ultimately obtain y where y: "round64 (of_int a / of_int b) = Fin y" "0 \<le> y"
      "\<lfloor>y\<rfloor> = \<lfloor>(of_int a / of_int b :: real)\<rfloor>"
      using round64_quotient_pos[OF True _ b1] by blast
    have "integer_part y = integer_part (of_int a / of_int b)"
      using y(2,3) xpos by (simp add: integer_part_alt)
    then show ?thesis by (simp add: d y(1) floorTowardsZero_Fin x)
  next
    case False
    with a0 have aneg: "a < 0" by simp
    with b1 have xneg: "(of_int a / of_int b :: real) < 0" by (simp add: divide_neg_pos)
    have "- (2 ^ 53) < a" using a by simp
    moreover have "2 powr (- 1022) \<le> - (of_int a / of_int b :: real)" using n xneg by simp
    ultimately obtain y where y: "round64 (of_int a / of_int b) = Fin y" "y \<le> 0"
      "\<lceil>y\<rceil> = \<lceil>(of_int a / of_int b :: real)\<rceil>"
      using round64_quotient_neg[OF aneg _ b1] by blast
    have "integer_part y = integer_part (of_int a / of_int b)"
      using y(2,3) xneg by (cases "y < 0") (simp_all add: integer_part_alt)
    then show ?thesis by (simp add: d y(1) floorTowardsZero_Fin x)
  qed
qed

lemma round64_subnormal:
  assumes x0: "x \<noteq> 0" and small: "\<bar>x\<bar> < 2 powr (- 1022)"
  shows "round64 x = zero_signed (x < 0) \<or>
         (\<exists>y. round64 x = Fin y \<and> \<bar>y\<bar> < 1 \<and> y \<noteq> 0 \<and> (y < 0 \<longleftrightarrow> x < 0))"
proof -
  define q :: real where "q = 2 powr (- 1074)"
  define N where "N = round_even (x / q)"
  have qpos: "0 < q" by (simp add: q_def)
  have "log 2 \<bar>x\<bar> < - 1022" using small x0 by (simp add: log_less_iff)
  then have "\<lfloor>log 2 \<bar>x\<bar>\<rfloor> \<le> - 1022" by linarith
  then have ex: "exponent64 x = - 1022" by (simp add: exponent64_def)
  have q52: "q * 2 ^ 52 = 2 powr (- 1022)"
  proof -
    have "q * 2 powr 52 = 2 powr (- 1074 + 52)" unfolding q_def by (simp only: powr_add)
    then show ?thesis by simp
  qed
  have s: "\<bar>x\<bar> / q < 2 ^ 52"
    using small qpos q52 by (simp add: pos_divide_less_eq mult.commute)
  have Nb: "\<bar>N\<bar> \<le> 2 ^ 52 \<and> (0 < x \<longrightarrow> 0 \<le> N) \<and> (x < 0 \<longrightarrow> N \<le> 0)"
  proof (cases "0 < x")
    case True
    then have a: "\<bar>x\<bar> / q = x / q" by simp
    have "of_int 0 \<le> x / q" using True qpos by simp
    then have l: "0 \<le> N" unfolding N_def by (rule round_even_ge)
    have "x / q \<le> of_int (2 ^ 52)" using s a by simp
    then have "N \<le> 2 ^ 52" unfolding N_def by (rule round_even_le)
    with l True show ?thesis by simp
  next
    case False
    with x0 have xn: "x < 0" by simp
    then have a: "\<bar>x\<bar> / q = - (x / q)" by simp
    have "x / q \<le> of_int 0" using xn qpos by (simp add: divide_le_0_iff)
    then have l: "N \<le> 0" unfolding N_def by (rule round_even_le)
    have "of_int (- (2 ^ 52)) \<le> x / q" using s a by simp
    then have "- (2 ^ 52) \<le> N" unfolding N_def by (rule round_even_ge)
    with l xn show ?thesis by simp
  qed
  define y where "y = q * of_int N"
  have "\<bar>y\<bar> = q * of_int \<bar>N\<bar>" using qpos by (simp add: y_def abs_mult)
  also have "\<dots> \<le> q * 2 ^ 52"
  proof -
    have "(of_int \<bar>N\<bar> :: real) \<le> of_int (2 ^ 52)" using Nb by (simp only: of_int_le_iff)
    then show ?thesis using qpos by simp
  qed
  also have "\<dots> = 2 powr (- 1022)" by (rule q52)
  also have "\<dots> < 2 powr 0" by (rule powr_less_mono) simp_all
  finally have y1: "\<bar>y\<bar> < 1" by simp
  have "(1::real) \<le> 2 ^ 1024" by (rule one_le_power) simp
  with y1 have nover: "\<not> 2 ^ 1024 \<le> \<bar>y\<bar>" by linarith
  have sgn: "y \<noteq> 0 \<Longrightarrow> (y < 0 \<longleftrightarrow> x < 0)"
  proof (cases "0 < x")
    case True
    with Nb have "0 \<le> N" by simp
    then have "0 \<le> y" using qpos by (simp add: y_def)
    with True show ?thesis by simp
  next
    case False
    with x0 have xn: "x < 0" by simp
    with Nb have "N \<le> 0" by simp
    then have "y \<le> 0" using qpos by (simp add: y_def mult_le_0_iff)
    with xn show "y \<noteq> 0 \<Longrightarrow> (y < 0 \<longleftrightarrow> x < 0)" by simp
  qed
  have "round64 x = (if y = 0 then zero_signed (x < 0) else Fin y)"
    using x0 nover
    by (simp add: round64_def ex Let_def q_def[symmetric] N_def[symmetric] y_def[symmetric])
  with y1 sgn show ?thesis by (cases "y = 0") auto
qed

lemma div64_trunc_subnormal:
  assumes r0: "r \<noteq> 0" and f: "0 < f" and small: "\<bar>r / f\<bar> < 2 powr (- 1022)"
  shows "integer_part (r / f) = 0"
    and "floorTowardsZero (div64 (Fin r) (Fin f)) = Fin 0 \<or>
         (r < 0 \<and> floorTowardsZero (div64 (Fin r) (Fin f)) = NegZero)"
proof -
  define x where "x = r / f"
  have x0: "x \<noteq> 0" using r0 f by (simp add: x_def)
  have "(2::real) powr (- 1022) < 2 powr 0" by (rule powr_less_mono) simp_all
  then have x1: "\<bar>x\<bar> < 1" using small by (simp add: x_def)
  then have "\<lfloor>x\<rfloor> = 0" if "0 \<le> x" using that by (simp add: floor_eq_iff)
  moreover have "\<lceil>x\<rceil> = 0" if "x < 0" using that x1 by (simp add: ceiling_eq_iff)
  ultimately show "integer_part (r / f) = 0"
    unfolding x_def[symmetric] by (simp add: integer_part_alt)
  have d: "div64 (Fin r) (Fin f) = round64 x"
    using r0 f by (simp add: div64_def x_def)
  have sg: "x < 0 \<longleftrightarrow> r < 0" using f by (simp add: x_def divide_less_0_iff)
  from round64_subnormal[OF x0] small
  consider "round64 x = zero_signed (x < 0)"
    | y where "round64 x = Fin y" "\<bar>y\<bar> < 1" "y \<noteq> 0" "y < 0 \<longleftrightarrow> x < 0"
    unfolding x_def by blast
  then show "floorTowardsZero (div64 (Fin r) (Fin f)) = Fin 0 \<or>
         (r < 0 \<and> floorTowardsZero (div64 (Fin r) (Fin f)) = NegZero)"
  proof cases
    case 1
    then show ?thesis
      using sg by (cases "x < 0")
        (simp_all add: d zero_signed_def floorTowardsZero_def)
  next
    case (2 y)
    have "\<lfloor>y\<rfloor> = 0" if "0 \<le> y" using that 2(2) by (simp add: floor_eq_iff)
    moreover have "\<lceil>y\<rceil> = 0" if "y < 0" using that 2(2) by (simp add: ceiling_eq_iff)
    ultimately have "integer_part y = 0" by (simp add: integer_part_alt)
    then show ?thesis by (simp add: d 2(1) floorTowardsZero_Fin)
  qed
qed

text \<open>The component and the new tally of one step of \<open>toComponents\<close> in binary64.\<close>

lemma quotient_step:
  assumes grid: "on_grid J r" and F: "1 \<le> F"
  shows "floorTowardsZero (div64 (Fin r) (Fin (of_int F))) = Fin (integer_part (r / of_int F)) \<or>
         (r < 0 \<and> integer_part (r / of_int F) = 0 \<and>
          floorTowardsZero (div64 (Fin r) (Fin (of_int F))) = NegZero)"
proof (cases "r = 0 \<or> 2 powr (- 1022) \<le> \<bar>r / of_int F\<bar>")
  case True
  with grid F show ?thesis by (simp add: div64_trunc)
next
  case False
  then have r0: "r \<noteq> 0" and small: "\<bar>r / of_int F\<bar> < 2 powr (- 1022)" by simp_all
  have Fpos: "(0::real) < of_int F" using F by simp
  from div64_trunc_subnormal[OF r0 Fpos small] show ?thesis by auto
qed

lemma Time_subtract64_step:
  assumes grid: "on_grid J r" and J: "J \<le> 1074"
  shows "c = Fin (integer_part (r / 86400000)) \<or> c = NegZero \<and> integer_part (r / 86400000) = 0 \<Longrightarrow>
           Time_subtract64 \<lparr>milliseconds = Fin r\<rparr> [''days'' \<mapsto> c] =
           \<lparr>milliseconds = Fin (r - integer_part (r / 86400000) * 86400000)\<rparr>"
    and "c = Fin (integer_part (r / 3600000)) \<or> c = NegZero \<and> integer_part (r / 3600000) = 0 \<Longrightarrow>
           Time_subtract64 \<lparr>milliseconds = Fin r\<rparr> [''hours'' \<mapsto> c] =
           \<lparr>milliseconds = Fin (r - integer_part (r / 3600000) * 3600000)\<rparr>"
    and "c = Fin (integer_part (r / 60000)) \<or> c = NegZero \<and> integer_part (r / 60000) = 0 \<Longrightarrow>
           Time_subtract64 \<lparr>milliseconds = Fin r\<rparr> [''minutes'' \<mapsto> c] =
           \<lparr>milliseconds = Fin (r - integer_part (r / 60000) * 60000)\<rparr>"
    and "c = Fin (integer_part (r / 1000)) \<or> c = NegZero \<and> integer_part (r / 1000) = 0 \<Longrightarrow>
           Time_subtract64 \<lparr>milliseconds = Fin r\<rparr> [''seconds'' \<mapsto> c] =
           \<lparr>milliseconds = Fin (r - integer_part (r / 1000) * 1000)\<rparr>"
proof -
  have rb: "\<bar>r\<bar> < 2 ^ 53" using grid by (rule on_grid_abs)
  have gen: "sub64 (Fin r) (Fin (integer_part (r / f) * f)) = Fin (r - integer_part (r / f) * f) \<and>
             round64 (r - integer_part (r / f) * f) = Fin (r - integer_part (r / f) * f) \<and>
             \<bar>integer_part (r / f) * f\<bar> < 2 ^ 53"
    if "0 < f" "f \<in> \<int>" for f
  proof -
    have z: "integer_part (r / f) * f \<in> \<int>" using that(2) by (simp add: integer_part_Ints)
    have le: "\<bar>r - integer_part (r / f) * f\<bar> \<le> \<bar>r\<bar>" using that(1) by (rule integer_part_step(2))
    have "on_grid J (r - integer_part (r / f) * f)" using grid z le by (rule on_grid_diff)
    then have "round64 (r - integer_part (r / f) * f) = Fin (r - integer_part (r / f) * f)"
      using J by (rule on_grid_exact)
    moreover have "sub64 (Fin r) (Fin (integer_part (r / f) * f)) = Fin (r - integer_part (r / f) * f)"
      using grid J z le by (rule sub64_grid)
    moreover have "\<bar>integer_part (r / f) * f\<bar> < 2 ^ 53"
      using integer_part_step(1)[OF that(1), of r] rb by linarith
    ultimately show ?thesis by simp
  qed
  have r_exact: "round64 r = Fin r" using grid J by (rule on_grid_exact)
  have sub0: "sub64 (Fin r) (Fin 0) = Fin r"
    using r_exact by (simp add: sub64_def js_sub_def)
  show "c = Fin (integer_part (r / 86400000)) \<or> c = NegZero \<and> integer_part (r / 86400000) = 0 \<Longrightarrow>
           Time_subtract64 \<lparr>milliseconds = Fin r\<rparr> [''days'' \<mapsto> c] =
           \<lparr>milliseconds = Fin (r - integer_part (r / 86400000) * 86400000)\<rparr>"
    using gen[of 86400000] r_exact sub0
    by (auto simp: Time_subtract64_def convertToMilliseconds64_single integer_part_Ints
        convertToMilliseconds64_NegZero Time_constructor64_ms)
  show "c = Fin (integer_part (r / 3600000)) \<or> c = NegZero \<and> integer_part (r / 3600000) = 0 \<Longrightarrow>
           Time_subtract64 \<lparr>milliseconds = Fin r\<rparr> [''hours'' \<mapsto> c] =
           \<lparr>milliseconds = Fin (r - integer_part (r / 3600000) * 3600000)\<rparr>"
    using gen[of 3600000] r_exact sub0
    by (auto simp: Time_subtract64_def convertToMilliseconds64_single integer_part_Ints
        convertToMilliseconds64_NegZero Time_constructor64_ms)
  show "c = Fin (integer_part (r / 60000)) \<or> c = NegZero \<and> integer_part (r / 60000) = 0 \<Longrightarrow>
           Time_subtract64 \<lparr>milliseconds = Fin r\<rparr> [''minutes'' \<mapsto> c] =
           \<lparr>milliseconds = Fin (r - integer_part (r / 60000) * 60000)\<rparr>"
    using gen[of 60000] r_exact sub0
    by (auto simp: Time_subtract64_def convertToMilliseconds64_single integer_part_Ints
        convertToMilliseconds64_NegZero Time_constructor64_ms)
  show "c = Fin (integer_part (r / 1000)) \<or> c = NegZero \<and> integer_part (r / 1000) = 0 \<Longrightarrow>
           Time_subtract64 \<lparr>milliseconds = Fin r\<rparr> [''seconds'' \<mapsto> c] =
           \<lparr>milliseconds = Fin (r - integer_part (r / 1000) * 1000)\<rparr>"
    using gen[of 1000] r_exact sub0
    by (auto simp: Time_subtract64_def convertToMilliseconds64_single integer_part_Ints
        convertToMilliseconds64_NegZero Time_constructor64_ms)
qed

lemma Time_toComponents64_grid:
  assumes grid: "on_grid J m" and J: "J \<le> 1074"
  shows "Time_toComponents64 \<lparr>milliseconds = Fin m\<rparr> =
     (let d = integer_part (m / 86400000); r1 = m - d * 86400000;
          h = integer_part (r1 / 3600000); r2 = r1 - h * 3600000;
          mi = integer_part (r2 / 60000); r3 = r2 - mi * 60000;
          s = integer_part (r3 / 1000); r4 = r3 - s * 1000
      in [''days'' \<mapsto> floorTowardsZero (div64 (Fin m) (Fin 86400000)),
          ''hours'' \<mapsto> floorTowardsZero (div64 (Fin r1) (Fin 3600000)),
          ''minutes'' \<mapsto> floorTowardsZero (div64 (Fin r2) (Fin 60000)),
          ''seconds'' \<mapsto> floorTowardsZero (div64 (Fin r3) (Fin 1000)),
          ''milliseconds'' \<mapsto> Fin r4])"
proof -
  define d where "d = integer_part (m / 86400000)"
  define r1 where "r1 = m - d * 86400000"
  define h where "h = integer_part (r1 / 3600000)"
  define r2 where "r2 = r1 - h * 3600000"
  define mi where "mi = integer_part (r2 / 60000)"
  define r3 where "r3 = r2 - mi * 60000"
  define s where "s = integer_part (r3 / 1000)"
  define r4 where "r4 = r3 - s * 1000"
  define c1 where "c1 = floorTowardsZero (div64 (Fin m) (Fin 86400000))"
  define c2 where "c2 = floorTowardsZero (div64 (Fin r1) (Fin 3600000))"
  define c3 where "c3 = floorTowardsZero (div64 (Fin r2) (Fin 60000))"
  define c4 where "c4 = floorTowardsZero (div64 (Fin r3) (Fin 1000))"
  have step: "on_grid J (r - integer_part (r / f) * f)"
    if "on_grid J r" "0 < f" "f \<in> \<int>" for r f
    using that(1)
  proof (rule on_grid_diff)
    show "integer_part (r / f) * f \<in> \<int>" using that(3) by (simp add: integer_part_Ints)
    show "\<bar>r - integer_part (r / f) * f\<bar> \<le> \<bar>r\<bar>" using that(2) by (rule integer_part_step(2))
  qed
  have g1: "on_grid J r1" unfolding r1_def d_def using grid by (rule step) simp_all
  have g2: "on_grid J r2" unfolding r2_def h_def using g1 by (rule step) simp_all
  have g3: "on_grid J r3" unfolding r3_def mi_def using g2 by (rule step) simp_all
  have q1: "c1 = Fin d \<or> c1 = NegZero \<and> d = 0"
    using quotient_step[OF grid, of 86400000] by (auto simp: c1_def d_def)
  have q2: "c2 = Fin h \<or> c2 = NegZero \<and> h = 0"
    using quotient_step[OF g1, of 3600000] by (auto simp: c2_def h_def)
  have q3: "c3 = Fin mi \<or> c3 = NegZero \<and> mi = 0"
    using quotient_step[OF g2, of 60000] by (auto simp: c3_def mi_def)
  have q4: "c4 = Fin s \<or> c4 = NegZero \<and> s = 0"
    using quotient_step[OF g3, of 1000] by (auto simp: c4_def s_def)
  have s1: "Time_subtract64 \<lparr>milliseconds = Fin m\<rparr> [''days'' \<mapsto> c1] = \<lparr>milliseconds = Fin r1\<rparr>"
    unfolding r1_def d_def using q1 unfolding d_def by (rule Time_subtract64_step(1)[OF grid J])
  have s2: "Time_subtract64 \<lparr>milliseconds = Fin r1\<rparr> [''hours'' \<mapsto> c2] = \<lparr>milliseconds = Fin r2\<rparr>"
    unfolding r2_def h_def using q2 unfolding h_def by (rule Time_subtract64_step(2)[OF g1 J])
  have s3: "Time_subtract64 \<lparr>milliseconds = Fin r2\<rparr> [''minutes'' \<mapsto> c3] = \<lparr>milliseconds = Fin r3\<rparr>"
    unfolding r3_def mi_def using q3 unfolding mi_def by (rule Time_subtract64_step(3)[OF g2 J])
  have s4: "Time_subtract64 \<lparr>milliseconds = Fin r3\<rparr> [''seconds'' \<mapsto> c4] = \<lparr>milliseconds = Fin r4\<rparr>"
    unfolding r4_def s_def using q4 unfolding s_def by (rule Time_subtract64_step(4)[OF g3 J])
  have "Time_toComponents64 \<lparr>milliseconds = Fin m\<rparr> =
      [''days'' \<mapsto> c1, ''hours'' \<mapsto> c2, ''minutes'' \<mapsto> c3, ''seconds'' \<mapsto> c4,
       ''milliseconds'' \<mapsto> Fin r4]"
    by (simp add: Time_toComponents64_def Time_toDays64_def Time_toHours64_def
        Time_toMinutes64_def Time_toSeconds64_def ms_consts MILLISECONDS_IN_A_SECOND_def
        c1_def[symmetric] s1 c2_def[symmetric] s2 c3_def[symmetric] s3 c4_def[symmetric] s4)
  then show ?thesis
    by (simp only: Let_def c1_def c2_def c3_def c4_def r4_def s_def r3_def mi_def r2_def h_def
        r1_def d_def)
qed

text \<open>A binary64 number below \<open>2 ^ 53\<close> in magnitude lies on a grid.\<close>

lemma binary64_on_grid:
  assumes dbl: "round64 m = Fin m" and bound: "\<bar>m\<bar> < 2 ^ 53"
  shows "\<exists>J\<le>1074. on_grid J m"
proof (cases "m = 0")
  case True
  then show ?thesis using on_grid_zero[of 0] by auto
next
  case False
  define e where "e = exponent64 m"
  define q :: real where "q = 2 powr (of_int e - 52)"
  define N where "N = round_even (m / q)"
  have qpos: "0 < q" by (simp add: q_def)
  have mpos: "0 < \<bar>m\<bar>" using False by simp
  have "\<bar>m\<bar> < 2 powr 53" using bound by simp
  then have "log 2 \<bar>m\<bar> < 53" using mpos by (simp add: log_less_iff)
  then have fl: "\<lfloor>log 2 \<bar>m\<bar>\<rfloor> \<le> 52" by linarith
  then have e2: "e \<le> 52" by (simp add: e_def exponent64_def)
  have e1: "- 1022 \<le> e" by (simp add: e_def exponent64_def)
  have hi: "\<bar>m\<bar> < 2 powr (of_int e + 1)"
  proof -
    have "log 2 \<bar>m\<bar> < of_int \<lfloor>log 2 \<bar>m\<bar>\<rfloor> + 1" by linarith
    also have "\<dots> \<le> of_int e + 1" by (simp add: e_def exponent64_def)
    finally show ?thesis using mpos by (simp add: log_less_iff)
  qed
  define J where "J = nat (52 - e)"
  have Je: "of_int e - 52 = - real J" using e2 by (simp add: J_def)
  have pJ: "2 powr (real J) = (2::real) ^ J" by (rule powr_realpow) simp
  have qJ: "q = 1 / 2 ^ J"
    unfolding q_def Je by (simp add: powr_minus_divide pJ)
  have J: "J \<le> 1074" using e1 by (simp add: J_def)
  from dbl False have "m = q * of_int N"
    by (auto simp: round64_def Let_def e_def[symmetric] q_def[symmetric] N_def[symmetric]
        inf_signed_def zero_signed_def split: if_splits)
  then have mN: "m = of_int N / 2 ^ J" by (simp add: qJ)
  have "\<bar>of_int N :: real\<bar> = \<bar>m\<bar> * 2 ^ J" by (simp add: mN)
  also have "\<dots> < 2 powr (of_int e + 1) * 2 ^ J" using hi by simp
  also have "\<dots> = 2 ^ 53"
  proof -
    have "of_int e + 1 = 53 - real J" using Je by simp
    then have "2 powr (of_int e + 1) = (2::real) powr 53 / 2 powr (real J)"
      by (simp add: powr_diff)
    then show ?thesis by (simp add: pJ)
  qed
  finally have "(of_int \<bar>N\<bar> :: real) < of_int (2 ^ 53)" by simp
  then have "\<bar>N\<bar> < 2 ^ 53" by (simp only: of_int_less_iff)
  with mN have "on_grid J m" unfolding on_grid_def by blast
  with J show ?thesis by blast
qed

lemma Time_toComponents64_nonpos:
  assumes dbl: "round64 m = Fin m" and bound: "- (2 ^ 53) < m" and neg: "m \<le> 0"
    and field: "Time_toComponents64 \<lparr>milliseconds = Fin m\<rparr> key = Some v"
  shows "v = NegZero \<or> (\<exists>x. v = Fin x \<and> x \<le> 0)"
proof -
  from bound neg have "\<bar>m\<bar> < 2 ^ 53" by simp
  with dbl obtain J where J: "J \<le> 1074" and grid: "on_grid J m"
    using binary64_on_grid by blast
  define d where "d = integer_part (m / 86400000)"
  define r1 where "r1 = m - d * 86400000"
  define h where "h = integer_part (r1 / 3600000)"
  define r2 where "r2 = r1 - h * 3600000"
  define mi where "mi = integer_part (r2 / 60000)"
  define r3 where "r3 = r2 - mi * 60000"
  define s where "s = integer_part (r3 / 1000)"
  define r4 where "r4 = r3 - s * 1000"
  define c1 where "c1 = floorTowardsZero (div64 (Fin m) (Fin 86400000))"
  define c2 where "c2 = floorTowardsZero (div64 (Fin r1) (Fin 3600000))"
  define c3 where "c3 = floorTowardsZero (div64 (Fin r2) (Fin 60000))"
  define c4 where "c4 = floorTowardsZero (div64 (Fin r3) (Fin 1000))"
  have step: "on_grid J (r - integer_part (r / f) * f)"
    if "on_grid J r" "0 < f" "f \<in> \<int>" for r f
    using that(1)
  proof (rule on_grid_diff)
    show "integer_part (r / f) * f \<in> \<int>" using that(3) by (simp add: integer_part_Ints)
    show "\<bar>r - integer_part (r / f) * f\<bar> \<le> \<bar>r\<bar>" using that(2) by (rule integer_part_step(2))
  qed
  have g1: "on_grid J r1" unfolding r1_def d_def using grid by (rule step) simp_all
  have g2: "on_grid J r2" unfolding r2_def h_def using g1 by (rule step) simp_all
  have g3: "on_grid J r3" unfolding r3_def mi_def using g2 by (rule step) simp_all
  have n1: "d \<le> 0 \<and> r1 \<le> 0"
    unfolding r1_def d_def using neg by (intro integer_part_step(3)) simp_all
  have n2: "h \<le> 0 \<and> r2 \<le> 0"
    unfolding r2_def h_def using n1 by (intro integer_part_step(3)) simp_all
  have n3: "mi \<le> 0 \<and> r3 \<le> 0"
    unfolding r3_def mi_def using n2 by (intro integer_part_step(3)) simp_all
  have n4: "s \<le> 0 \<and> r4 \<le> 0"
    unfolding r4_def s_def using n3 by (intro integer_part_step(3)) simp_all
  have q1: "c1 = Fin d \<or> c1 = NegZero"
    using quotient_step[OF grid, of 86400000] by (auto simp: c1_def d_def)
  have q2: "c2 = Fin h \<or> c2 = NegZero"
    using quotient_step[OF g1, of 3600000] by (auto simp: c2_def h_def)
  have q3: "c3 = Fin mi \<or> c3 = NegZero"
    using quotient_step[OF g2, of 60000] by (auto simp: c3_def mi_def)
  have q4: "c4 = Fin s \<or> c4 = NegZero"
    using quotient_step[OF g3, of 1000] by (auto simp: c4_def s_def)
  have "Time_toComponents64 \<lparr>milliseconds = Fin m\<rparr> =
      [''days'' \<mapsto> c1, ''hours'' \<mapsto> c2, ''minutes'' \<mapsto> c3, ''seconds'' \<mapsto> c4,
       ''milliseconds'' \<mapsto> Fin r4]"
    by (simp only: Time_toComponents64_grid[OF grid J] Let_def c1_def c2_def c3_def c4_def
        r4_def s_def r3_def mi_def r2_def h_def r1_def d_def)
  with field q1 q2 q3 q4 n1 n2 n3 n4 show ?thesis
    by (auto split: if_splits)
qed

lemma int_quotient_normal:
  assumes "(r::real) \<in> \<int>" and "1 \<le> F" and "F \<le> 86400000"
  shows "r = 0 \<or> 2 powr (- 1022) \<le> \<bar>r / of_int F\<bar>"
proof (cases "r = 0")
  case True
  then show ?thesis by simp
next
  case False
  from assms(1) obtain n :: int where r: "r = of_int n" by (auto elim: Ints_cases)
  have "n \<noteq> 0" using False r by simp
  then have "1 \<le> \<bar>n\<bar>" by simp
  then have "(of_int 1 :: real) \<le> of_int \<bar>n\<bar>" by (simp only: of_int_le_iff)
  then have r1: "1 \<le> \<bar>r\<bar>" by (simp add: r)
  have Fr: "(of_int F :: real) \<le> of_int 86400000" using assms(3) by (simp only: of_int_le_iff)
  have Fpos: "(0::real) < of_int F" using assms(2) by simp
  have "(2::real) powr (- 1022) \<le> 2 powr (- 27)" by (rule powr_mono) simp_all
  also have "\<dots> = 1 / 2 ^ 27"
  proof -
    have "(2::real) powr (- real 27) = 1 / 2 powr (real 27)" by (rule powr_minus_divide)
    also have "(2::real) powr (real 27) = 2 ^ 27" by (rule powr_realpow) simp
    finally show ?thesis by simp
  qed
  also have "\<dots> \<le> 1 / of_int F" using Fr Fpos by (simp add: field_simps)
  also have "\<dots> \<le> \<bar>r\<bar> / of_int F" using r1 Fpos by (simp add: divide_right_mono)
  also have "\<dots> = \<bar>r / of_int F\<bar>" using Fpos by simp
  finally show ?thesis by simp
qed

lemma Time_toComponents64_int:
  assumes int: "m \<in> \<int>" and bound: "\<bar>m\<bar> < 2 ^ 53"
  shows "Time_toComponents64 \<lparr>milliseconds = Fin m\<rparr> = Time_toComponents \<lparr>milliseconds = Fin m\<rparr>"
proof -
  from int obtain n :: int where m: "m = of_int n" by (auto elim: Ints_cases)
  have "(of_int \<bar>n\<bar> :: real) < of_int (2 ^ 53)" using bound by (simp add: m)
  then have "\<bar>n\<bar> < 2 ^ 53" by (simp only: of_int_less_iff)
  then have grid: "on_grid 0 m" unfolding m by (rule on_grid_int)
  define d where "d = integer_part (m / 86400000)"
  define r1 where "r1 = m - d * 86400000"
  define h where "h = integer_part (r1 / 3600000)"
  define r2 where "r2 = r1 - h * 3600000"
  define mi where "mi = integer_part (r2 / 60000)"
  define r3 where "r3 = r2 - mi * 60000"
  define s where "s = integer_part (r3 / 1000)"
  define r4 where "r4 = r3 - s * 1000"
  have step: "on_grid 0 (r - integer_part (r / f) * f)"
    if "on_grid 0 r" "0 < f" "f \<in> \<int>" for r f
    using that(1)
  proof (rule on_grid_diff)
    show "integer_part (r / f) * f \<in> \<int>" using that(3) by (simp add: integer_part_Ints)
    show "\<bar>r - integer_part (r / f) * f\<bar> \<le> \<bar>r\<bar>" using that(2) by (rule integer_part_step(2))
  qed
  have g1: "on_grid 0 r1" unfolding r1_def d_def using grid by (rule step) simp_all
  have g2: "on_grid 0 r2" unfolding r2_def h_def using g1 by (rule step) simp_all
  have g3: "on_grid 0 r3" unfolding r3_def mi_def using g2 by (rule step) simp_all
  have i1: "r1 \<in> \<int>" unfolding r1_def d_def using int by (simp add: integer_part_Ints)
  have i2: "r2 \<in> \<int>" unfolding r2_def h_def using i1 by (simp add: integer_part_Ints)
  have i3: "r3 \<in> \<int>" unfolding r3_def mi_def using i2 by (simp add: integer_part_Ints)
  have c1: "floorTowardsZero (div64 (Fin m) (Fin 86400000)) = Fin d"
    using div64_trunc[OF grid _ int_quotient_normal[OF int], of 86400000] by (simp add: d_def)
  have c2: "floorTowardsZero (div64 (Fin r1) (Fin 3600000)) = Fin h"
    using div64_trunc[OF g1 _ int_quotient_normal[OF i1], of 3600000] by (simp add: h_def)
  have c3: "floorTowardsZero (div64 (Fin r2) (Fin 60000)) = Fin mi"
    using div64_trunc[OF g2 _ int_quotient_normal[OF i2], of 60000] by (simp add: mi_def)
  have c4: "floorTowardsZero (div64 (Fin r3) (Fin 1000)) = Fin s"
    using div64_trunc[OF g3 _ int_quotient_normal[OF i3], of 1000] by (simp add: s_def)
  have "Time_toComponents64 \<lparr>milliseconds = Fin m\<rparr> =
      [''days'' \<mapsto> Fin d, ''hours'' \<mapsto> Fin h, ''minutes'' \<mapsto> Fin mi, ''seconds'' \<mapsto> Fin s,
       ''milliseconds'' \<mapsto> Fin r4]"
    using c1 c2 c3 c4
    by (simp only: Time_toComponents64_grid[OF grid order.refl[THEN le_trans, of 0 1074]] Let_def
        r4_def s_def r3_def mi_def r2_def h_def r1_def d_def)
  also have "\<dots> = Time_toComponents \<lparr>milliseconds = Fin m\<rparr>"
    by (simp only: Time_toComponents_Fin Let_def r4_def s_def r3_def mi_def r2_def h_def r1_def d_def)
  finally show ?thesis .
qed

lemma add64_int:
  assumes "x \<in> \<int>" and "y \<in> \<int>" and "\<bar>x + y\<bar> < 2 ^ 53"
  shows "add64 (Fin x) (Fin y) = Fin (x + y)"
proof -
  have "x + y \<in> \<int>" using assms(1,2) by simp
  then have "round64 (x + y) = Fin (x + y)" using assms(3) by (rule int_exact)
  then show ?thesis by (simp add: add64_def)
qed

lemma convertToMilliseconds64_components:
  assumes ints: "d \<in> \<int>" "h \<in> \<int>" "mi \<in> \<int>" "s \<in> \<int>" "r \<in> \<int>"
    and p: "\<bar>d * 86400000\<bar> < 2 ^ 53" "\<bar>h * 3600000\<bar> < 2 ^ 53" "\<bar>mi * 60000\<bar> < 2 ^ 53"
      "\<bar>s * 1000\<bar> < 2 ^ 53"
    and sums: "\<bar>d * 86400000 + h * 3600000\<bar> < 2 ^ 53"
      "\<bar>d * 86400000 + h * 3600000 + mi * 60000\<bar> < 2 ^ 53"
      "\<bar>d * 86400000 + h * 3600000 + mi * 60000 + s * 1000\<bar> < 2 ^ 53"
      "\<bar>d * 86400000 + h * 3600000 + mi * 60000 + s * 1000 + r\<bar> < 2 ^ 53"
  shows "convertToMilliseconds64
     [''days'' \<mapsto> Fin d, ''hours'' \<mapsto> Fin h, ''minutes'' \<mapsto> Fin mi, ''seconds'' \<mapsto> Fin s,
      ''milliseconds'' \<mapsto> Fin r] =
     Fin (d * 86400000 + h * 3600000 + mi * 60000 + s * 1000 + r)"
proof -
  have m1: "mul64 (Fin d) (Fin 86400000) = Fin (d * 86400000)"
    using ints(1) p(1) by (intro mul64_int) simp_all
  have m2: "mul64 (Fin h) (Fin 3600000) = Fin (h * 3600000)"
    using ints(2) p(2) by (intro mul64_int) simp_all
  have m3: "mul64 (Fin mi) (Fin 60000) = Fin (mi * 60000)"
    using ints(3) p(3) by (intro mul64_int) simp_all
  have m4: "mul64 (Fin s) (Fin 1000) = Fin (s * 1000)"
    using ints(4) p(4) by (intro mul64_int) simp_all
  have a1: "add64 (Fin (d * 86400000)) (Fin (h * 3600000)) =
            Fin (d * 86400000 + h * 3600000)"
    using ints sums(1) by (intro add64_int) simp_all
  have a2: "add64 (Fin (d * 86400000 + h * 3600000)) (Fin (mi * 60000)) =
            Fin (d * 86400000 + h * 3600000 + mi * 60000)"
    using ints sums(2) by (intro add64_int) simp_all
  have a3: "add64 (Fin (d * 86400000 + h * 3600000 + mi * 60000)) (Fin (s * 1000)) =
            Fin (d * 86400000 + h * 3600000 + mi * 60000 + s * 1000)"
    using ints sums(3) by (intro add64_int) simp_all
  have a4: "add64 (Fin (d * 86400000 + h * 3600000 + mi * 60000 + s * 1000)) (Fin r) =
            Fin (d * 86400000 + h * 3600000 + mi * 60000 + s * 1000 + r)"
    using ints sums(4) by (intro add64_int) simp_all
  show ?thesis
    by (simp add: convertToMilliseconds64_def prop_default_def ms_consts
        MILLISECONDS_IN_A_SECOND_def m1 m2 m3 m4 a1 a2 a3 a4)
qed

lemma step_between:
  assumes "0 < f" and "(0 \<le> r \<and> r \<le> m) \<or> (m \<le> r \<and> r \<le> 0)"
  shows "(0 \<le> r - integer_part (r / f) * f \<and> r - integer_part (r / f) * f \<le> m) \<or>
         (m \<le> r - integer_part (r / f) * f \<and> r - integer_part (r / f) * f \<le> 0)"
  using integer_part_step(2,3,4)[OF assms(1), of r] assms(2) by (cases "0 \<le> r") auto

lemma roundtrip64:
  assumes int: "m \<in> \<int>" and bound: "\<bar>m\<bar> < 2 ^ 53"
  shows "convertToMilliseconds64
           (Time_toComponents64 (Time_constructor64 [''milliseconds'' \<mapsto> Fin m])) = Fin m"
proof -
  define d where "d = integer_part (m / 86400000)"
  define r1 where "r1 = m - d * 86400000"
  define h where "h = integer_part (r1 / 3600000)"
  define r2 where "r2 = r1 - h * 3600000"
  define mi where "mi = integer_part (r2 / 60000)"
  define r3 where "r3 = r2 - mi * 60000"
  define s where "s = integer_part (r3 / 1000)"
  define r4 where "r4 = r3 - s * 1000"
  have exact: "round64 m = Fin m" using int bound by (rule int_exact)
  have b0: "(0 \<le> m \<and> m \<le> m) \<or> (m \<le> m \<and> m \<le> 0)" by auto
  have b1: "(0 \<le> r1 \<and> r1 \<le> m) \<or> (m \<le> r1 \<and> r1 \<le> 0)"
    unfolding r1_def d_def using b0 by (intro step_between) simp_all
  have b2: "(0 \<le> r2 \<and> r2 \<le> m) \<or> (m \<le> r2 \<and> r2 \<le> 0)"
    unfolding r2_def h_def using b1 by (intro step_between) simp_all
  have b3: "(0 \<le> r3 \<and> r3 \<le> m) \<or> (m \<le> r3 \<and> r3 \<le> 0)"
    unfolding r3_def mi_def using b2 by (intro step_between) simp_all
  have b4: "(0 \<le> r4 \<and> r4 \<le> m) \<or> (m \<le> r4 \<and> r4 \<le> 0)"
    unfolding r4_def s_def using b3 by (intro step_between) simp_all
  have id: "d \<in> \<int>" "h \<in> \<int>" "mi \<in> \<int>" "s \<in> \<int>"
    by (simp_all add: d_def h_def mi_def s_def integer_part_Ints)
  have ir: "r4 \<in> \<int>"
    unfolding r4_def r3_def r2_def r1_def using int id by simp
  have e1: "d * 86400000 = m - r1" by (simp add: r1_def)
  have e2: "h * 3600000 = r1 - r2" by (simp add: r2_def)
  have e3: "mi * 60000 = r2 - r3" by (simp add: r3_def)
  have e4: "s * 1000 = r3 - r4" by (simp add: r4_def)
  have obj: "Time_toComponents64 (Time_constructor64 [''milliseconds'' \<mapsto> Fin m]) =
      [''days'' \<mapsto> Fin d, ''hours'' \<mapsto> Fin h, ''minutes'' \<mapsto> Fin mi, ''seconds'' \<mapsto> Fin s,
       ''milliseconds'' \<mapsto> Fin r4]"
    by (simp only: Time_constructor64_ms[OF exact] Time_toComponents64_int[OF int bound]
        Time_toComponents_Fin Let_def r4_def s_def r3_def mi_def r2_def h_def r1_def d_def)
  have "convertToMilliseconds64
     [''days'' \<mapsto> Fin d, ''hours'' \<mapsto> Fin h, ''minutes'' \<mapsto> Fin mi, ''seconds'' \<mapsto> Fin s,
      ''milliseconds'' \<mapsto> Fin r4] =
     Fin (d * 86400000 + h * 3600000 + mi * 60000 + s * 1000 + r4)"
    using id ir
  proof (rule convertToMilliseconds64_components)
    show "\<bar>d * 86400000\<bar> < 2 ^ 53" unfolding e1 using b1 bound by auto
    show "\<bar>h * 3600000\<bar> < 2 ^ 53" unfolding e2 using b1 b2 bound by auto
    show "\<bar>mi * 60000\<bar> < 2 ^ 53" unfolding e3 using b2 b3 bound by auto
    show "\<bar>s * 1000\<bar> < 2 ^ 53" unfolding e4 using b3 b4 bound by auto
    show "\<bar>d * 86400000 + h * 3600000\<bar> < 2 ^ 53" unfolding e1 e2 using b2 bound by auto
    show "\<bar>d * 86400000 + h * 3600000 + mi * 60000\<bar> < 2 ^ 53"
      unfolding e1 e2 e3 using b3 bound by auto
    show "\<bar>d * 86400000 + h * 3600000 + mi * 60000 + s * 1000\<bar> < 2 ^ 53"
      unfolding e1 e2 e3 e4 using b4 bound by auto
    show "\<bar>d * 86400000 + h * 3600000 + mi * 60000 + s * 1000 + r4\<bar> < 2 ^ 53"
      unfolding e1 e2 e3 e4 using bound by auto
  qed
  also have "d * 86400000 + h * 3600000 + mi * 60000 + s * 1000 + r4 = m"
    unfolding e1 e2 e3 e4 by simp
  finally show ?thesis by (simp only: obj)
qed

subsection \<open>normalizeTime in binary64\<close>

lemma toMilliseconds64_VNumber:
  "round64 r = Fin r \<Longrightarrow> toMilliseconds64 p (VNumber (Fin r)) = Inr (Fin r)"
  by (simp add: toMilliseconds64_def toTimeObject_def DEFAULT_TIME_def prop_default_def ms_consts
      MILLISECONDS_IN_A_SECOND_def mul64_zero add64_zeros add64_zero_left)

lemma toMilliseconds64_single:
  assumes "c \<in> \<int>"
  shows "\<bar>c * 31557600000\<bar> < 2 ^ 53 \<Longrightarrow>
       toMilliseconds64 p (VObject [''years'' \<mapsto> Fin c]) = Inr (Fin (c * 31557600000))"
    and "\<bar>c * 2629800000\<bar> < 2 ^ 53 \<Longrightarrow>
       toMilliseconds64 p (VObject [''months'' \<mapsto> Fin c]) = Inr (Fin (c * 2629800000))"
    and "\<bar>c * 604800000\<bar> < 2 ^ 53 \<Longrightarrow>
       toMilliseconds64 p (VObject [''weeks'' \<mapsto> Fin c]) = Inr (Fin (c * 604800000))"
    and "\<bar>c * 86400000\<bar> < 2 ^ 53 \<Longrightarrow>
       toMilliseconds64 p (VObject [''days'' \<mapsto> Fin c]) = Inr (Fin (c * 86400000))"
    and "\<bar>c * 3600000\<bar> < 2 ^ 53 \<Longrightarrow>
       toMilliseconds64 p (VObject [''hours'' \<mapsto> Fin c]) = Inr (Fin (c * 3600000))"
    and "\<bar>c * 60000\<bar> < 2 ^ 53 \<Longrightarrow>
       toMilliseconds64 p (VObject [''minutes'' \<mapsto> Fin c]) = Inr (Fin (c * 60000))"
    and "\<bar>c * 1000\<bar> < 2 ^ 53 \<Longrightarrow>
       toMilliseconds64 p (VObject [''seconds'' \<mapsto> Fin c]) = Inr (Fin (c * 1000))"
    and "\<bar>c\<bar> < 2 ^ 53 \<Longrightarrow>
       toMilliseconds64 p (VObject [''milliseconds'' \<mapsto> Fin c]) = Inr (Fin c)"
proof -
  have ex: "round64 (c * f) = Fin (c * f)" if "f \<in> \<int>" "\<bar>c * f\<bar> < 2 ^ 53" for f
    using assms that by (intro int_exact) simp_all
  note defs = toMilliseconds64_def toTimeObject_def DEFAULT_TIME_def prop_default_def ms_consts
      MILLISECONDS_IN_A_SECOND_def map_add_def mul64_zero mul64_int add64_zeros add64_zero_left
      add64_zero_right
  show "\<bar>c * 31557600000\<bar> < 2 ^ 53 \<Longrightarrow>
       toMilliseconds64 p (VObject [''years'' \<mapsto> Fin c]) = Inr (Fin (c * 31557600000))"
    using assms ex[of 31557600000] by (simp add: defs)
  show "\<bar>c * 2629800000\<bar> < 2 ^ 53 \<Longrightarrow>
       toMilliseconds64 p (VObject [''months'' \<mapsto> Fin c]) = Inr (Fin (c * 2629800000))"
    using assms ex[of 2629800000] by (simp add: defs)
  show "\<bar>c * 604800000\<bar> < 2 ^ 53 \<Longrightarrow>
       toMilliseconds64 p (VObject [''weeks'' \<mapsto> Fin c]) = Inr (Fin (c * 604800000))"
    using assms ex[of 604800000] by (simp add: defs)
  show "\<bar>c * 86400000\<bar> < 2 ^ 53 \<Longrightarrow>
       toMilliseconds64 p (VObject [''days'' \<mapsto> Fin c]) = Inr (Fin (c * 86400000))"
    using assms ex[of 86400000] by (simp add: defs)
  show "\<bar>c * 3600000\<bar> < 2 ^ 53 \<Longrightarrow>
       toMilliseconds64 p (VObject [''hours'' \<mapsto> Fin c]) = Inr (Fin (c * 3600000))"
    using assms ex[of 3600000] by (simp add: defs)
  show "\<bar>c * 60000\<bar> < 2 ^ 53 \<Longrightarrow>
       toMilliseconds64 p (VObject [''minutes'' \<mapsto> Fin c]) = Inr (Fin (c * 60000))"
    using assms ex[of 60000] by (simp add: defs)
  show "\<bar>c * 1000\<bar> < 2 ^ 53 \<Longrightarrow>
       toMilliseconds64 p (VObject [''seconds'' \<mapsto> Fin c]) = Inr (Fin (c * 1000))"
    using assms ex[of 1000] by (simp add: defs)
  show "\<bar>c\<bar> < 2 ^ 53 \<Longrightarrow>
       toMilliseconds64 p (VObject [''milliseconds'' \<mapsto> Fin c]) = Inr (Fin c)"
    using assms ex[of 1] by (simp add: defs)
qed

lemma toMilliseconds64_NegZero:
  "toMilliseconds64 p (VObject [''years'' \<mapsto> NegZero]) = Inr (Fin 0)"
  "toMilliseconds64 p (VObject [''months'' \<mapsto> NegZero]) = Inr (Fin 0)"
  "toMilliseconds64 p (VObject [''weeks'' \<mapsto> NegZero]) = Inr (Fin 0)"
  "toMilliseconds64 p (VObject [''days'' \<mapsto> NegZero]) = Inr (Fin 0)"
  "toMilliseconds64 p (VObject [''hours'' \<mapsto> NegZero]) = Inr (Fin 0)"
  "toMilliseconds64 p (VObject [''minutes'' \<mapsto> NegZero]) = Inr (Fin 0)"
  "toMilliseconds64 p (VObject [''seconds'' \<mapsto> NegZero]) = Inr (Fin 0)"
  "toMilliseconds64 p (VObject [''milliseconds'' \<mapsto> NegZero]) = Inr (Fin 0)"
  by (simp_all add: toMilliseconds64_def toTimeObject_def DEFAULT_TIME_def prop_default_def
      ms_consts MILLISECONDS_IN_A_SECOND_def map_add_def mul64_zero mul64_NegZero add64_zeros)

lemma toUnit64_Fin:
  "toMilliseconds64 p t = Inr (Fin r) \<Longrightarrow> toUnit64 (Fin f) p t = Inr (div64 (Fin r) (Fin f))"
  by (simp add: toUnit64_def)

lemma div64_one: "round64 r = Fin r \<Longrightarrow> div64 (Fin r) (Fin 1) = Fin r"
  by (simp add: div64_def zero_signed_def round64_zero)

lemma int_quotient_normal35:
  assumes "(r::real) \<in> \<int>" and "1 \<le> F" and "F \<le> 2 ^ 35"
  shows "r = 0 \<or> 2 powr (- 1022) \<le> \<bar>r / of_int F\<bar>"
proof (cases "r = 0")
  case True
  then show ?thesis by simp
next
  case False
  from assms(1) obtain n :: int where r: "r = of_int n" by (auto elim: Ints_cases)
  have "n \<noteq> 0" using False r by simp
  then have "1 \<le> \<bar>n\<bar>" by simp
  then have "(of_int 1 :: real) \<le> of_int \<bar>n\<bar>" by (simp only: of_int_le_iff)
  then have r1: "1 \<le> \<bar>r\<bar>" by (simp add: r)
  have "(of_int F :: real) \<le> of_int (2 ^ 35)" using assms(3) by (simp only: of_int_le_iff)
  then have Fr: "(of_int F :: real) \<le> 2 ^ 35" by simp
  have Fpos: "(0::real) < of_int F" using assms(2) by simp
  have "(2::real) powr (- 1022) \<le> 2 powr (- 35)" by (rule powr_mono) simp_all
  also have "\<dots> = 1 / 2 ^ 35"
  proof -
    have "(2::real) powr (- real 35) = 1 / 2 powr (real 35)" by (rule powr_minus_divide)
    also have "(2::real) powr (real 35) = 2 ^ 35" by (rule powr_realpow) simp
    finally show ?thesis by simp
  qed
  also have "\<dots> \<le> 1 / of_int F" using Fr Fpos by (simp add: field_simps)
  also have "\<dots> \<le> \<bar>r\<bar> / of_int F" using r1 Fpos by (simp add: divide_right_mono)
  also have "\<dots> = \<bar>r / of_int F\<bar>" using Fpos by simp
  finally show ?thesis by simp
qed

text \<open>One step of the loop of \<open>normalizeTime\<close> in binary64.\<close>

lemma loop64_step:
  assumes rel: "unit_rel64 (key, conv) (key', f)"
    and ms: "toMilliseconds64 p tally = Inr (Fin r)"
    and grid: "on_grid J r" and J: "J \<le> 1074"
  shows "(floorTowardsZero (div64 (Fin r) (Fin f)) = Fin (integer_part (r / f)) \<or>
          (r < 0 \<and> integer_part (r / f) = 0 \<and>
           floorTowardsZero (div64 (Fin r) (Fin f)) = NegZero)) \<and>
         normalize_loop64 p ((key, conv) # us) tally out =
           normalize_loop64 p us (VNumber (Fin (r - integer_part (r / f) * f)))
             (out(key \<mapsto> floorTowardsZero (div64 (Fin r) (Fin f)))) \<and>
         toMilliseconds64 p (VNumber (Fin (r - integer_part (r / f) * f))) =
           Inr (Fin (r - integer_part (r / f) * f)) \<and>
         on_grid J (r - integer_part (r / f) * f)"
proof -
  have r_exact: "round64 r = Fin r" using grid J by (rule on_grid_exact)
  from rel obtain F :: int where f: "f = of_int F" and F1: "1 \<le> F"
    and conv: "conv p tally = Inr (div64 (Fin r) (Fin f))"
    and single: "\<And>c. c \<in> \<int> \<Longrightarrow> \<bar>c * f\<bar> < 2 ^ 53 \<Longrightarrow>
        toMilliseconds64 p (VObject [key \<mapsto> Fin c]) = Inr (Fin (c * f))"
    and negzero: "toMilliseconds64 p (VObject [key \<mapsto> NegZero]) = Inr (Fin 0)"
    using ms r_exact by (auto simp: unit_rel64_def)
  have fpos: "0 < f" using F1 by (simp add: f)
  have fint: "f \<in> \<int>" by (simp add: f)
  define c where "c = integer_part (r / f)"
  define v where "v = floorTowardsZero (div64 (Fin r) (Fin f))"
  have rb: "\<bar>r\<bar> < 2 ^ 53" using grid by (rule on_grid_abs)
  have q: "v = Fin c \<or> (r < 0 \<and> c = 0 \<and> v = NegZero)"
    using quotient_step[OF grid F1] by (simp add: v_def c_def f)
  have z: "c * f \<in> \<int>" using fint by (simp add: c_def integer_part_Ints)
  have le: "\<bar>r - c * f\<bar> \<le> \<bar>r\<bar>" unfolding c_def using fpos by (rule integer_part_step(2))
  have cb: "\<bar>c * f\<bar> < 2 ^ 53"
    using integer_part_step(1)[OF fpos, of r] rb unfolding c_def by linarith
  have g': "on_grid J (r - c * f)" using grid z le by (rule on_grid_diff)
  then have ex': "round64 (r - c * f) = Fin (r - c * f)" using J by (rule on_grid_exact)
  have sub: "subtractTime64 p tally (VObject [key \<mapsto> v]) = Inr (Fin (r - c * f))"
  proof (cases "v = Fin c")
    case True
    have "toMilliseconds64 p (VObject [key \<mapsto> Fin c]) = Inr (Fin (c * f))"
      using _ cb by (rule single) (simp add: c_def integer_part_Ints)
    moreover have "sub64 (Fin r) (Fin (c * f)) = Fin (r - c * f)"
      using grid J z le by (rule sub64_grid)
    ultimately show ?thesis by (simp add: subtractTime64_def ms True)
  next
    case False
    with q have c0: "c = 0" and vz: "v = NegZero" by simp_all
    have "sub64 (Fin r) (Fin 0) = Fin r"
      using r_exact by (simp add: sub64_def js_sub_def)
    then show ?thesis by (simp add: subtractTime64_def ms vz negzero c0)
  qed
  have loop: "normalize_loop64 p ((key, conv) # us) tally out =
        normalize_loop64 p us (VNumber (Fin (r - c * f))) (out(key \<mapsto> v))"
    by (simp add: conv v_def[symmetric] sub)
  have nxt: "toMilliseconds64 p (VNumber (Fin (r - c * f))) = Inr (Fin (r - c * f))"
    using ex' by (rule toMilliseconds64_VNumber)
  from q loop nxt g' show ?thesis unfolding c_def v_def by blast
qed

lemma loop64_step_int:
  assumes rel: "unit_rel64 (key, conv) (key', f)"
    and ms: "toMilliseconds64 p tally = Inr (Fin r)"
    and int: "r \<in> \<int>" and bound: "\<bar>r\<bar> < 2 ^ 53"
  shows "normalize_loop64 p ((key, conv) # us) tally out =
           normalize_loop64 p us (VNumber (Fin (r - integer_part (r / f) * f)))
             (out(key \<mapsto> Fin (integer_part (r / f))))"
    and "toMilliseconds64 p (VNumber (Fin (r - integer_part (r / f) * f))) =
           Inr (Fin (r - integer_part (r / f) * f))"
    and "r - integer_part (r / f) * f \<in> \<int>"
    and "\<bar>r - integer_part (r / f) * f\<bar> < 2 ^ 53"
proof -
  from int obtain n :: int where r: "r = of_int n" by (auto elim: Ints_cases)
  have "(of_int \<bar>n\<bar> :: real) < of_int (2 ^ 53)" using bound by (simp add: r)
  then have "\<bar>n\<bar> < 2 ^ 53" by (simp only: of_int_less_iff)
  then have grid: "on_grid 0 r" unfolding r by (rule on_grid_int)
  from rel obtain F :: int where f: "f = of_int F" and F1: "1 \<le> F" and F2: "F \<le> 2 ^ 35"
    by (auto simp: unit_rel64_def)
  have fpos: "0 < f" using F1 by (simp add: f)
  note step = loop64_step[OF rel ms grid, of us out]
  have "floorTowardsZero (div64 (Fin r) (Fin (of_int F))) = Fin (integer_part (r / of_int F))"
    using grid F1 int_quotient_normal35[OF int F1 F2] by (rule div64_trunc)
  then have c: "floorTowardsZero (div64 (Fin r) (Fin f)) = Fin (integer_part (r / f))"
    by (simp add: f)
  from step show "normalize_loop64 p ((key, conv) # us) tally out =
           normalize_loop64 p us (VNumber (Fin (r - integer_part (r / f) * f)))
             (out(key \<mapsto> Fin (integer_part (r / f))))"
    by (simp add: c)
  from step show "toMilliseconds64 p (VNumber (Fin (r - integer_part (r / f) * f))) =
           Inr (Fin (r - integer_part (r / f) * f))"
    by simp
  show "r - integer_part (r / f) * f \<in> \<int>"
    using int by (simp add: f integer_part_Ints)
  show "\<bar>r - integer_part (r / f) * f\<bar> < 2 ^ 53"
    using integer_part_step(2)[OF fpos, of r] bound by linarith
qed

lemma normalize_loop64_int:
  assumes "list_all2 unit_rel64 us fs" and "toMilliseconds64 p tally = Inr (Fin r)"
    and "r \<in> \<int>" and "\<bar>r\<bar> < 2 ^ 53"
  shows "normalize_loop64 p us tally out = Inr (assign_all (greedy_spec fs r) out)"
  using assms
proof (induction us fs arbitrary: tally r out rule: list_all2_induct)
  case Nil
  then show ?case by (simp add: assign_all_def)
next
  case (Cons u us kf fs)
  obtain key conv where u: "u = (key, conv)" by (cases u)
  obtain key' f where kf: "kf = (key', f)" by (cases kf)
  from Cons.hyps(1) have rel: "unit_rel64 (key, conv) (key', f)" by (simp add: u kf)
  then have key: "key' = key" by (simp add: unit_rel64_def)
  define c where "c = integer_part (r / f)"
  note step = loop64_step_int[OF rel Cons.prems(1) Cons.prems(2) Cons.prems(3)]
  have "normalize_loop64 p (u # us) tally out =
        normalize_loop64 p us (VNumber (Fin (r - c * f))) (out(key \<mapsto> Fin c))"
    unfolding u c_def by (rule step(1))
  also have "\<dots> = Inr (assign_all (greedy_spec fs (r - c * f)) (out(key \<mapsto> Fin c)))"
    unfolding c_def by (rule Cons.IH[OF step(2) step(3) step(4)])
  also have "\<dots> = Inr (assign_all (greedy_spec (kf # fs) r) out)"
    by (simp add: kf key assign_all_def c_def Let_def)
  finally show ?case .
qed

lemma normalize_loop64_nonpos:
  assumes "list_all2 unit_rel64 us fs" and "toMilliseconds64 p tally = Inr (Fin r)"
    and "on_grid J r" and "J \<le> 1074" and "r \<le> 0"
    and "\<And>k v. out k = Some v \<Longrightarrow> v = NegZero \<or> (\<exists>x. v = Fin x \<and> x \<le> 0)"
  shows "\<exists>out'. normalize_loop64 p us tally out = Inr out' \<and>
           (\<forall>k v. out' k = Some v \<longrightarrow> v = NegZero \<or> (\<exists>x. v = Fin x \<and> x \<le> 0))"
  using assms
proof (induction us fs arbitrary: tally r out rule: list_all2_induct)
  case Nil
  then show ?case by simp
next
  case (Cons u us kf fs)
  obtain key conv where u: "u = (key, conv)" by (cases u)
  obtain key' f where kf: "kf = (key', f)" by (cases kf)
  from Cons.hyps(1) have rel: "unit_rel64 (key, conv) (key', f)" by (simp add: u kf)
  then have fpos: "0 < f" by (auto simp: unit_rel64_def)
  define c where "c = integer_part (r / f)"
  define v where "v = floorTowardsZero (div64 (Fin r) (Fin f))"
  note step = loop64_step[OF rel Cons.prems(1) Cons.prems(2) Cons.prems(3), of us out]
  have n: "c \<le> 0 \<and> r - c * f \<le> 0"
    unfolding c_def using fpos Cons.prems(4) by (rule integer_part_step(3))
  from step have q: "v = Fin c \<or> v = NegZero" by (auto simp: v_def c_def)
  have out: "\<And>k w. (out(key \<mapsto> v)) k = Some w \<Longrightarrow>
      w = NegZero \<or> (\<exists>x. w = Fin x \<and> x \<le> 0)"
    using q n Cons.prems(5) by (auto split: if_splits)
  from step have loop: "normalize_loop64 p (u # us) tally out =
        normalize_loop64 p us (VNumber (Fin (r - c * f))) (out(key \<mapsto> v))"
    by (simp add: u v_def c_def)
  from step have nxt: "toMilliseconds64 p (VNumber (Fin (r - c * f))) = Inr (Fin (r - c * f))"
    and g: "on_grid J (r - c * f)"
    by (simp_all add: c_def)
  from Cons.IH[OF nxt g Cons.prems(3) conjunct2[OF n] out] show ?case
    by (simp only: loop)
qed

lemma units_rel64: "list_all2 unit_rel64 units64 unit_factors"
proof -
  have rel: "unit_rel64 (key, toUnit64 (Fin (of_int F))) (key, of_int F)"
    if "1 \<le> F" "F \<le> 2 ^ 35"
      and "\<And>p c. c \<in> \<int> \<Longrightarrow> \<bar>c * of_int F\<bar> < 2 ^ 53 \<Longrightarrow>
        toMilliseconds64 p (VObject [key \<mapsto> Fin c]) = Inr (Fin (c * of_int F))"
      and "\<And>p. toMilliseconds64 p (VObject [key \<mapsto> NegZero]) = Inr (Fin 0)"
    for key F
    unfolding unit_rel64_def using that by (auto simp: toUnit64_Fin)
  have ms: "unit_rel64 (''milliseconds'', toMilliseconds64) (''milliseconds'', of_int 1)"
    unfolding unit_rel64_def
    by (auto simp: toMilliseconds64_single toMilliseconds64_NegZero div64_def zero_signed_def
        round64_zero)
  have fs: "unit_factors =
     [(''years'', of_int 31557600000), (''months'', of_int 2629800000),
      (''weeks'', of_int 604800000), (''days'', of_int 86400000), (''hours'', of_int 3600000),
      (''minutes'', of_int 60000), (''seconds'', of_int 1000), (''milliseconds'', of_int 1)]"
    by (simp add: unit_factors_def)
  have us: "units64 =
     [(''years'', toUnit64 (Fin (of_int 31557600000))),
      (''months'', toUnit64 (Fin (of_int 2629800000))),
      (''weeks'', toUnit64 (Fin (of_int 604800000))),
      (''days'', toUnit64 (Fin (of_int 86400000))),
      (''hours'', toUnit64 (Fin (of_int 3600000))),
      (''minutes'', toUnit64 (Fin (of_int 60000))),
      (''seconds'', toUnit64 (Fin (of_int 1000))),
      (''milliseconds'', toMilliseconds64)]"
    by (simp add: units64_def toYears64_def toMonths64_def toWeeks64_def toDays64_def
        toHours64_def toMinutes64_def toSeconds64_def ms_consts MILLISECONDS_IN_A_SECOND_def)
  have r1: "unit_rel64 (''years'', toUnit64 (Fin (of_int 31557600000))) (''years'', of_int 31557600000)"
    by (rule rel) (simp_all add: toMilliseconds64_single toMilliseconds64_NegZero)
  have r2: "unit_rel64 (''months'', toUnit64 (Fin (of_int 2629800000))) (''months'', of_int 2629800000)"
    by (rule rel) (simp_all add: toMilliseconds64_single toMilliseconds64_NegZero)
  have r3: "unit_rel64 (''weeks'', toUnit64 (Fin (of_int 604800000))) (''weeks'', of_int 604800000)"
    by (rule rel) (simp_all add: toMilliseconds64_single toMilliseconds64_NegZero)
  have r4: "unit_rel64 (''days'', toUnit64 (Fin (of_int 86400000))) (''days'', of_int 86400000)"
    by (rule rel) (simp_all add: toMilliseconds64_single toMilliseconds64_NegZero)
  have r5: "unit_rel64 (''hours'', toUnit64 (Fin (of_int 3600000))) (''hours'', of_int 3600000)"
    by (rule rel) (simp_all add: toMilliseconds64_single toMilliseconds64_NegZero)
  have r6: "unit_rel64 (''minutes'', toUnit64 (Fin (of_int 60000))) (''minutes'', of_int 60000)"
    by (rule rel) (simp_all add: toMilliseconds64_single toMilliseconds64_NegZero)
  have r7: "unit_rel64 (''seconds'', toUnit64 (Fin (of_int 1000))) (''seconds'', of_int 1000)"
    by (rule rel) (simp_all add: toMilliseconds64_single toMilliseconds64_NegZero)
  show ?thesis
    unfolding fs us using r1 r2 r3 r4 r5 r6 r7 ms by (simp only: list_all2_Cons list_all2_Nil simp_thms)
qed

lemma normalizeTime64_int:
  "toMilliseconds64 p time = Inr (Fin m) \<Longrightarrow> m \<in> \<int> \<Longrightarrow> \<bar>m\<bar> < 2 ^ 53 \<Longrightarrow>
   normalizeTime64 p time = Inr (assign_all (greedy_spec unit_factors m) DEFAULT_TIME)"
  unfolding normalizeTime64_def by (rule normalize_loop64_int[OF units_rel64])

lemma normalizeTime64_nonpos:
  assumes ms: "toMilliseconds64 p time = Inr (Fin m)"
    and dbl: "round64 m = Fin m" and bound: "- (2 ^ 53) < m" and neg: "m \<le> 0"
  shows "\<exists>out. normalizeTime64 p time = Inr out \<and>
           (\<forall>k v. out k = Some v \<longrightarrow> v = NegZero \<or> (\<exists>x. v = Fin x \<and> x \<le> 0))"
proof -
  from bound neg have "\<bar>m\<bar> < 2 ^ 53" by simp
  with dbl obtain J where J: "J \<le> 1074" and grid: "on_grid J m"
    using binary64_on_grid by blast
  have d: "\<And>k v. DEFAULT_TIME k = Some v \<Longrightarrow> v = NegZero \<or> (\<exists>x. v = Fin x \<and> x \<le> 0)"
    by (auto simp: DEFAULT_TIME_def split: if_splits)
  show ?thesis
    unfolding normalizeTime64_def
    using units_rel64 ms grid J neg d by (rule normalize_loop64_nonpos)
qed

lemma toMilliseconds64_components:
  assumes ints: "c1 \<in> \<int>" "c2 \<in> \<int>" "c3 \<in> \<int>" "c4 \<in> \<int>" "c5 \<in> \<int>" "c6 \<in> \<int>" "c7 \<in> \<int>"
      "c8 \<in> \<int>"
    and p: "\<bar>c1 * 31557600000\<bar> < 2 ^ 53" "\<bar>c2 * 2629800000\<bar> < 2 ^ 53"
      "\<bar>c3 * 604800000\<bar> < 2 ^ 53" "\<bar>c4 * 86400000\<bar> < 2 ^ 53" "\<bar>c5 * 3600000\<bar> < 2 ^ 53"
      "\<bar>c6 * 60000\<bar> < 2 ^ 53" "\<bar>c7 * 1000\<bar> < 2 ^ 53"
    and sums: "\<bar>c1 * 31557600000 + c2 * 2629800000\<bar> < 2 ^ 53"
      "\<bar>c1 * 31557600000 + c2 * 2629800000 + c3 * 604800000\<bar> < 2 ^ 53"
      "\<bar>c1 * 31557600000 + c2 * 2629800000 + c3 * 604800000 + c4 * 86400000\<bar> < 2 ^ 53"
      "\<bar>c1 * 31557600000 + c2 * 2629800000 + c3 * 604800000 + c4 * 86400000 +
        c5 * 3600000\<bar> < 2 ^ 53"
      "\<bar>c1 * 31557600000 + c2 * 2629800000 + c3 * 604800000 + c4 * 86400000 +
        c5 * 3600000 + c6 * 60000\<bar> < 2 ^ 53"
      "\<bar>c1 * 31557600000 + c2 * 2629800000 + c3 * 604800000 + c4 * 86400000 +
        c5 * 3600000 + c6 * 60000 + c7 * 1000\<bar> < 2 ^ 53"
      "\<bar>c1 * 31557600000 + c2 * 2629800000 + c3 * 604800000 + c4 * 86400000 +
        c5 * 3600000 + c6 * 60000 + c7 * 1000 + c8\<bar> < 2 ^ 53"
  shows "toMilliseconds64 p (VObject
     [''years'' \<mapsto> Fin c1, ''months'' \<mapsto> Fin c2, ''weeks'' \<mapsto> Fin c3, ''days'' \<mapsto> Fin c4,
      ''hours'' \<mapsto> Fin c5, ''minutes'' \<mapsto> Fin c6, ''seconds'' \<mapsto> Fin c7,
      ''milliseconds'' \<mapsto> Fin c8]) =
   Inr (Fin (c1 * 31557600000 + c2 * 2629800000 + c3 * 604800000 + c4 * 86400000 +
             c5 * 3600000 + c6 * 60000 + c7 * 1000 + c8))"
proof -
  have m1: "mul64 (Fin c1) (Fin 31557600000) = Fin (c1 * 31557600000)"
    using ints(1) p(1) by (intro mul64_int) simp_all
  have m2: "mul64 (Fin c2) (Fin 2629800000) = Fin (c2 * 2629800000)"
    using ints(2) p(2) by (intro mul64_int) simp_all
  have m3: "mul64 (Fin c3) (Fin 604800000) = Fin (c3 * 604800000)"
    using ints(3) p(3) by (intro mul64_int) simp_all
  have m4: "mul64 (Fin c4) (Fin 86400000) = Fin (c4 * 86400000)"
    using ints(4) p(4) by (intro mul64_int) simp_all
  have m5: "mul64 (Fin c5) (Fin 3600000) = Fin (c5 * 3600000)"
    using ints(5) p(5) by (intro mul64_int) simp_all
  have m6: "mul64 (Fin c6) (Fin 60000) = Fin (c6 * 60000)"
    using ints(6) p(6) by (intro mul64_int) simp_all
  have m7: "mul64 (Fin c7) (Fin 1000) = Fin (c7 * 1000)"
    using ints(7) p(7) by (intro mul64_int) simp_all
  have a1: "add64 (Fin (c1 * 31557600000)) (Fin (c2 * 2629800000)) =
            Fin (c1 * 31557600000 + c2 * 2629800000)"
    using ints sums(1) by (intro add64_int) simp_all
  have a2: "add64 (Fin (c1 * 31557600000 + c2 * 2629800000)) (Fin (c3 * 604800000)) =
            Fin (c1 * 31557600000 + c2 * 2629800000 + c3 * 604800000)"
    using ints sums(2) by (intro add64_int) simp_all
  have a3: "add64 (Fin (c1 * 31557600000 + c2 * 2629800000 + c3 * 604800000))
              (Fin (c4 * 86400000)) =
            Fin (c1 * 31557600000 + c2 * 2629800000 + c3 * 604800000 + c4 * 86400000)"
    using ints sums(3) by (intro add64_int) simp_all
  have a4: "add64 (Fin (c1 * 31557600000 + c2 * 2629800000 + c3 * 604800000 + c4 * 86400000))
              (Fin (c5 * 3600000)) =
            Fin (c1 * 31557600000 + c2 * 2629800000 + c3 * 604800000 + c4 * 86400000 +
                 c5 * 3600000)"
    using ints sums(4) by (intro add64_int) simp_all
  have a5: "add64 (Fin (c1 * 31557600000 + c2 * 2629800000 + c3 * 604800000 + c4 * 86400000 +
                 c5 * 3600000)) (Fin (c6 * 60000)) =
            Fin (c1 * 31557600000 + c2 * 2629800000 + c3 * 604800000 + c4 * 86400000 +
                 c5 * 3600000 + c6 * 60000)"
    using ints sums(5) by (intro add64_int) simp_all
  have a6: "add64 (Fin (c1 * 31557600000 + c2 * 2629800000 + c3 * 604800000 + c4 * 86400000 +
                 c5 * 3600000 + c6 * 60000)) (Fin (c7 * 1000)) =
            Fin (c1 * 31557600000 + c2 * 2629800000 + c3 * 604800000 + c4 * 86400000 +
                 c5 * 3600000 + c6 * 60000 + c7 * 1000)"
    using ints sums(6) by (intro add64_int) simp_all
  have a7: "add64 (Fin (c1 * 31557600000 + c2 * 2629800000 + c3 * 604800000 + c4 * 86400000 +
                 c5 * 3600000 + c6 * 60000 + c7 * 1000)) (Fin c8) =
            Fin (c1 * 31557600000 + c2 * 2629800000 + c3 * 604800000 + c4 * 86400000 +
                 c5 * 3600000 + c6 * 60000 + c7 * 1000 + c8)"
    using ints sums(7) by (intro add64_int) simp_all
  show ?thesis
    by (simp add: toMilliseconds64_def toTimeObject_def DEFAULT_TIME_def prop_default_def ms_consts
        MILLISECONDS_IN_A_SECOND_def map_add_def m1 m2 m3 m4 m5 m6 m7 a1 a2 a3 a4 a5 a6 a7)
qed

lemma normalizeTime64_roundtrip:
  assumes int: "m \<in> \<int>" and bound: "\<bar>m\<bar> < 2 ^ 53"
  shows "\<exists>out. normalizeTime64 p (VNumber (Fin m)) = Inr out \<and>
           toMilliseconds64 p (VObject out) = Inr (Fin m)"
proof -
  define c1 where "c1 = integer_part (m / 31557600000)"
  define r1 where "r1 = m - c1 * 31557600000"
  define c2 where "c2 = integer_part (r1 / 2629800000)"
  define r2 where "r2 = r1 - c2 * 2629800000"
  define c3 where "c3 = integer_part (r2 / 604800000)"
  define r3 where "r3 = r2 - c3 * 604800000"
  define c4 where "c4 = integer_part (r3 / 86400000)"
  define r4 where "r4 = r3 - c4 * 86400000"
  define c5 where "c5 = integer_part (r4 / 3600000)"
  define r5 where "r5 = r4 - c5 * 3600000"
  define c6 where "c6 = integer_part (r5 / 60000)"
  define r6 where "r6 = r5 - c6 * 60000"
  define c7 where "c7 = integer_part (r6 / 1000)"
  define r7 where "r7 = r6 - c7 * 1000"
  define c8 where "c8 = integer_part (r7 / 1)"
  have exact: "round64 m = Fin m" using int bound by (rule int_exact)
  have ms: "toMilliseconds64 p (VNumber (Fin m)) = Inr (Fin m)"
    using exact by (rule toMilliseconds64_VNumber)
  have b0: "(0 \<le> m \<and> m \<le> m) \<or> (m \<le> m \<and> m \<le> 0)" by auto
  have b1: "(0 \<le> r1 \<and> r1 \<le> m) \<or> (m \<le> r1 \<and> r1 \<le> 0)"
    unfolding r1_def c1_def using b0 by (intro step_between) simp_all
  have b2: "(0 \<le> r2 \<and> r2 \<le> m) \<or> (m \<le> r2 \<and> r2 \<le> 0)"
    unfolding r2_def c2_def using b1 by (intro step_between) simp_all
  have b3: "(0 \<le> r3 \<and> r3 \<le> m) \<or> (m \<le> r3 \<and> r3 \<le> 0)"
    unfolding r3_def c3_def using b2 by (intro step_between) simp_all
  have b4: "(0 \<le> r4 \<and> r4 \<le> m) \<or> (m \<le> r4 \<and> r4 \<le> 0)"
    unfolding r4_def c4_def using b3 by (intro step_between) simp_all
  have b5: "(0 \<le> r5 \<and> r5 \<le> m) \<or> (m \<le> r5 \<and> r5 \<le> 0)"
    unfolding r5_def c5_def using b4 by (intro step_between) simp_all
  have b6: "(0 \<le> r6 \<and> r6 \<le> m) \<or> (m \<le> r6 \<and> r6 \<le> 0)"
    unfolding r6_def c6_def using b5 by (intro step_between) simp_all
  have b7: "(0 \<le> r7 \<and> r7 \<le> m) \<or> (m \<le> r7 \<and> r7 \<le> 0)"
    unfolding r7_def c7_def using b6 by (intro step_between) simp_all
  have ic: "c1 \<in> \<int>" "c2 \<in> \<int>" "c3 \<in> \<int>" "c4 \<in> \<int>" "c5 \<in> \<int>" "c6 \<in> \<int>" "c7 \<in> \<int>" "c8 \<in> \<int>"
    by (simp_all add: c1_def c2_def c3_def c4_def c5_def c6_def c7_def c8_def integer_part_Ints)
  have ir: "r7 \<in> \<int>"
    unfolding r7_def r6_def r5_def r4_def r3_def r2_def r1_def using int ic by simp
  then obtain n :: int where n: "r7 = of_int n" by (auto elim: Ints_cases)
  have e8: "c8 = r7" by (simp add: c8_def n integer_part_of_int)
  have e1: "c1 * 31557600000 = m - r1" by (simp add: r1_def)
  have e2: "c2 * 2629800000 = r1 - r2" by (simp add: r2_def)
  have e3: "c3 * 604800000 = r2 - r3" by (simp add: r3_def)
  have e4: "c4 * 86400000 = r3 - r4" by (simp add: r4_def)
  have e5: "c5 * 3600000 = r4 - r5" by (simp add: r5_def)
  have e6: "c6 * 60000 = r5 - r6" by (simp add: r6_def)
  have e7: "c7 * 1000 = r6 - r7" by (simp add: r7_def)
  have g: "greedy_spec unit_factors m =
     [(''years'', c1), (''months'', c2), (''weeks'', c3), (''days'', c4), (''hours'', c5),
      (''minutes'', c6), (''seconds'', c7), (''milliseconds'', c8)]"
    by (simp only: unit_factors_def greedy_spec.simps Let_def c8_def r7_def c7_def r6_def c6_def
        r5_def c5_def r4_def c4_def r3_def c3_def r2_def c2_def r1_def c1_def)
  have norm: "normalizeTime64 p (VNumber (Fin m)) =
      Inr [''years'' \<mapsto> Fin c1, ''months'' \<mapsto> Fin c2, ''weeks'' \<mapsto> Fin c3, ''days'' \<mapsto> Fin c4,
           ''hours'' \<mapsto> Fin c5, ''minutes'' \<mapsto> Fin c6, ''seconds'' \<mapsto> Fin c7,
           ''milliseconds'' \<mapsto> Fin c8]"
    by (simp only: normalizeTime64_int[OF ms int bound] g assign_all_shape)
  have "toMilliseconds64 p (VObject
     [''years'' \<mapsto> Fin c1, ''months'' \<mapsto> Fin c2, ''weeks'' \<mapsto> Fin c3, ''days'' \<mapsto> Fin c4,
      ''hours'' \<mapsto> Fin c5, ''minutes'' \<mapsto> Fin c6, ''seconds'' \<mapsto> Fin c7,
      ''milliseconds'' \<mapsto> Fin c8]) =
   Inr (Fin (c1 * 31557600000 + c2 * 2629800000 + c3 * 604800000 + c4 * 86400000 +
             c5 * 3600000 + c6 * 60000 + c7 * 1000 + c8))"
    using ic
  proof (rule toMilliseconds64_components)
    show "\<bar>c1 * 31557600000\<bar> < 2 ^ 53" unfolding e1 using b1 bound by auto
    show "\<bar>c2 * 2629800000\<bar> < 2 ^ 53" unfolding e2 using b1 b2 bound by auto
    show "\<bar>c3 * 604800000\<bar> < 2 ^ 53" unfolding e3 using b2 b3 bound by auto
    show "\<bar>c4 * 86400000\<bar> < 2 ^ 53" unfolding e4 using b3 b4 bound by auto
    show "\<bar>c5 * 3600000\<bar> < 2 ^ 53" unfolding e5 using b4 b5 bound by auto
    show "\<bar>c6 * 60000\<bar> < 2 ^ 53" unfolding e6 using b5 b6 bound by auto
    show "\<bar>c7 * 1000\<bar> < 2 ^ 53" unfolding e7 using b6 b7 bound by auto
    show "\<bar>c1 * 31557600000 + c2 * 2629800000\<bar> < 2 ^ 53"
      unfolding e1 e2 using b2 bound by auto
    show "\<bar>c1 * 31557600000 + c2 * 2629800000 + c3 * 604800000\<bar> < 2 ^ 53"
      unfolding e1 e2 e3 using b3 bound by auto
    show "\<bar>c1 * 31557600000 + c2 * 2629800000 + c3 * 604800000 + c4 * 86400000\<bar> < 2 ^ 53"
      unfolding e1 e2 e3 e4 using b4 bound by auto
    show "\<bar>c1 * 31557600000 + c2 * 2629800000 + c3 * 604800000 + c4 * 86400000 +
        c5 * 3600000\<bar> < 2 ^ 53"
      unfolding e1 e2 e3 e4 e5 using b5 bound by auto
    show "\<bar>c1 * 31557600000 + c2 * 2629800000 + c3 * 604800000 + c4 * 86400000 +
        c5 * 3600000 + c6 * 60000\<bar> < 2 ^ 53"
      unfolding e1 e2 e3 e4 e5 e6 using b6 bound by auto
    show "\<bar>c1 * 31557600000 + c2 * 2629800000 + c3 * 604800000 + c4 * 86400000 +
        c5 * 3600000 + c6 * 60000 + c7 * 1000\<bar> < 2 ^ 53"
      unfolding e1 e2 e3 e4 e5 e6 e7 using b7 bound by auto
    show "\<bar>c1 * 31557600000 + c2 * 2629800000 + c3 * 604800000 + c4 * 86400000 +
        c5 * 3600000 + c6 * 60000 + c7 * 1000 + c8\<bar> < 2 ^ 53"
      unfolding e1 e2 e3 e4 e5 e6 e7 e8 using bound by auto
  qed
  also have "c1 * 31557600000 + c2 * 2629800000 + c3 * 604800000 + c4 * 86400000 +
             c5 * 3600000 + c6 * 60000 + c7 * 1000 + c8 = m"
    unfolding e1 e2 e3 e4 e5 e6 e7 e8 by simp
  finally show ?thesis by (simp only: norm sum.inject simp_thms ex_simps)
qed

lemma toMilliseconds64_example:
  "toMilliseconds64 p (VObject [''days'' \<mapsto> Fin (- 1), ''milliseconds'' \<mapsto> Fin 1]) =
        Inr (Fin (- 86399999))"
proof -
  have m: "mul64 (Fin (- 1)) (Fin 86400000) = Fin (- 86400000)"
    using mul64_int[of "- 1" 86400000] by simp
  have a: "add64 (Fin (- 86400000)) (Fin 1) = Fin (- 86399999)"
    using add64_int[of "- 86400000" 1] by simp
  have z: "add64 (Fin 0) (Fin (- 86400000)) = Fin (- 86400000)"
    using add64_int[of 0 "- 86400000"] by simp
  have z': "add64 (Fin (- 86400000)) (Fin 0) = Fin (- 86400000)"
    using add64_int[of "- 86400000" 0] by simp
  show ?thesis
    by (simp add: toMilliseconds64_def toTimeObject_def DEFAULT_TIME_def prop_default_def ms_consts
      MILLISECONDS_IN_A_SECOND_def map_add_def mul64_zero add64_zeros m a z z')
qed

lemma normalizeTime64_example:
  "normalizeTime64 p (VObject [''days'' \<mapsto> Fin (- 1), ''milliseconds'' \<mapsto> Fin 1]) =
   Inr [''years'' \<mapsto> Fin 0, ''months'' \<mapsto> Fin 0, ''weeks'' \<mapsto> Fin 0, ''days'' \<mapsto> Fin 0,
        ''hours'' \<mapsto> Fin (- 23), ''minutes'' \<mapsto> Fin (- 59), ''seconds'' \<mapsto> Fin (- 59),
        ''milliseconds'' \<mapsto> Fin (- 999)]"
proof -
  note ms = toMilliseconds64_example[of p]
  have g: "greedy_spec unit_factors (- 86399999) =
     [(''years'', 0), (''months'', 0), (''weeks'', 0), (''days'', 0), (''hours'', - 23),
      (''minutes'', - 59), (''seconds'', - 59), (''milliseconds'', - 999)]"
    by (simp add: unit_factors_def integer_part_alt)
  have "normalizeTime64 p (VObject [''days'' \<mapsto> Fin (- 1), ''milliseconds'' \<mapsto> Fin 1]) =
      Inr (assign_all (greedy_spec unit_factors (- 86399999)) DEFAULT_TIME)"
    using ms by (rule normalizeTime64_int) simp_all
  then show ?thesis
    by (simp only: g assign_all_shape)
qed

subsection \<open>Two runs of the class in binary64\<close>

text \<open>The round trip of the class at \<open>10 ^ 19\<close> milliseconds, step by step.\<close>

lemma binary64_roundtrip_at_1e19:
  "Time_constructor64 [''milliseconds'' \<mapsto> Fin 10000000000000000000] = \<lparr>milliseconds = Fin 10000000000000000000\<rparr> \<and>
   Time_toComponents64 (Time_constructor64 [''milliseconds'' \<mapsto> Fin 10000000000000000000]) =
     [''days'' \<mapsto> Fin 115740740740, ''hours'' \<mapsto> Fin 17, ''minutes'' \<mapsto> Fin 46, ''seconds'' \<mapsto> Fin 40, ''milliseconds'' \<mapsto> Fin 0] \<and>
   convertToMilliseconds64 (Time_toComponents64 (Time_constructor64 [''milliseconds'' \<mapsto> Fin 10000000000000000000])) =
     Fin 10000000000000002048"
proof -
  have a1: "mul64 (Fin 0) (Fin 86400000) = Fin 0"
    by (simp add: mul64_def zero_signed_def round64_zero)
  have a2: "mul64 (Fin 0) (Fin 3600000) = Fin 0"
    by (simp add: mul64_def zero_signed_def round64_zero)
  have a3: "mul64 (Fin 0) (Fin 60000) = Fin 0"
    by (simp add: mul64_def zero_signed_def round64_zero)
  have a4: "mul64 (Fin 0) (Fin 1000) = Fin 0"
    by (simp add: mul64_def zero_signed_def round64_zero)
  have a5: "add64 (Fin 0) (Fin 0) = Fin 0"
    by (simp add: add64_def round64_zero)
  have a6: "add64 (Fin 0) (Fin 10000000000000000000) = Fin 10000000000000000000"
    by (simp add: add64_def round64_up[where K=11] round_even_def)
  have a7: "convertToMilliseconds64 [''milliseconds'' \<mapsto> Fin 10000000000000000000] = Fin 10000000000000000000"
    by (simp add: convertToMilliseconds64_def prop_default_def ms_consts MILLISECONDS_IN_A_SECOND_def a1 a2 a3 a4 a5 a6)
  have a8: "Time_constructor64 [''milliseconds'' \<mapsto> Fin 10000000000000000000] = \<lparr>milliseconds = Fin 10000000000000000000\<rparr>"
    by (simp add: Time_constructor64_def a7)
  have a9: "div64 (Fin 10000000000000000000) (Fin 86400000) = Fin (7585185185185185 / 65536)"
    by (simp add: div64_def round64_down[where J=16] round_even_def)
  have a10: "floorTowardsZero (Fin (7585185185185185 / 65536)) = Fin 115740740740"
    by (simp add: floorTowardsZero_Fin integer_part_alt)
  have a11: "floorTowardsZero (Time_toDays64 \<lparr>milliseconds = Fin 10000000000000000000\<rparr>) = Fin 115740740740"
    by (simp add: Time_toDays64_def ms_consts MILLISECONDS_IN_A_SECOND_def a9 a10)
  have a12: "mul64 (Fin 115740740740) (Fin 86400000) = Fin 9999999999936000000"
    by (simp add: mul64_def round64_up[where K=11] round_even_def)
  have a13: "add64 (Fin 9999999999936000000) (Fin 0) = Fin 9999999999936000000"
    by (simp add: add64_def round64_up[where K=11] round_even_def)
  have a14: "convertToMilliseconds64 [''days'' \<mapsto> Fin 115740740740] = Fin 9999999999936000000"
    by (simp add: convertToMilliseconds64_def prop_default_def ms_consts MILLISECONDS_IN_A_SECOND_def a12 a2 a3 a4 a13)
  have a15: "sub64 (Fin 10000000000000000000) (Fin 9999999999936000000) = Fin 64000000"
    by (simp add: sub64_def js_sub_Fin int_exact round_even_def)
  have a16: "add64 (Fin 0) (Fin 64000000) = Fin 64000000"
    by (simp add: add64_def int_exact round_even_def)
  have a17: "convertToMilliseconds64 [''milliseconds'' \<mapsto> Fin 64000000] = Fin 64000000"
    by (simp add: convertToMilliseconds64_def prop_default_def ms_consts MILLISECONDS_IN_A_SECOND_def a1 a2 a3 a4 a5 a16)
  have a18: "Time_constructor64 [''milliseconds'' \<mapsto> Fin 64000000] = \<lparr>milliseconds = Fin 64000000\<rparr>"
    by (simp add: Time_constructor64_def a17)
  have a19: "Time_subtract64 \<lparr>milliseconds = Fin 10000000000000000000\<rparr> [''days'' \<mapsto> Fin 115740740740] = \<lparr>milliseconds = Fin 64000000\<rparr>"
    by (simp add: Time_subtract64_def a14 a15 a18)
  have a20: "div64 (Fin 64000000) (Fin 3600000) = Fin (2501999792983609 / 140737488355328)"
    by (simp add: div64_def round64_down[where J=48] round_even_def)
  have a21: "floorTowardsZero (Fin (2501999792983609 / 140737488355328)) = Fin 17"
    by (simp add: floorTowardsZero_Fin integer_part_alt)
  have a22: "floorTowardsZero (Time_toHours64 \<lparr>milliseconds = Fin 64000000\<rparr>) = Fin 17"
    by (simp add: Time_toHours64_def ms_consts MILLISECONDS_IN_A_SECOND_def a20 a21)
  have a23: "mul64 (Fin 17) (Fin 3600000) = Fin 61200000"
    by (simp add: mul64_def int_exact round_even_def)
  have a24: "add64 (Fin 0) (Fin 61200000) = Fin 61200000"
    by (simp add: add64_def int_exact round_even_def)
  have a25: "add64 (Fin 61200000) (Fin 0) = Fin 61200000"
    by (simp add: add64_def int_exact round_even_def)
  have a26: "convertToMilliseconds64 [''hours'' \<mapsto> Fin 17] = Fin 61200000"
    by (simp add: convertToMilliseconds64_def prop_default_def ms_consts MILLISECONDS_IN_A_SECOND_def a1 a23 a3 a4 a24 a25)
  have a27: "sub64 (Fin 64000000) (Fin 61200000) = Fin 2800000"
    by (simp add: sub64_def js_sub_Fin int_exact round_even_def)
  have a28: "add64 (Fin 0) (Fin 2800000) = Fin 2800000"
    by (simp add: add64_def int_exact round_even_def)
  have a29: "convertToMilliseconds64 [''milliseconds'' \<mapsto> Fin 2800000] = Fin 2800000"
    by (simp add: convertToMilliseconds64_def prop_default_def ms_consts MILLISECONDS_IN_A_SECOND_def a1 a2 a3 a4 a5 a28)
  have a30: "Time_constructor64 [''milliseconds'' \<mapsto> Fin 2800000] = \<lparr>milliseconds = Fin 2800000\<rparr>"
    by (simp add: Time_constructor64_def a29)
  have a31: "Time_subtract64 \<lparr>milliseconds = Fin 64000000\<rparr> [''hours'' \<mapsto> Fin 17] = \<lparr>milliseconds = Fin 2800000\<rparr>"
    by (simp add: Time_subtract64_def a26 a27 a30)
  have a32: "div64 (Fin 2800000) (Fin 60000) = Fin (6567749456581973 / 140737488355328)"
    by (simp add: div64_def round64_down[where J=47] round_even_def)
  have a33: "floorTowardsZero (Fin (6567749456581973 / 140737488355328)) = Fin 46"
    by (simp add: floorTowardsZero_Fin integer_part_alt)
  have a34: "floorTowardsZero (Time_toMinutes64 \<lparr>milliseconds = Fin 2800000\<rparr>) = Fin 46"
    by (simp add: Time_toMinutes64_def ms_consts MILLISECONDS_IN_A_SECOND_def a32 a33)
  have a35: "mul64 (Fin 46) (Fin 60000) = Fin 2760000"
    by (simp add: mul64_def int_exact round_even_def)
  have a36: "add64 (Fin 0) (Fin 2760000) = Fin 2760000"
    by (simp add: add64_def int_exact round_even_def)
  have a37: "add64 (Fin 2760000) (Fin 0) = Fin 2760000"
    by (simp add: add64_def int_exact round_even_def)
  have a38: "convertToMilliseconds64 [''minutes'' \<mapsto> Fin 46] = Fin 2760000"
    by (simp add: convertToMilliseconds64_def prop_default_def ms_consts MILLISECONDS_IN_A_SECOND_def a1 a2 a35 a4 a5 a36 a37)
  have a39: "sub64 (Fin 2800000) (Fin 2760000) = Fin 40000"
    by (simp add: sub64_def js_sub_Fin int_exact round_even_def)
  have a40: "add64 (Fin 0) (Fin 40000) = Fin 40000"
    by (simp add: add64_def int_exact round_even_def)
  have a41: "convertToMilliseconds64 [''milliseconds'' \<mapsto> Fin 40000] = Fin 40000"
    by (simp add: convertToMilliseconds64_def prop_default_def ms_consts MILLISECONDS_IN_A_SECOND_def a1 a2 a3 a4 a5 a40)
  have a42: "Time_constructor64 [''milliseconds'' \<mapsto> Fin 40000] = \<lparr>milliseconds = Fin 40000\<rparr>"
    by (simp add: Time_constructor64_def a41)
  have a43: "Time_subtract64 \<lparr>milliseconds = Fin 2800000\<rparr> [''minutes'' \<mapsto> Fin 46] = \<lparr>milliseconds = Fin 40000\<rparr>"
    by (simp add: Time_subtract64_def a38 a39 a42)
  have a44: "div64 (Fin 40000) (Fin 1000) = Fin 40"
    by (simp add: div64_def int_exact round_even_def)
  have a45: "floorTowardsZero (Fin 40) = Fin 40"
    by (simp add: floorTowardsZero_Fin integer_part_alt)
  have a46: "floorTowardsZero (Time_toSeconds64 \<lparr>milliseconds = Fin 40000\<rparr>) = Fin 40"
    by (simp add: Time_toSeconds64_def ms_consts MILLISECONDS_IN_A_SECOND_def a44 a45)
  have a47: "mul64 (Fin 40) (Fin 1000) = Fin 40000"
    by (simp add: mul64_def int_exact round_even_def)
  have a48: "add64 (Fin 40000) (Fin 0) = Fin 40000"
    by (simp add: add64_def int_exact round_even_def)
  have a49: "convertToMilliseconds64 [''seconds'' \<mapsto> Fin 40] = Fin 40000"
    by (simp add: convertToMilliseconds64_def prop_default_def ms_consts MILLISECONDS_IN_A_SECOND_def a1 a2 a3 a47 a5 a40 a48)
  have a50: "sub64 (Fin 40000) (Fin 40000) = Fin 0"
    by (simp add: sub64_def js_sub_Fin round64_zero)
  have a51: "convertToMilliseconds64 [''milliseconds'' \<mapsto> Fin 0] = Fin 0"
    by (simp add: convertToMilliseconds64_def prop_default_def ms_consts MILLISECONDS_IN_A_SECOND_def a1 a2 a3 a4 a5)
  have a52: "Time_constructor64 [''milliseconds'' \<mapsto> Fin 0] = \<lparr>milliseconds = Fin 0\<rparr>"
    by (simp add: Time_constructor64_def a51)
  have a53: "Time_subtract64 \<lparr>milliseconds = Fin 40000\<rparr> [''seconds'' \<mapsto> Fin 40] = \<lparr>milliseconds = Fin 0\<rparr>"
    by (simp add: Time_subtract64_def a49 a50 a52)
  have a54: "Time_toComponents64 \<lparr>milliseconds = Fin 10000000000000000000\<rparr> = [''days'' \<mapsto> Fin 115740740740, ''hours'' \<mapsto> Fin 17, ''minutes'' \<mapsto> Fin 46, ''seconds'' \<mapsto> Fin 40, ''milliseconds'' \<mapsto> Fin 0]"
    by (simp add: Time_toComponents64_def Let_def a11 a19 a22 a31 a34 a43 a46 a53)
  have a55: "add64 (Fin 9999999999936000000) (Fin 61200000) = Fin 9999999999997200384"
    by (simp add: add64_def round64_up[where K=11] round_even_def)
  have a56: "add64 (Fin 9999999999997200384) (Fin 2760000) = Fin 9999999999999961088"
    by (simp add: add64_def round64_up[where K=11] round_even_def)
  have a57: "add64 (Fin 9999999999999961088) (Fin 40000) = Fin 10000000000000002048"
    by (simp add: add64_def round64_up[where K=11] round_even_def)
  have a58: "add64 (Fin 10000000000000002048) (Fin 0) = Fin 10000000000000002048"
    by (simp add: add64_def round64_up[where K=11] round_even_def)
  have a59: "convertToMilliseconds64 [''days'' \<mapsto> Fin 115740740740, ''hours'' \<mapsto> Fin 17, ''minutes'' \<mapsto> Fin 46, ''seconds'' \<mapsto> Fin 40, ''milliseconds'' \<mapsto> Fin 0] = Fin 10000000000000002048"
    by (simp add: convertToMilliseconds64_def prop_default_def ms_consts MILLISECONDS_IN_A_SECOND_def a12 a23 a35 a47 a55 a56 a57 a58)
  show ?thesis by (simp only: a8 a54 a59 simp_thms)
qed

text \<open>The components of \<open>-25084953979027197952\<close> milliseconds, step by step.\<close>

lemma binary64_components_mixed_signs:
  "Time_constructor64 [''milliseconds'' \<mapsto> Fin (- 25084953979027197952)] = \<lparr>milliseconds = Fin (- 25084953979027197952)\<rparr> \<and>
   Time_toComponents64 (Time_constructor64 [''milliseconds'' \<mapsto> Fin (- 25084953979027197952)]) =
     [''days'' \<mapsto> Fin (- 290335115498), ''hours'' \<mapsto> Fin 0, ''minutes'' \<mapsto> Fin 0, ''seconds'' \<mapsto> Fin 4, ''milliseconds'' \<mapsto> Fin 96]"
proof -
  have b1: "mul64 (Fin 0) (Fin 86400000) = Fin 0"
    by (simp add: mul64_def zero_signed_def round64_zero)
  have b2: "mul64 (Fin 0) (Fin 3600000) = Fin 0"
    by (simp add: mul64_def zero_signed_def round64_zero)
  have b3: "mul64 (Fin 0) (Fin 60000) = Fin 0"
    by (simp add: mul64_def zero_signed_def round64_zero)
  have b4: "mul64 (Fin 0) (Fin 1000) = Fin 0"
    by (simp add: mul64_def zero_signed_def round64_zero)
  have b5: "add64 (Fin 0) (Fin 0) = Fin 0"
    by (simp add: add64_def round64_zero)
  have b6: "add64 (Fin 0) (Fin (- 25084953979027197952)) = Fin (- 25084953979027197952)"
    by (simp add: add64_def round64_up[where K=12] round_even_def)
  have b7: "convertToMilliseconds64 [''milliseconds'' \<mapsto> Fin (- 25084953979027197952)] = Fin (- 25084953979027197952)"
    by (simp add: convertToMilliseconds64_def prop_default_def ms_consts MILLISECONDS_IN_A_SECOND_def b1 b2 b3 b4 b5 b6)
  have b8: "Time_constructor64 [''milliseconds'' \<mapsto> Fin (- 25084953979027197952)] = \<lparr>milliseconds = Fin (- 25084953979027197952)\<rparr>"
    by (simp add: Time_constructor64_def b7)
  have b9: "div64 (Fin (- 25084953979027197952)) (Fin 86400000) = Fin (- 290335115498)"
    by (simp add: div64_def round64_down[where J=14] round_even_def)
  have b10: "floorTowardsZero (Fin (- 290335115498)) = Fin (- 290335115498)"
    by (simp add: floorTowardsZero_Fin integer_part_alt)
  have b11: "floorTowardsZero (Time_toDays64 \<lparr>milliseconds = Fin (- 25084953979027197952)\<rparr>) = Fin (- 290335115498)"
    by (simp add: Time_toDays64_def ms_consts MILLISECONDS_IN_A_SECOND_def b9 b10)
  have b12: "mul64 (Fin (- 290335115498)) (Fin 86400000) = Fin (- 25084953979027202048)"
    by (simp add: mul64_def round64_up[where K=12] round_even_def)
  have b13: "add64 (Fin (- 25084953979027202048)) (Fin 0) = Fin (- 25084953979027202048)"
    by (simp add: add64_def round64_up[where K=12] round_even_def)
  have b14: "convertToMilliseconds64 [''days'' \<mapsto> Fin (- 290335115498)] = Fin (- 25084953979027202048)"
    by (simp add: convertToMilliseconds64_def prop_default_def ms_consts MILLISECONDS_IN_A_SECOND_def b12 b2 b3 b4 b13)
  have b15: "sub64 (Fin (- 25084953979027197952)) (Fin (- 25084953979027202048)) = Fin 4096"
    by (simp add: sub64_def js_sub_Fin int_exact round_even_def)
  have b16: "add64 (Fin 0) (Fin 4096) = Fin 4096"
    by (simp add: add64_def int_exact round_even_def)
  have b17: "convertToMilliseconds64 [''milliseconds'' \<mapsto> Fin 4096] = Fin 4096"
    by (simp add: convertToMilliseconds64_def prop_default_def ms_consts MILLISECONDS_IN_A_SECOND_def b1 b2 b3 b4 b5 b16)
  have b18: "Time_constructor64 [''milliseconds'' \<mapsto> Fin 4096] = \<lparr>milliseconds = Fin 4096\<rparr>"
    by (simp add: Time_constructor64_def b17)
  have b19: "Time_subtract64 \<lparr>milliseconds = Fin (- 25084953979027197952)\<rparr> [''days'' \<mapsto> Fin (- 290335115498)] = \<lparr>milliseconds = Fin 4096\<rparr>"
    by (simp add: Time_subtract64_def b14 b15 b18)
  have b20: "div64 (Fin 4096) (Fin 3600000) = Fin (5247073869855161 / 4611686018427387904)"
    by (simp add: div64_def round64_down[where J=62] round_even_def)
  have b21: "floorTowardsZero (Fin (5247073869855161 / 4611686018427387904)) = Fin 0"
    by (simp add: floorTowardsZero_Fin integer_part_alt)
  have b22: "floorTowardsZero (Time_toHours64 \<lparr>milliseconds = Fin 4096\<rparr>) = Fin 0"
    by (simp add: Time_toHours64_def ms_consts MILLISECONDS_IN_A_SECOND_def b20 b21)
  have b23: "convertToMilliseconds64 [''hours'' \<mapsto> Fin 0] = Fin 0"
    by (simp add: convertToMilliseconds64_def prop_default_def ms_consts MILLISECONDS_IN_A_SECOND_def b1 b2 b3 b4 b5)
  have b24: "sub64 (Fin 4096) (Fin 0) = Fin 4096"
    by (simp add: sub64_def js_sub_Fin int_exact round_even_def)
  have b25: "Time_subtract64 \<lparr>milliseconds = Fin 4096\<rparr> [''hours'' \<mapsto> Fin 0] = \<lparr>milliseconds = Fin 4096\<rparr>"
    by (simp add: Time_subtract64_def b23 b24 b18)
  have b26: "div64 (Fin 4096) (Fin 60000) = Fin (2459565876494607 / 36028797018963968)"
    by (simp add: div64_def round64_down[where J=56] round_even_def)
  have b27: "floorTowardsZero (Fin (2459565876494607 / 36028797018963968)) = Fin 0"
    by (simp add: floorTowardsZero_Fin integer_part_alt)
  have b28: "floorTowardsZero (Time_toMinutes64 \<lparr>milliseconds = Fin 4096\<rparr>) = Fin 0"
    by (simp add: Time_toMinutes64_def ms_consts MILLISECONDS_IN_A_SECOND_def b26 b27)
  have b29: "convertToMilliseconds64 [''minutes'' \<mapsto> Fin 0] = Fin 0"
    by (simp add: convertToMilliseconds64_def prop_default_def ms_consts MILLISECONDS_IN_A_SECOND_def b1 b2 b3 b4 b5)
  have b30: "Time_subtract64 \<lparr>milliseconds = Fin 4096\<rparr> [''minutes'' \<mapsto> Fin 0] = \<lparr>milliseconds = Fin 4096\<rparr>"
    by (simp add: Time_subtract64_def b29 b24 b18)
  have b31: "div64 (Fin 4096) (Fin 1000) = Fin (1152921504606847 / 281474976710656)"
    by (simp add: div64_def round64_down[where J=50] round_even_def)
  have b32: "floorTowardsZero (Fin (1152921504606847 / 281474976710656)) = Fin 4"
    by (simp add: floorTowardsZero_Fin integer_part_alt)
  have b33: "floorTowardsZero (Time_toSeconds64 \<lparr>milliseconds = Fin 4096\<rparr>) = Fin 4"
    by (simp add: Time_toSeconds64_def ms_consts MILLISECONDS_IN_A_SECOND_def b31 b32)
  have b34: "mul64 (Fin 4) (Fin 1000) = Fin 4000"
    by (simp add: mul64_def int_exact round_even_def)
  have b35: "add64 (Fin 0) (Fin 4000) = Fin 4000"
    by (simp add: add64_def int_exact round_even_def)
  have b36: "add64 (Fin 4000) (Fin 0) = Fin 4000"
    by (simp add: add64_def int_exact round_even_def)
  have b37: "convertToMilliseconds64 [''seconds'' \<mapsto> Fin 4] = Fin 4000"
    by (simp add: convertToMilliseconds64_def prop_default_def ms_consts MILLISECONDS_IN_A_SECOND_def b1 b2 b3 b34 b5 b35 b36)
  have b38: "sub64 (Fin 4096) (Fin 4000) = Fin 96"
    by (simp add: sub64_def js_sub_Fin int_exact round_even_def)
  have b39: "add64 (Fin 0) (Fin 96) = Fin 96"
    by (simp add: add64_def int_exact round_even_def)
  have b40: "convertToMilliseconds64 [''milliseconds'' \<mapsto> Fin 96] = Fin 96"
    by (simp add: convertToMilliseconds64_def prop_default_def ms_consts MILLISECONDS_IN_A_SECOND_def b1 b2 b3 b4 b5 b39)
  have b41: "Time_constructor64 [''milliseconds'' \<mapsto> Fin 96] = \<lparr>milliseconds = Fin 96\<rparr>"
    by (simp add: Time_constructor64_def b40)
  have b42: "Time_subtract64 \<lparr>milliseconds = Fin 4096\<rparr> [''seconds'' \<mapsto> Fin 4] = \<lparr>milliseconds = Fin 96\<rparr>"
    by (simp add: Time_subtract64_def b37 b38 b41)
  have b43: "Time_toComponents64 \<lparr>milliseconds = Fin (- 25084953979027197952)\<rparr> = [''days'' \<mapsto> Fin (- 290335115498), ''hours'' \<mapsto> Fin 0, ''minutes'' \<mapsto> Fin 0, ''seconds'' \<mapsto> Fin 4, ''milliseconds'' \<mapsto> Fin 96]"
    by (simp add: Time_toComponents64_def Let_def b11 b19 b22 b25 b28 b30 b33 b42)
  show ?thesis by (simp only: b8 b43 simp_thms)
qed

text \<open>The example of the comment in \<open>Time.ts\<close>, step by step.\<close>

lemma binary64_components_example:
  "Time_constructor64 [''days'' \<mapsto> Fin (- 1), ''milliseconds'' \<mapsto> Fin 1] = \<lparr>milliseconds = Fin (- 86399999)\<rparr> \<and>
   Time_toComponents64 (Time_constructor64 [''days'' \<mapsto> Fin (- 1), ''milliseconds'' \<mapsto> Fin 1]) =
     [''days'' \<mapsto> Fin 0, ''hours'' \<mapsto> Fin (- 23), ''minutes'' \<mapsto> Fin (- 59), ''seconds'' \<mapsto> Fin (- 59), ''milliseconds'' \<mapsto> Fin (- 999)]"
proof -
  have c1: "mul64 (Fin (- 1)) (Fin 86400000) = Fin (- 86400000)"
    by (simp add: mul64_def int_exact round_even_def)
  have c2: "mul64 (Fin 0) (Fin 3600000) = Fin 0"
    by (simp add: mul64_def zero_signed_def round64_zero)
  have c3: "mul64 (Fin 0) (Fin 60000) = Fin 0"
    by (simp add: mul64_def zero_signed_def round64_zero)
  have c4: "mul64 (Fin 0) (Fin 1000) = Fin 0"
    by (simp add: mul64_def zero_signed_def round64_zero)
  have c5: "add64 (Fin (- 86400000)) (Fin 0) = Fin (- 86400000)"
    by (simp add: add64_def int_exact round_even_def)
  have c6: "add64 (Fin (- 86400000)) (Fin 1) = Fin (- 86399999)"
    by (simp add: add64_def int_exact round_even_def)
  have c7: "convertToMilliseconds64 [''days'' \<mapsto> Fin (- 1), ''milliseconds'' \<mapsto> Fin 1] = Fin (- 86399999)"
    by (simp add: convertToMilliseconds64_def prop_default_def ms_consts MILLISECONDS_IN_A_SECOND_def c1 c2 c3 c4 c5 c6)
  have c8: "Time_constructor64 [''days'' \<mapsto> Fin (- 1), ''milliseconds'' \<mapsto> Fin 1] = \<lparr>milliseconds = Fin (- 86399999)\<rparr>"
    by (simp add: Time_constructor64_def c7)
  have c9: "div64 (Fin (- 86399999)) (Fin 86400000) = Fin (- (9007199150491001 / 9007199254740992))"
    by (simp add: div64_def round64_down[where J=53] round_even_def)
  have c10: "floorTowardsZero (Fin (- (9007199150491001 / 9007199254740992))) = Fin 0"
    by (simp add: floorTowardsZero_Fin integer_part_alt)
  have c11: "floorTowardsZero (Time_toDays64 \<lparr>milliseconds = Fin (- 86399999)\<rparr>) = Fin 0"
    by (simp add: Time_toDays64_def ms_consts MILLISECONDS_IN_A_SECOND_def c9 c10)
  have c12: "mul64 (Fin 0) (Fin 86400000) = Fin 0"
    by (simp add: mul64_def zero_signed_def round64_zero)
  have c13: "add64 (Fin 0) (Fin 0) = Fin 0"
    by (simp add: add64_def round64_zero)
  have c14: "convertToMilliseconds64 [''days'' \<mapsto> Fin 0] = Fin 0"
    by (simp add: convertToMilliseconds64_def prop_default_def ms_consts MILLISECONDS_IN_A_SECOND_def c12 c2 c3 c4 c13)
  have c15: "sub64 (Fin (- 86399999)) (Fin 0) = Fin (- 86399999)"
    by (simp add: sub64_def js_sub_Fin int_exact round_even_def)
  have c16: "add64 (Fin 0) (Fin (- 86399999)) = Fin (- 86399999)"
    by (simp add: add64_def int_exact round_even_def)
  have c17: "convertToMilliseconds64 [''milliseconds'' \<mapsto> Fin (- 86399999)] = Fin (- 86399999)"
    by (simp add: convertToMilliseconds64_def prop_default_def ms_consts MILLISECONDS_IN_A_SECOND_def c12 c2 c3 c4 c13 c16)
  have c18: "Time_constructor64 [''milliseconds'' \<mapsto> Fin (- 86399999)] = \<lparr>milliseconds = Fin (- 86399999)\<rparr>"
    by (simp add: Time_constructor64_def c17)
  have c19: "Time_subtract64 \<lparr>milliseconds = Fin (- 86399999)\<rparr> [''days'' \<mapsto> Fin 0] = \<lparr>milliseconds = Fin (- 86399999)\<rparr>"
    by (simp add: Time_subtract64_def c14 c15 c18)
  have c20: "div64 (Fin (- 86399999)) (Fin 3600000) = Fin (- (3377699681434125 / 140737488355328))"
    by (simp add: div64_def round64_down[where J=48] round_even_def)
  have c21: "floorTowardsZero (Fin (- (3377699681434125 / 140737488355328))) = Fin (- 23)"
    by (simp add: floorTowardsZero_Fin integer_part_alt)
  have c22: "floorTowardsZero (Time_toHours64 \<lparr>milliseconds = Fin (- 86399999)\<rparr>) = Fin (- 23)"
    by (simp add: Time_toHours64_def ms_consts MILLISECONDS_IN_A_SECOND_def c20 c21)
  have c23: "mul64 (Fin (- 23)) (Fin 3600000) = Fin (- 82800000)"
    by (simp add: mul64_def int_exact round_even_def)
  have c24: "add64 (Fin 0) (Fin (- 82800000)) = Fin (- 82800000)"
    by (simp add: add64_def int_exact round_even_def)
  have c25: "add64 (Fin (- 82800000)) (Fin 0) = Fin (- 82800000)"
    by (simp add: add64_def int_exact round_even_def)
  have c26: "convertToMilliseconds64 [''hours'' \<mapsto> Fin (- 23)] = Fin (- 82800000)"
    by (simp add: convertToMilliseconds64_def prop_default_def ms_consts MILLISECONDS_IN_A_SECOND_def c12 c23 c3 c4 c24 c25)
  have c27: "sub64 (Fin (- 86399999)) (Fin (- 82800000)) = Fin (- 3599999)"
    by (simp add: sub64_def js_sub_Fin int_exact round_even_def)
  have c28: "add64 (Fin 0) (Fin (- 3599999)) = Fin (- 3599999)"
    by (simp add: add64_def int_exact round_even_def)
  have c29: "convertToMilliseconds64 [''milliseconds'' \<mapsto> Fin (- 3599999)] = Fin (- 3599999)"
    by (simp add: convertToMilliseconds64_def prop_default_def ms_consts MILLISECONDS_IN_A_SECOND_def c12 c2 c3 c4 c13 c28)
  have c30: "Time_constructor64 [''milliseconds'' \<mapsto> Fin (- 3599999)] = \<lparr>milliseconds = Fin (- 3599999)\<rparr>"
    by (simp add: Time_constructor64_def c29)
  have c31: "Time_subtract64 \<lparr>milliseconds = Fin (- 86399999)\<rparr> [''hours'' \<mapsto> Fin (- 23)] = \<lparr>milliseconds = Fin (- 3599999)\<rparr>"
    by (simp add: Time_subtract64_def c26 c27 c30)
  have c32: "div64 (Fin (- 3599999)) (Fin 60000) = Fin (- (4222123477847437 / 70368744177664))"
    by (simp add: div64_def round64_down[where J=47] round_even_def)
  have c33: "floorTowardsZero (Fin (- (4222123477847437 / 70368744177664))) = Fin (- 59)"
    by (simp add: floorTowardsZero_Fin integer_part_alt)
  have c34: "floorTowardsZero (Time_toMinutes64 \<lparr>milliseconds = Fin (- 3599999)\<rparr>) = Fin (- 59)"
    by (simp add: Time_toMinutes64_def ms_consts MILLISECONDS_IN_A_SECOND_def c32 c33)
  have c35: "mul64 (Fin (- 59)) (Fin 60000) = Fin (- 3540000)"
    by (simp add: mul64_def int_exact round_even_def)
  have c36: "add64 (Fin 0) (Fin (- 3540000)) = Fin (- 3540000)"
    by (simp add: add64_def int_exact round_even_def)
  have c37: "add64 (Fin (- 3540000)) (Fin 0) = Fin (- 3540000)"
    by (simp add: add64_def int_exact round_even_def)
  have c38: "convertToMilliseconds64 [''minutes'' \<mapsto> Fin (- 59)] = Fin (- 3540000)"
    by (simp add: convertToMilliseconds64_def prop_default_def ms_consts MILLISECONDS_IN_A_SECOND_def c12 c2 c35 c4 c13 c36 c37)
  have c39: "sub64 (Fin (- 3599999)) (Fin (- 3540000)) = Fin (- 59999)"
    by (simp add: sub64_def js_sub_Fin int_exact round_even_def)
  have c40: "add64 (Fin 0) (Fin (- 59999)) = Fin (- 59999)"
    by (simp add: add64_def int_exact round_even_def)
  have c41: "convertToMilliseconds64 [''milliseconds'' \<mapsto> Fin (- 59999)] = Fin (- 59999)"
    by (simp add: convertToMilliseconds64_def prop_default_def ms_consts MILLISECONDS_IN_A_SECOND_def c12 c2 c3 c4 c13 c40)
  have c42: "Time_constructor64 [''milliseconds'' \<mapsto> Fin (- 59999)] = \<lparr>milliseconds = Fin (- 59999)\<rparr>"
    by (simp add: Time_constructor64_def c41)
  have c43: "Time_subtract64 \<lparr>milliseconds = Fin (- 3599999)\<rparr> [''minutes'' \<mapsto> Fin (- 59)] = \<lparr>milliseconds = Fin (- 59999)\<rparr>"
    by (simp add: Time_subtract64_def c38 c39 c42)
  have c44: "div64 (Fin (- 59999)) (Fin 1000) = Fin (- (8444108563831325 / 140737488355328))"
    by (simp add: div64_def round64_down[where J=47] round_even_def)
  have c45: "floorTowardsZero (Fin (- (8444108563831325 / 140737488355328))) = Fin (- 59)"
    by (simp add: floorTowardsZero_Fin integer_part_alt)
  have c46: "floorTowardsZero (Time_toSeconds64 \<lparr>milliseconds = Fin (- 59999)\<rparr>) = Fin (- 59)"
    by (simp add: Time_toSeconds64_def ms_consts MILLISECONDS_IN_A_SECOND_def c44 c45)
  have c47: "mul64 (Fin (- 59)) (Fin 1000) = Fin (- 59000)"
    by (simp add: mul64_def int_exact round_even_def)
  have c48: "add64 (Fin 0) (Fin (- 59000)) = Fin (- 59000)"
    by (simp add: add64_def int_exact round_even_def)
  have c49: "add64 (Fin (- 59000)) (Fin 0) = Fin (- 59000)"
    by (simp add: add64_def int_exact round_even_def)
  have c50: "convertToMilliseconds64 [''seconds'' \<mapsto> Fin (- 59)] = Fin (- 59000)"
    by (simp add: convertToMilliseconds64_def prop_default_def ms_consts MILLISECONDS_IN_A_SECOND_def c12 c2 c3 c47 c13 c48 c49)
  have c51: "sub64 (Fin (- 59999)) (Fin (- 59000)) = Fin (- 999)"
    by (simp add: sub64_def js_sub_Fin int_exact round_even_def)
  have c52: "add64 (Fin 0) (Fin (- 999)) = Fin (- 999)"
    by (simp add: add64_def int_exact round_even_def)
  have c53: "convertToMilliseconds64 [''milliseconds'' \<mapsto> Fin (- 999)] = Fin (- 999)"
    by (simp add: convertToMilliseconds64_def prop_default_def ms_consts MILLISECONDS_IN_A_SECOND_def c12 c2 c3 c4 c13 c52)
  have c54: "Time_constructor64 [''milliseconds'' \<mapsto> Fin (- 999)] = \<lparr>milliseconds = Fin (- 999)\<rparr>"
    by (simp add: Time_constructor64_def c53)
  have c55: "Time_subtract64 \<lparr>milliseconds = Fin (- 59999)\<rparr> [''seconds'' \<mapsto> Fin (- 59)] = \<lparr>milliseconds = Fin (- 999)\<rparr>"
    by (simp add: Time_subtract64_def c50 c51 c54)
  have c56: "Time_toComponents64 \<lparr>milliseconds = Fin (- 86399999)\<rparr> = [''days'' \<mapsto> Fin 0, ''hours'' \<mapsto> Fin (- 23), ''minutes'' \<mapsto> Fin (- 59), ''seconds'' \<mapsto> Fin (- 59), ''milliseconds'' \<mapsto> Fin (- 999)]"
    by (simp add: Time_toComponents64_def Let_def c11 c19 c22 c31 c34 c43 c46 c55)
  show ?thesis by (simp only: c8 c56 simp_thms)
qed

section \<open>The claims\<close>

subsection \<open>C1: sum\<close>

text \<open>
  Claim C1 says that \<open>sum\<close> resolves every input to milliseconds, adds the
  milliseconds and normalizes the total once. The source parses every input to a
  components object and adds the objects field by field; nothing is converted to
  milliseconds and nothing is normalized. For the one input \<open>{minutes: 90}\<close>, worth
  5400000 milliseconds, \<open>sum\<close> returns 90 minutes, and normalizing 5400000 milliseconds
  gives 1 hour and 30 minutes.
\<close>

theorem sum_not_normalized_counterexample:
  "toMilliseconds Map.empty (VObject [''minutes'' \<mapsto> Fin 90]) = Inr (Fin 5400000) \<and>
   normalizeTime Map.empty (VNumber (Fin 5400000)) =
     Inr [''years'' \<mapsto> Fin 0, ''months'' \<mapsto> Fin 0, ''weeks'' \<mapsto> Fin 0, ''days'' \<mapsto> Fin 0,
          ''hours'' \<mapsto> Fin 1, ''minutes'' \<mapsto> Fin 30, ''seconds'' \<mapsto> Fin 0,
          ''milliseconds'' \<mapsto> Fin 0] \<and>
   sum_durations Map.empty [VObject [''minutes'' \<mapsto> Fin 90]] =
     Inr [''years'' \<mapsto> Fin 0, ''months'' \<mapsto> Fin 0, ''weeks'' \<mapsto> Fin 0, ''days'' \<mapsto> Fin 0,
          ''hours'' \<mapsto> Fin 0, ''minutes'' \<mapsto> Fin 90, ''seconds'' \<mapsto> Fin 0,
          ''milliseconds'' \<mapsto> Fin 0] \<and>
   sum_durations Map.empty [VObject [''minutes'' \<mapsto> Fin 90]] \<noteq>
     normalizeTime Map.empty (VNumber (Fin 5400000))"
proof -
  have ms: "toMilliseconds Map.empty (VObject [''minutes'' \<mapsto> Fin 90]) = Inr (Fin 5400000)"
    by (simp add: toMilliseconds_single)
  have ne: "sum_durations Map.empty [VObject [''minutes'' \<mapsto> Fin 90]] \<noteq>
     normalizeTime Map.empty (VNumber (Fin 5400000))"
  proof
    assume "sum_durations Map.empty [VObject [''minutes'' \<mapsto> Fin 90]] =
      normalizeTime Map.empty (VNumber (Fin 5400000))"
    then have "[''years'' \<mapsto> Fin 0, ''months'' \<mapsto> Fin 0, ''weeks'' \<mapsto> Fin 0, ''days'' \<mapsto> Fin 0,
          ''hours'' \<mapsto> Fin 0, ''minutes'' \<mapsto> Fin 90, ''seconds'' \<mapsto> Fin 0,
          ''milliseconds'' \<mapsto> Fin 0] ''minutes'' =
        [''years'' \<mapsto> Fin 0, ''months'' \<mapsto> Fin 0, ''weeks'' \<mapsto> Fin 0, ''days'' \<mapsto> Fin 0,
          ''hours'' \<mapsto> Fin 1, ''minutes'' \<mapsto> Fin 30, ''seconds'' \<mapsto> Fin 0,
          ''milliseconds'' \<mapsto> (Fin 0 :: number)] ''minutes''"
      by (simp only: sum_example normalize_5400000 sum.inject)
    then show False by simp
  qed
  from ms normalize_5400000 sum_example ne show ?thesis by blast
qed

text \<open>
  Claim C1, amended: for every list of inputs that parse, \<open>sum\<close> returns the
  components object whose eight unit fields are each the sum, from 0 and in the order
  of the inputs, of that field over the parsed inputs. The result is not normalized.
\<close>

theorem sum_adds_fieldwise:
  assumes "list_all2 (\<lambda>d x. parse p d = Inr x) durations parsed"
  shows "sum_durations p durations =
     Inr (\<lambda>key. if key \<in> set UNIT_KEYS
                then Some (foldl js_add (Fin 0) (map (\<lambda>d. prop_get d key) parsed)) else None)"
proof -
  from assms have "map_parse p durations = Inr parsed"
    by (rule map_parse_all)
  then show ?thesis
    by (rule sum_durations_parsed)
qed

text \<open>The example of the source's comment: \<open>sum({days: 1}, {days: 2, hours: 12})\<close>.\<close>

theorem sum_adds_fieldwise_witness:
  "list_all2 (\<lambda>d x. parse Map.empty d = Inr x)
     [VObject [''days'' \<mapsto> Fin 1], VObject [''days'' \<mapsto> Fin 2, ''hours'' \<mapsto> Fin 12]]
     [ZERO ++ [''days'' \<mapsto> Fin 1], ZERO ++ [''days'' \<mapsto> Fin 2, ''hours'' \<mapsto> Fin 12]] \<and>
   sum_durations Map.empty
     [VObject [''days'' \<mapsto> Fin 1], VObject [''days'' \<mapsto> Fin 2, ''hours'' \<mapsto> Fin 12]] =
     Inr [''years'' \<mapsto> Fin 0, ''months'' \<mapsto> Fin 0, ''weeks'' \<mapsto> Fin 0, ''days'' \<mapsto> Fin 3,
          ''hours'' \<mapsto> Fin 12, ''minutes'' \<mapsto> Fin 0, ''seconds'' \<mapsto> Fin 0,
          ''milliseconds'' \<mapsto> Fin 0]"
proof -
  have h: "list_all2 (\<lambda>d x. parse Map.empty d = Inr x)
     [VObject [''days'' \<mapsto> Fin 1], VObject [''days'' \<mapsto> Fin 2, ''hours'' \<mapsto> Fin 12]]
     [ZERO ++ [''days'' \<mapsto> Fin 1], ZERO ++ [''days'' \<mapsto> Fin 2, ''hours'' \<mapsto> Fin 12]]"
    by (simp add: parse_def)
  have "(\<lambda>key. if key \<in> set UNIT_KEYS
                then Some (foldl js_add (Fin 0) (map (\<lambda>d. prop_get d key)
                  [ZERO ++ [''days'' \<mapsto> Fin 1], ZERO ++ [''days'' \<mapsto> Fin 2, ''hours'' \<mapsto> Fin 12]]))
                else None) =
        [''years'' \<mapsto> Fin 0, ''months'' \<mapsto> Fin 0, ''weeks'' \<mapsto> Fin 0, ''days'' \<mapsto> Fin 3,
          ''hours'' \<mapsto> Fin 12, ''minutes'' \<mapsto> Fin 0, ''seconds'' \<mapsto> Fin 0,
          ''milliseconds'' \<mapsto> Fin 0]"
    by (simp add: fun_eq_iff UNIT_KEYS_def ZERO_def prop_get_def map_add_def)
  with sum_adds_fieldwise[OF h] h show ?thesis
    by simp
qed

subsection \<open>C2: normalization round-trips\<close>

text \<open>
  Claim C2 says that for every finite integral number \<open>m\<close> of milliseconds, converting
  the normalized components of \<open>m\<close> back to milliseconds gives exactly \<open>m\<close>. The class
  computes in binary64, where it fails for large \<open>m\<close>: \<open>10 ^ 19\<close> is an integral binary64
  number, its components are 115740740740 days, 17 hours, 46 minutes and 40 seconds,
  and converting them back gives 10000000000000002048.
\<close>

theorem roundtrip_binary64_counterexample:
  "milliseconds (Time_constructor64 [''milliseconds'' \<mapsto> Fin 10000000000000000000]) =
     Fin 10000000000000000000 \<and>
   Time_toComponents64 (Time_constructor64 [''milliseconds'' \<mapsto> Fin 10000000000000000000]) =
     [''days'' \<mapsto> Fin 115740740740, ''hours'' \<mapsto> Fin 17, ''minutes'' \<mapsto> Fin 46,
      ''seconds'' \<mapsto> Fin 40, ''milliseconds'' \<mapsto> Fin 0] \<and>
   convertToMilliseconds64
     (Time_toComponents64 (Time_constructor64 [''milliseconds'' \<mapsto> Fin 10000000000000000000])) =
     Fin 10000000000000002048 \<and>
   convertToMilliseconds64
     (Time_toComponents64 (Time_constructor64 [''milliseconds'' \<mapsto> Fin 10000000000000000000])) \<noteq>
     Fin 10000000000000000000"
proof -
  note e = binary64_roundtrip_at_1e19
  have c: "milliseconds (Time_constructor64 [''milliseconds'' \<mapsto> Fin 10000000000000000000]) =
     Fin 10000000000000000000"
    by (simp add: e[THEN conjunct1])
  have conv: "convertToMilliseconds64
     (Time_toComponents64 (Time_constructor64 [''milliseconds'' \<mapsto> Fin 10000000000000000000])) =
     Fin 10000000000000002048"
    by (rule e[THEN conjunct2, THEN conjunct2])
  have ne: "convertToMilliseconds64
     (Time_toComponents64 (Time_constructor64 [''milliseconds'' \<mapsto> Fin 10000000000000000000])) \<noteq>
     Fin 10000000000000000000"
    by (simp add: conv)
  from c e[THEN conjunct2, THEN conjunct1] conv ne show ?thesis
    by (intro conjI)
qed

text \<open>
  Claim C2, amended: for every integral number \<open>m\<close> of milliseconds of magnitude below
  \<open>2 ^ 53\<close> (the safe integers), converting the normalized components of \<open>m\<close> back to
  milliseconds gives exactly \<open>m\<close>, in binary64: for the class \<open>Time\<close>, and for
  \<open>normalizeTime\<close> with its eight units.
\<close>

theorem normalize_roundtrip_safe_integers:
  fixes m :: int
  assumes safe: "\<bar>m\<bar> < 2 ^ 53"
  shows
    "convertToMilliseconds64
       (Time_toComponents64 (Time_constructor64 [''milliseconds'' \<mapsto> Fin (of_int m)])) =
       Fin (of_int m) \<and>
     (\<exists>out. normalizeTime64 p (VNumber (Fin (of_int m))) = Inr out \<and>
            toMilliseconds64 p (VObject out) = Inr (Fin (of_int m)))"
proof -
  let ?m = "of_int m :: real"
  have "(of_int \<bar>m\<bar> :: real) < of_int (2 ^ 53)" using safe by (simp only: of_int_less_iff)
  then have bound: "\<bar>?m\<bar> < 2 ^ 53" by simp
  have int: "?m \<in> \<int>" by simp
  have five: "convertToMilliseconds64
       (Time_toComponents64 (Time_constructor64 [''milliseconds'' \<mapsto> Fin ?m])) = Fin ?m"
    using int bound by (rule roundtrip64)
  have eight: "\<exists>out. normalizeTime64 p (VNumber (Fin ?m)) = Inr out \<and>
          toMilliseconds64 p (VObject out) = Inr (Fin ?m)"
    using int bound by (rule normalizeTime64_roundtrip)
  from five eight show ?thesis by (rule conjI)
qed

theorem normalize_roundtrip_safe_integers_witness:
  "\<bar>5010 :: int\<bar> < 2 ^ 53 \<and>
   convertToMilliseconds64
     (Time_toComponents64 (Time_constructor64 [''milliseconds'' \<mapsto> Fin 5010])) = Fin 5010 \<and>
   (\<exists>out. normalizeTime64 Map.empty (VNumber (Fin 5010)) = Inr out \<and>
          toMilliseconds64 Map.empty (VObject out) = Inr (Fin 5010))"
proof -
  have h: "\<bar>5010 :: int\<bar> < 2 ^ 53" by simp
  from normalize_roundtrip_safe_integers[OF h, of Map.empty] h show ?thesis
    by simp
qed

subsection \<open>C3: no mixed signs\<close>

text \<open>
  Claim C3 says that whenever the millisecond value of the input is negative, every
  field of the normalized components is negative or zero. The class computes in
  binary64, where it fails for large magnitudes: the quotient of
  \<open>-25084953979027197952\<close> milliseconds by the milliseconds of a day rounds to the
  integer \<open>-290335115498\<close>, that many days are more than the input, and the rest is
  positive: 4 seconds and 96 milliseconds.
\<close>

theorem mixed_signs_binary64_counterexample:
  "(- 25084953979027197952 :: real) < 0 \<and>
   milliseconds (Time_constructor64 [''milliseconds'' \<mapsto> Fin (- 25084953979027197952)]) =
     Fin (- 25084953979027197952) \<and>
   Time_toComponents64 (Time_constructor64 [''milliseconds'' \<mapsto> Fin (- 25084953979027197952)]) =
     [''days'' \<mapsto> Fin (- 290335115498), ''hours'' \<mapsto> Fin 0, ''minutes'' \<mapsto> Fin 0,
      ''seconds'' \<mapsto> Fin 4, ''milliseconds'' \<mapsto> Fin 96]"
proof -
  note e = binary64_components_mixed_signs
  have n: "(- 25084953979027197952 :: real) < 0" by simp
  have c: "milliseconds (Time_constructor64 [''milliseconds'' \<mapsto> Fin (- 25084953979027197952)]) =
     Fin (- 25084953979027197952)"
    by (simp add: e[THEN conjunct1])
  from n c e[THEN conjunct2] show ?thesis
    by (intro conjI)
qed

text \<open>
  Claim C3, amended: for every input whose millisecond value \<open>m\<close> is a negative binary64
  number of magnitude below \<open>2 ^ 53\<close>, every field of the normalized components is
  negative or zero (a zero may be the negative zero), in binary64: for the eight fields
  of \<open>normalizeTime\<close> and for the five fields of \<open>toComponents\<close> of the class \<open>Time\<close>.
  \<open>{days: -1, milliseconds: 1}\<close> normalizes to 0 days, -23 hours, -59 minutes,
  -59 seconds and -999 milliseconds.
\<close>

theorem negative_binary64_nonpositive_fields:
  assumes ms: "toMilliseconds64 p time = Inr (Fin m)"
    and binary64: "round64 m = Fin m"
    and neg: "m < 0"
    and bound: "- (2 ^ 53) < m"
  shows
    "(\<exists>out. normalizeTime64 p time = Inr out \<and>
            (\<forall>key v. out key = Some v \<longrightarrow> v = NegZero \<or> (\<exists>x. v = Fin x \<and> x \<le> 0))) \<and>
     (\<forall>key v. Time_toComponents64 \<lparr>milliseconds = Fin m\<rparr> key = Some v \<longrightarrow>
            v = NegZero \<or> (\<exists>x. v = Fin x \<and> x \<le> 0)) \<and>
     normalizeTime64 p (VObject [''days'' \<mapsto> Fin (- 1), ''milliseconds'' \<mapsto> Fin 1]) =
       Inr [''years'' \<mapsto> Fin 0, ''months'' \<mapsto> Fin 0, ''weeks'' \<mapsto> Fin 0, ''days'' \<mapsto> Fin 0,
            ''hours'' \<mapsto> Fin (- 23), ''minutes'' \<mapsto> Fin (- 59), ''seconds'' \<mapsto> Fin (- 59),
            ''milliseconds'' \<mapsto> Fin (- 999)] \<and>
     Time_toComponents64 (Time_constructor64 [''days'' \<mapsto> Fin (- 1), ''milliseconds'' \<mapsto> Fin 1]) =
       [''days'' \<mapsto> Fin 0, ''hours'' \<mapsto> Fin (- 23), ''minutes'' \<mapsto> Fin (- 59),
        ''seconds'' \<mapsto> Fin (- 59), ''milliseconds'' \<mapsto> Fin (- 999)]"
proof -
  from neg have nonpos: "m \<le> 0" by simp
  have eight: "\<exists>out. normalizeTime64 p time = Inr out \<and>
            (\<forall>key v. out key = Some v \<longrightarrow> v = NegZero \<or> (\<exists>x. v = Fin x \<and> x \<le> 0))"
    using ms binary64 bound nonpos by (rule normalizeTime64_nonpos)
  have five: "\<forall>key v. Time_toComponents64 \<lparr>milliseconds = Fin m\<rparr> key = Some v \<longrightarrow>
            v = NegZero \<or> (\<exists>x. v = Fin x \<and> x \<le> 0)"
    using Time_toComponents64_nonpos[OF binary64 bound nonpos] by blast
  from eight five normalizeTime64_example binary64_components_example[THEN conjunct2]
  show ?thesis
    by (intro conjI)
qed

theorem negative_binary64_nonpositive_fields_witness:
  "toMilliseconds64 Map.empty (VObject [''days'' \<mapsto> Fin (- 1), ''milliseconds'' \<mapsto> Fin 1]) =
     Inr (Fin (- 86399999)) \<and>
   round64 (- 86399999) = Fin (- 86399999) \<and>
   (- 86399999 :: real) < 0 \<and>
   - (2 ^ 53) < (- 86399999 :: real) \<and>
   (\<exists>out. normalizeTime64 Map.empty (VObject [''days'' \<mapsto> Fin (- 1), ''milliseconds'' \<mapsto> Fin 1]) =
            Inr out \<and>
          (\<forall>key v. out key = Some v \<longrightarrow> v = NegZero \<or> (\<exists>x. v = Fin x \<and> x \<le> 0))) \<and>
   (\<exists>out. Time_toComponents64 \<lparr>milliseconds = Fin (- 86399999)\<rparr> = out \<and>
          (\<forall>key v. out key = Some v \<longrightarrow> v = NegZero \<or> (\<exists>x. v = Fin x \<and> x \<le> 0)))"
proof -
  have h1: "toMilliseconds64 Map.empty
       (VObject [''days'' \<mapsto> Fin (- 1), ''milliseconds'' \<mapsto> Fin 1]) = Inr (Fin (- 86399999))"
    by (rule toMilliseconds64_example)
  have h2: "round64 (- 86399999) = Fin (- 86399999)"
    by (rule int_exact) simp_all
  have h3: "(- 86399999 :: real) < 0" by simp
  have h4: "- (2 ^ 53) < (- 86399999 :: real)" by simp
  note t = negative_binary64_nonpositive_fields[OF h1 h2 h3 h4]
  from t[THEN conjunct2, THEN conjunct1]
  have five: "\<exists>out. Time_toComponents64 \<lparr>milliseconds = Fin (- 86399999)\<rparr> = out \<and>
          (\<forall>key v. out key = Some v \<longrightarrow> v = NegZero \<or> (\<exists>x. v = Fin x \<and> x \<le> 0))"
    by (simp only: simp_thms ex_simps)
  from h1 h2 h3 h4 t[THEN conjunct1] five show ?thesis
    by (intro conjI)
qed

subsection \<open>C4: the greedy decomposition\<close>



subsection \<open>C5: floorTowardsZero\<close>

text \<open>
  Claim C5: \<open>floorTowardsZero\<close> discards the fractional part, rounding towards zero, and
  a zero result is never the negative zero. On every finite real the code does so
  (\<open>floorTowardsZero_Fin\<close>, \<open>floorTowardsZero_examples\<close>): the negative zero that
  \<open>Math.ceil\<close> gives between \<open>-1\<close> and \<open>0\<close> is replaced by \<open>0\<close>. On the input negative
  zero it does not: \<open>-0 < 0\<close> is false, so the branch that replaces a negative zero is
  not taken, and \<open>Math.floor\<close> returns the negative zero.
\<close>

theorem floorTowardsZero_negative_zero:
  "\<not> js_lt NegZero (Fin 0) \<and> Math_floor NegZero = NegZero \<and>
   floorTowardsZero NegZero = NegZero"
  by (simp add: floorTowardsZero_def)

subsection \<open>C6: the coercion entry point\<close>

text \<open>
  Claim C6 says that an input that is not a string, a number or an object fails with
  a type error. The source checks for a string and for a number and spreads anything
  else over the default: there is no check of the shape and no type error. \<open>null\<close>
  yields the all-zero object.
\<close>

theorem toTimeObject_null_counterexample:
  "toTimeObject Map.empty VNull = Inr DEFAULT_TIME \<and>
   toTimeObject Map.empty VNull \<noteq> Inl TypeError"
  by (simp add: toTimeObject_def)

text \<open>
  Claim C6, amended: \<open>toTimeObject\<close> never fails with a type error. A string goes to the
  ISO parser, whose parse error is the only failure; a number becomes the field
  \<open>milliseconds\<close> over the all-zero default; any other value is spread over the all-zero
  default, so that \<open>null\<close>, \<open>undefined\<close> and a boolean yield the all-zero object.
\<close>

theorem toTimeObject_no_type_error:
  "toTimeObject p v \<noteq> Inl TypeError \<and>
   toTimeObject p (VString s) = (case p s of None \<Rightarrow> Inl ParseError | Some t \<Rightarrow> Inr t) \<and>
   toTimeObject p (VNumber n) = Inr (DEFAULT_TIME(''milliseconds'' \<mapsto> n)) \<and>
   toTimeObject p (VObject obj) = Inr (DEFAULT_TIME ++ obj) \<and>
   toTimeObject p VNull = Inr DEFAULT_TIME \<and>
   toTimeObject p VUndefined = Inr DEFAULT_TIME \<and>
   toTimeObject p (VBoolean b) = Inr DEFAULT_TIME"
proof -
  have "toTimeObject p v \<noteq> Inl TypeError"
    by (cases v) (simp_all add: toTimeObject_def split: option.splits)
  then show ?thesis
    by (simp add: toTimeObject_def)
qed

subsection \<open>C7: division by zero\<close>

text \<open>
  Claim C7: \<open>divide\<close> by \<open>0\<close> raises nothing (the method has no failure at all) and
  yields \<open>Infinity\<close> for a positive duration value, \<open>-Infinity\<close> for a negative one and
  NaN for a zero.
\<close>

theorem divide_by_zero:
  "(js_lt (Fin 0) x \<longrightarrow> milliseconds (Time_divide \<lparr>milliseconds = x\<rparr> (Fin 0)) = Infinity) \<and>
   (js_lt x (Fin 0) \<longrightarrow> milliseconds (Time_divide \<lparr>milliseconds = x\<rparr> (Fin 0)) = NegInfinity) \<and>
   (is_zero x \<longrightarrow> milliseconds (Time_divide \<lparr>milliseconds = x\<rparr> (Fin 0)) = NaN)"
proof (cases x)
  case (Fin r)
  then show ?thesis
    by (simp add: Time_divide_def Time_constructor_ms_any inf_signed_def)
qed (simp_all add: Time_divide_def Time_constructor_ms_any inf_signed_def)

theorem divide_by_zero_witness:
  "js_lt (Fin 0) (Fin 5400000) \<and>
   milliseconds (Time_divide \<lparr>milliseconds = Fin 5400000\<rparr> (Fin 0)) = Infinity \<and>
   js_lt (Fin (- 1)) (Fin 0) \<and>
   milliseconds (Time_divide \<lparr>milliseconds = Fin (- 1)\<rparr> (Fin 0)) = NegInfinity \<and>
   is_zero (Fin 0) \<and>
   milliseconds (Time_divide \<lparr>milliseconds = Fin 0\<rparr> (Fin 0)) = NaN"
  using divide_by_zero[of "Fin 5400000"] divide_by_zero[of "Fin (- 1)"] divide_by_zero[of "Fin 0"]
  by simp

subsection \<open>C8: add and subtract\<close>

text \<open>
  Claim C8: \<open>add\<close> returns a duration whose millisecond value is the sum of the
  millisecond values of its two inputs, and \<open>subtract\<close> one whose millisecond value is
  their difference; the result is an instance of \<open>Time\<close>, a number of milliseconds, not
  a components object. (The constructor adds the value to \<open>0\<close>, which leaves every
  number as it is but for the sign of a zero, \<open>js_add_zero_left\<close>: a negative zero is
  stored as \<open>0\<close>, the same number of milliseconds.)
\<close>

theorem add_subtract_milliseconds:
  "milliseconds (Time_add (Time_constructor a) b) =
     (if js_add (convertToMilliseconds a) (convertToMilliseconds b) = NegZero then Fin 0
      else js_add (convertToMilliseconds a) (convertToMilliseconds b)) \<and>
   milliseconds (Time_subtract (Time_constructor a) b) =
     (if js_sub (convertToMilliseconds a) (convertToMilliseconds b) = NegZero then Fin 0
      else js_sub (convertToMilliseconds a) (convertToMilliseconds b)) \<and>
   Time_add (Time_constructor [''minutes'' \<mapsto> Fin 90]) [''seconds'' \<mapsto> Fin 30] =
     \<lparr>milliseconds = Fin 5430000\<rparr> \<and>
   Time_subtract (Time_constructor [''minutes'' \<mapsto> Fin 90]) [''seconds'' \<mapsto> Fin 30] =
     \<lparr>milliseconds = Fin 5370000\<rparr>"
proof -
  have this_ms: "milliseconds (Time_constructor a) = convertToMilliseconds a"
    by (simp add: Time_constructor_def)
  have add: "milliseconds (Time_add (Time_constructor a) b) =
     (if js_add (convertToMilliseconds a) (convertToMilliseconds b) = NegZero then Fin 0
      else js_add (convertToMilliseconds a) (convertToMilliseconds b))"
    by (simp add: Time_add_def this_ms Time_constructor_ms_any)
  have sub: "milliseconds (Time_subtract (Time_constructor a) b) =
     (if js_sub (convertToMilliseconds a) (convertToMilliseconds b) = NegZero then Fin 0
      else js_sub (convertToMilliseconds a) (convertToMilliseconds b))"
    by (simp add: Time_subtract_def this_ms Time_constructor_ms_any)
  have ninety: "convertToMilliseconds [''minutes'' \<mapsto> Fin 90] = Fin 5400000"
    and thirty: "convertToMilliseconds [''seconds'' \<mapsto> Fin 30] = Fin 30000"
    by (simp_all add: convertToMilliseconds_def prop_default_def ms_consts
        MILLISECONDS_IN_A_SECOND_def zero_signed_def)
  have ex_add: "Time_add (Time_constructor [''minutes'' \<mapsto> Fin 90]) [''seconds'' \<mapsto> Fin 30] =
     \<lparr>milliseconds = Fin 5430000\<rparr>"
    by (simp add: Time_add_def Time_constructor_ms_any ninety thirty)
      (simp add: Time_constructor_def ninety)
  have ex_sub: "Time_subtract (Time_constructor [''minutes'' \<mapsto> Fin 90]) [''seconds'' \<mapsto> Fin 30] =
     \<lparr>milliseconds = Fin 5370000\<rparr>"
    by (simp add: Time_subtract_def Time_constructor_ms_any ninety thirty js_sub_def)
      (simp add: Time_constructor_def ninety)
  from add sub ex_add ex_sub show ?thesis by blast
qed

subsection \<open>C9: no instance is mutated\<close>

text \<open>
  Claim C9: for every instance \<open>t\<close> of \<open>Time\<close> in the store and each of \<open>add\<close>,
  \<open>subtract\<close>, \<open>multiply\<close> and \<open>divide\<close> called on it, the call returns a reference that
  was not in the store before, every instance that was in the store is as it was, and
  so is the field \<open>milliseconds\<close> of \<open>t\<close>.
\<close>

theorem operations_do_not_mutate:
  assumes "this < length h"
  shows
    "(case call_add h this time of (r, h') \<Rightarrow>
        length h \<le> r \<and> r < length h' \<and> take (length h) h' = h \<and>
        milliseconds (h' ! this) = milliseconds (h ! this)) \<and>
     (case call_subtract h this time of (r, h') \<Rightarrow>
        length h \<le> r \<and> r < length h' \<and> take (length h) h' = h \<and>
        milliseconds (h' ! this) = milliseconds (h ! this)) \<and>
     (case call_multiply h this k of (r, h') \<Rightarrow>
        length h \<le> r \<and> r < length h' \<and> take (length h) h' = h \<and>
        milliseconds (h' ! this) = milliseconds (h ! this)) \<and>
     (case call_divide h this k of (r, h') \<Rightarrow>
        length h \<le> r \<and> r < length h' \<and> take (length h) h' = h \<and>
        milliseconds (h' ! this) = milliseconds (h ! this))"
proof -
  have new: "case new_Time h t of (r, h') \<Rightarrow>
        length h \<le> r \<and> r < length h' \<and> take (length h) h' = h \<and>
        milliseconds (h' ! this) = milliseconds (h ! this)" for t
    using assms by (simp add: new_Time_def nth_append)
  show ?thesis
    unfolding call_add_def call_subtract_def call_multiply_def call_divide_def
    by (intro conjI new)
qed

theorem operations_do_not_mutate_witness:
  "(0 :: nat) < length [\<lparr>milliseconds = Fin 1000\<rparr>] \<and>
   call_add [\<lparr>milliseconds = Fin 1000\<rparr>] 0 [''seconds'' \<mapsto> Fin 1] =
     (1, [\<lparr>milliseconds = Fin 1000\<rparr>, \<lparr>milliseconds = Fin 2000\<rparr>]) \<and>
   (case call_add [\<lparr>milliseconds = Fin 1000\<rparr>] 0 [''seconds'' \<mapsto> Fin 1] of (r, h') \<Rightarrow>
      length [\<lparr>milliseconds = Fin 1000\<rparr>] \<le> r \<and> r < length h' \<and>
      take (length [\<lparr>milliseconds = Fin 1000\<rparr>]) h' = [\<lparr>milliseconds = Fin 1000\<rparr>] \<and>
      milliseconds (h' ! 0) = milliseconds ([\<lparr>milliseconds = Fin 1000\<rparr>] ! 0))"
proof -
  have h: "(0 :: nat) < length [\<lparr>milliseconds = Fin 1000\<rparr>]" by simp
  have c: "call_add [\<lparr>milliseconds = Fin 1000\<rparr>] 0 [''seconds'' \<mapsto> Fin 1] =
     (1, [\<lparr>milliseconds = Fin 1000\<rparr>, \<lparr>milliseconds = Fin 2000\<rparr>])"
    by (simp add: call_add_def new_Time_def Time_add_def Time_constructor_def
        convertToMilliseconds_def prop_default_def ms_consts MILLISECONDS_IN_A_SECOND_def
        zero_signed_def)
  have a: "case call_add [\<lparr>milliseconds = Fin 1000\<rparr>] 0 [''seconds'' \<mapsto> Fin 1] of (r, h') \<Rightarrow>
      length [\<lparr>milliseconds = Fin 1000\<rparr>] \<le> r \<and> r < length h' \<and>
      take (length [\<lparr>milliseconds = Fin 1000\<rparr>]) h' = [\<lparr>milliseconds = Fin 1000\<rparr>] \<and>
      milliseconds (h' ! 0) = milliseconds ([\<lparr>milliseconds = Fin 1000\<rparr>] ! 0)"
    by (rule conjunct1[OF operations_do_not_mutate[OF h, of "[''seconds'' \<mapsto> Fin 1]" "Fin 2"]])
  from h c a show ?thesis
    by (intro conjI)
qed

subsection \<open>C10: the class honours five fields\<close>

text \<open>
  Claim C10: \<open>convertToMilliseconds\<close> and the constructor of \<open>Time\<close> read only the fields
  days, hours, minutes, seconds and milliseconds of their input. Whatever the fields
  years, months and weeks hold, or whether they are there at all, changes nothing; the
  result is that of the object restricted to the five fields; and an object with no
  other field than years, months and weeks is worth 0 milliseconds. The table of
  \<open>normalizeTime\<close> has these three units.
\<close>

theorem convertToMilliseconds_five_fields:
  "convertToMilliseconds (obj(''years'' := y, ''months'' := mo, ''weeks'' := w)) =
     convertToMilliseconds obj \<and>
   Time_constructor (obj(''years'' := y, ''months'' := mo, ''weeks'' := w)) =
     Time_constructor obj \<and>
   convertToMilliseconds
     (obj |` {''days'', ''hours'', ''minutes'', ''seconds'', ''milliseconds''}) =
     convertToMilliseconds obj \<and>
   (dom obj \<subseteq> {''years'', ''months'', ''weeks''} \<longrightarrow>
      convertToMilliseconds obj = Fin 0 \<and> Time_constructor obj = \<lparr>milliseconds = Fin 0\<rparr>) \<and>
   {''years'', ''months'', ''weeks''} \<subseteq> set (map fst units)"
proof -
  have ignores: "convertToMilliseconds (obj(''years'' := y, ''months'' := mo, ''weeks'' := w)) =
     convertToMilliseconds obj"
    by (rule convertToMilliseconds_ignores)
  then have ctor: "Time_constructor (obj(''years'' := y, ''months'' := mo, ''weeks'' := w)) =
     Time_constructor obj"
    by (simp add: Time_constructor_def)
  have only: "dom obj \<subseteq> {''years'', ''months'', ''weeks''} \<longrightarrow>
      convertToMilliseconds obj = Fin 0 \<and> Time_constructor obj = \<lparr>milliseconds = Fin 0\<rparr>"
    by (simp add: Time_constructor_def convertToMilliseconds_only_ignored)
  have table: "{''years'', ''months'', ''weeks''} \<subseteq> set (map fst units)"
    by (simp add: units_def)
  have five: "convertToMilliseconds
     (obj |` {''days'', ''hours'', ''minutes'', ''seconds'', ''milliseconds''}) =
     convertToMilliseconds obj"
    by (simp add: convertToMilliseconds_def prop_default_def)
  from ignores ctor five only table show ?thesis by blast
qed

theorem convertToMilliseconds_five_fields_witness:
  "dom [''years'' \<mapsto> Fin 2, ''months'' \<mapsto> Fin 3, ''weeks'' \<mapsto> Fin 1] \<subseteq>
     {''years'', ''months'', ''weeks''} \<and>
   convertToMilliseconds [''years'' \<mapsto> Fin 2, ''months'' \<mapsto> Fin 3, ''weeks'' \<mapsto> Fin 1] = Fin 0 \<and>
   Time_constructor [''years'' \<mapsto> Fin 2, ''months'' \<mapsto> Fin 3, ''weeks'' \<mapsto> Fin 1] =
     \<lparr>milliseconds = Fin 0\<rparr>"
proof -
  have h: "dom [''years'' \<mapsto> Fin 2, ''months'' \<mapsto> Fin 3, ''weeks'' \<mapsto> Fin 1] \<subseteq>
     {''years'', ''months'', ''weeks''}"
    by simp
  from convertToMilliseconds_five_fields
         [of "[''years'' \<mapsto> Fin 2, ''months'' \<mapsto> Fin 3, ''weeks'' \<mapsto> Fin 1]"] h
  show ?thesis by blast
qed

end
